(* ===== verification/Prelude.thy ===== *)
theory Prelude
  imports Complex_Main "HOL-Library.State_Monad" "HOL-Library.Word" "HOL-Library.Sublist"
begin

text \<open>
  Shared vocabulary of the development.  The Go code threads its effects (connection pools,
  Redis, the message broker, metrics, the clock) through every call; the model threads one
  world record through the state monad of the library.  This theory fixes how such programs
  are read: \<open>result\<close> is what a computation returns and \<open>exec\<close> the world it leaves, with
  rewrite rules that push both through sequencing and branching.  Two small logics carry
  most component proofs: \<open>preserves\<close> (an invariant of the world survives a computation) and
  \<open>unchanged\<close> (a part of the world is not written by it), each with its own collection of
  rules.
\<close>

named_theorems preserving \<open>invariant rules, one per program construct\<close>
named_theorems framing \<open>frame rules: which part of the world a computation leaves alone\<close>
named_theorems triples \<open>rules for pre- and postconditions\<close>
named_theorems running \<open>results and final worlds of primitive computations\<close>

section \<open>Reading a stateful computation\<close>

abbreviation ret :: "'a \<Rightarrow> ('s, 'a) state" where
  "ret \<equiv> State_Monad.return"

definition reads :: "('s \<Rightarrow> 'a) \<Rightarrow> ('s, 'a) state" where
  "reads f = State (\<lambda>s. (f s, s))"

definition modify :: "('s \<Rightarrow> 's) \<Rightarrow> ('s, unit) state" where
  "modify f = State (\<lambda>s. ((), f s))"

definition result :: "('s, 'a) state \<Rightarrow> 's \<Rightarrow> 'a" where
  "result m s = fst (run_state m s)"

definition exec :: "('s, 'a) state \<Rightarrow> 's \<Rightarrow> 's" where
  "exec m s = snd (run_state m s)"

lemma result_State [simp]: "result (State f) s = fst (f s)"
  by (simp add: result_def)

lemma exec_State [simp]: "exec (State f) s = snd (f s)"
  by (simp add: exec_def)

lemma result_ret [simp]: "result (ret x) s = x"
  by (simp add: result_def)

lemma exec_ret [simp]: "exec (ret x) s = s"
  by (simp add: exec_def)

lemma result_reads [simp]: "result (reads f) s = f s"
  by (simp add: result_def reads_def)

lemma exec_reads [simp]: "exec (reads f) s = s"
  by (simp add: exec_def reads_def)

lemma exec_modify [simp]: "exec (modify f) s = f s"
  by (simp add: exec_def modify_def)

lemma result_bind [simp]: "result (State_Monad.bind m f) s = result (f (result m s)) (exec m s)"
  by (simp add: result_def exec_def split: prod.split)

lemma exec_bind [simp]: "exec (State_Monad.bind m f) s = exec (f (result m s)) (exec m s)"
  by (simp add: result_def exec_def split: prod.split)

lemma result_if [simp]: "result (if b then m else n) s = (if b then result m s else result n s)"
  by simp

lemma exec_if [simp]: "exec (if b then m else n) s = (if b then exec m s else exec n s)"
  by simp

lemma result_Let [simp]: "result (Let v f) s = result (f v) s"
  by simp

lemma exec_Let [simp]: "exec (Let v f) s = exec (f v) s"
  by simp

lemma run_state_pair: "run_state m s = (result m s, exec m s)"
  by (simp add: result_def exec_def)

section \<open>Invariants and frames of computations\<close>

definition preserves :: "('s \<Rightarrow> bool) \<Rightarrow> ('s, 'a) state \<Rightarrow> bool" where
  "preserves I m \<longleftrightarrow> (\<forall>s. I s \<longrightarrow> I (exec m s))"

definition unchanged :: "('s \<Rightarrow> 'v) \<Rightarrow> ('s, 'a) state \<Rightarrow> bool" where
  "unchanged g m \<longleftrightarrow> (\<forall>s. g (exec m s) = g s)"

lemma preservesI: "(\<And>s. I s \<Longrightarrow> I (exec m s)) \<Longrightarrow> preserves I m"
  by (simp add: preserves_def)

lemma preservesD: "preserves I m \<Longrightarrow> I s \<Longrightarrow> I (exec m s)"
  by (simp add: preserves_def)

lemma unchangedI: "(\<And>s. g (exec m s) = g s) \<Longrightarrow> unchanged g m"
  by (simp add: unchanged_def)

lemma unchangedD: "unchanged g m \<Longrightarrow> g (exec m s) = g s"
  by (simp add: unchanged_def)

lemma preserves_ret [preserving]: "preserves I (ret x)"
  by (simp add: preserves_def)

lemma preserves_reads [preserving]: "preserves I (reads f)"
  by (simp add: preserves_def)

lemma preserves_bind [preserving]:
  "preserves I m \<Longrightarrow> (\<And>x. preserves I (f x)) \<Longrightarrow> preserves I (State_Monad.bind m f)"
  by (simp add: preserves_def)

lemma preserves_if [preserving]:
  "(b \<Longrightarrow> preserves I m) \<Longrightarrow> (\<not> b \<Longrightarrow> preserves I n) \<Longrightarrow> preserves I (if b then m else n)"
  by simp

lemma preserves_Let [preserving]: "preserves I (f v) \<Longrightarrow> preserves I (Let v f)"
  by simp

lemma preserves_option [preserving]:
  "(x = None \<Longrightarrow> preserves I m) \<Longrightarrow> (\<And>y. x = Some y \<Longrightarrow> preserves I (f y)) \<Longrightarrow>
     preserves I (case x of None \<Rightarrow> m | Some y \<Rightarrow> f y)"
  by (simp split: option.split)

lemma preserves_sum [preserving]:
  "(\<And>e. x = Inl e \<Longrightarrow> preserves I (f e)) \<Longrightarrow> (\<And>y. x = Inr y \<Longrightarrow> preserves I (g y)) \<Longrightarrow>
     preserves I (case x of Inl e \<Rightarrow> f e | Inr y \<Rightarrow> g y)"
  by (simp split: sum.split)

lemma preserves_prod [preserving]:
  "(\<And>a b. x = (a, b) \<Longrightarrow> preserves I (f a b)) \<Longrightarrow> preserves I (case x of (a, b) \<Rightarrow> f a b)"
  by (simp split: prod.split)

lemma preserves_unchanged: "unchanged g m \<Longrightarrow> preserves (\<lambda>s. P (g s)) m"
  by (simp add: preserves_def unchanged_def)

lemma unchanged_ret [framing]: "unchanged g (ret x)"
  by (simp add: unchanged_def)

lemma unchanged_reads [framing]: "unchanged g (reads f)"
  by (simp add: unchanged_def)

lemma unchanged_bind [framing]:
  "unchanged g m \<Longrightarrow> (\<And>x. unchanged g (f x)) \<Longrightarrow> unchanged g (State_Monad.bind m f)"
  by (simp add: unchanged_def)

lemma unchanged_if [framing]:
  "(b \<Longrightarrow> unchanged g m) \<Longrightarrow> (\<not> b \<Longrightarrow> unchanged g n) \<Longrightarrow> unchanged g (if b then m else n)"
  by simp

lemma unchanged_Let [framing]: "unchanged g (f v) \<Longrightarrow> unchanged g (Let v f)"
  by simp

lemma unchanged_option [framing]:
  "(x = None \<Longrightarrow> unchanged g m) \<Longrightarrow> (\<And>y. x = Some y \<Longrightarrow> unchanged g (f y)) \<Longrightarrow>
     unchanged g (case x of None \<Rightarrow> m | Some y \<Rightarrow> f y)"
  by (simp split: option.split)

lemma unchanged_sum [framing]:
  "(\<And>e. x = Inl e \<Longrightarrow> unchanged g (f e)) \<Longrightarrow> (\<And>y. x = Inr y \<Longrightarrow> unchanged g (h y)) \<Longrightarrow>
     unchanged g (case x of Inl e \<Rightarrow> f e | Inr y \<Rightarrow> h y)"
  by (simp split: sum.split)

lemma unchanged_prod [framing]:
  "(\<And>a b. x = (a, b) \<Longrightarrow> unchanged g (f a b)) \<Longrightarrow> unchanged g (case x of (a, b) \<Rightarrow> f a b)"
  by (simp split: prod.split)

section \<open>Pre- and postconditions\<close>

text \<open>
  Where a computation's result carries a fact the next one needs (a transaction handle whose
  snapshot is well formed), an invariant is not enough.
\<close>

definition triple :: "('s \<Rightarrow> bool) \<Rightarrow> ('s, 'a) state \<Rightarrow> ('a \<Rightarrow> 's \<Rightarrow> bool) \<Rightarrow> bool" where
  "triple P m Q \<longleftrightarrow> (\<forall>s. P s \<longrightarrow> Q (result m s) (exec m s))"

lemma tripleI: "(\<And>s. P s \<Longrightarrow> Q (result m s) (exec m s)) \<Longrightarrow> triple P m Q"
  by (simp add: triple_def)

lemma tripleD: "triple P m Q \<Longrightarrow> P s \<Longrightarrow> Q (result m s) (exec m s)"
  by (simp add: triple_def)

lemma preserves_triple: "preserves I m \<longleftrightarrow> triple I m (\<lambda>_. I)"
  by (simp add: preserves_def triple_def)

lemma triple_bind: "triple P m Q \<Longrightarrow> (\<And>x. triple (Q x) (f x) R) \<Longrightarrow> triple P (State_Monad.bind m f) R"
  by (simp add: triple_def)

lemma triple_pre: "triple P m Q \<Longrightarrow> (\<And>s. P' s \<Longrightarrow> P s) \<Longrightarrow> triple P' m Q"
  by (simp add: triple_def)

lemma triple_ret [triples]: "(\<And>s. P s \<Longrightarrow> Q x s) \<Longrightarrow> triple P (ret x) Q"
  by (simp add: triple_def)

lemma triple_sum [triples]:
  "(\<And>e. x = Inl e \<Longrightarrow> triple P (f e) Q) \<Longrightarrow> (\<And>y. x = Inr y \<Longrightarrow> triple P (g y) Q) \<Longrightarrow>
     triple P (case x of Inl e \<Rightarrow> f e | Inr y \<Rightarrow> g y) Q"
  by (simp split: sum.split)

lemma triple_option [triples]:
  "(x = None \<Longrightarrow> triple P m Q) \<Longrightarrow> (\<And>y. x = Some y \<Longrightarrow> triple P (f y) Q) \<Longrightarrow>
     triple P (case x of None \<Rightarrow> m | Some y \<Rightarrow> f y) Q"
  by (simp split: option.split)

section \<open>Running a computation over a list\<close>

fun each :: "('x \<Rightarrow> ('s, 'a) state) \<Rightarrow> 'x list \<Rightarrow> ('s, 'a list) state" where
  "each f [] = ret []"
| "each f (x # xs) = do { y \<leftarrow> f x; ys \<leftarrow> each f xs; ret (y # ys) }"

lemma exec_each_append: "exec (each f (xs @ ys)) s = exec (each f ys) (exec (each f xs) s)"
  by (induction xs arbitrary: s) simp_all

lemma length_result_each: "length (result (each f xs) s) = length xs"
  by (induction xs arbitrary: s) simp_all

lemma preserves_each [preserving]: "(\<And>x. preserves I (f x)) \<Longrightarrow> preserves I (each f xs)"
  by (induction xs) (auto intro: preserving)

lemma unchanged_each [framing]: "(\<And>x. unchanged g (f x)) \<Longrightarrow> unchanged g (each f xs)"
  by (induction xs) (auto intro: framing)

section \<open>Transition systems and their invariants\<close>

text \<open>
  A component whose operations interleave freely (requests, the queue consumer, the limiter
  sweep) is a set of initial states and a step relation.  The locale states the induction
  principle once; each component interprets it on its own steps.
\<close>

locale step_system =
  fixes starts :: "'s \<Rightarrow> bool" and steps :: "'s \<Rightarrow> 's \<Rightarrow> bool" and inv :: "'s \<Rightarrow> bool"
  assumes inv_start: "starts s \<Longrightarrow> inv s"
    and inv_step: "inv s \<Longrightarrow> steps s t \<Longrightarrow> inv t"
begin

lemma inv_rtranclp: "steps\<^sup>*\<^sup>* s t \<Longrightarrow> inv s \<Longrightarrow> inv t"
  by (induction rule: rtranclp_induct) (blast intro: inv_step)+

lemma reachable_inv: "starts s \<Longrightarrow> steps\<^sup>*\<^sup>* s t \<Longrightarrow> inv t"
  by (blast intro: inv_rtranclp inv_start)

end

section \<open>Lists and strings\<close>

lemma find_filter: "find p xs = (case filter p xs of [] \<Rightarrow> None | x # _ \<Rightarrow> Some x)"
  by (induction xs) auto

lemma append_sep_inject:
  assumes "c \<notin> set xs" and "c \<notin> set ys" and "xs @ c # us = ys @ c # vs"
  shows "xs = ys \<and> us = vs"
  using assms
proof (induction xs arbitrary: ys)
  case Nil
  then show ?case by (cases ys) auto
next
  case (Cons x xs)
  then show ?case by (cases ys) auto
qed

end
