(* ===== verification/GoStd.thy ===== *)
theory GoStd
  imports Prelude
begin

text \<open>
  The parts of the Go language and of its standard library that the API uses: strings as byte
  lists, \<open>strings.TrimSpace\<close>, \<open>strconv.Atoi\<close> with its two error kinds and its clamping, the
  \<open>%d\<close> and \<open>%x\<close> verbs of \<open>fmt.Sprintf\<close>, 64-bit integers and durations.
\<close>

type_synonym time = int \<comment> \<open>nanoseconds since the epoch, as \<open>time.Time\<close> reads them\<close>
type_synonym goint = "64 word" \<comment> \<open>Go's \<open>int\<close> and \<open>time.Duration\<close> on a 64-bit target\<close>

text \<open>The zero \<open>time.Time\<close>: the first of January of year 1.\<close>

definition zero_time :: time where
  "zero_time = - 62135596800000000000"

section \<open>Decimal and hexadecimal printing\<close>

definition digit :: "nat \<Rightarrow> char" where
  "digit d = char_of (48 + d)"

fun dec_nat :: "nat \<Rightarrow> string" where
  "dec_nat n = (if n < 10 then [digit n] else dec_nat (n div 10) @ [digit (n mod 10)])"

declare dec_nat.simps [simp del]

definition dec_int :: "int \<Rightarrow> string" where
  "dec_int i = (if i < 0 then CHR ''-'' # dec_nat (nat (- i)) else dec_nat (nat i))"

definition hex_digit :: "nat \<Rightarrow> char" where
  "hex_digit d = (if d < 10 then digit d else char_of (87 + d))"

fun hex_nat :: "nat \<Rightarrow> string" where
  "hex_nat n = (if n < 16 then [hex_digit n] else hex_nat (n div 16) @ [hex_digit (n mod 16)])"

declare hex_nat.simps [simp del]

section \<open>strconv.Atoi\<close>

datatype num_error = ErrSyntax | ErrRange

definition digit_value :: "char \<Rightarrow> nat option" where
  "digit_value c = (if 48 \<le> (of_char c :: nat) \<and> (of_char c :: nat) \<le> 57
     then Some (of_char c - 48) else None)"

text \<open>
  The digit loop of \<open>strconv.ParseUint\<close> in base 10 and 64 bits: it stops at the first byte
  that is no digit, or at the first digit at which the value leaves 64 bits.
\<close>

fun parse_uint :: "nat \<Rightarrow> string \<Rightarrow> num_error + nat" where
  "parse_uint n [] = Inr n"
| "parse_uint n (c # cs) =
     (case digit_value c of
        None \<Rightarrow> Inl ErrSyntax
      | Some d \<Rightarrow> if 10 * n + d < 2 ^ 64 then parse_uint (10 * n + d) cs else Inl ErrRange)"

text \<open>
  \<open>Atoi\<close> returns a value even when it reports an error: 0 for a syntax error, and the nearest
  bound of the 64-bit range for a value outside it.
\<close>

definition sign_split :: "string \<Rightarrow> bool \<times> string" where
  "sign_split s =
     (case s of [] \<Rightarrow> (False, [])
      | c # cs \<Rightarrow> if c = CHR ''-'' then (True, cs) else if c = CHR ''+'' then (False, cs) else (False, s))"

definition Atoi :: "string \<Rightarrow> int \<times> num_error option" where
  "Atoi s =
     (case sign_split s of (neg, ds) \<Rightarrow>
        if ds = [] then (0, Some ErrSyntax)
        else case parse_uint 0 ds of
            Inl ErrSyntax \<Rightarrow> (0, Some ErrSyntax)
          | Inl ErrRange \<Rightarrow> (if neg then - (2 ^ 63) else 2 ^ 63 - 1, Some ErrRange)
          | Inr n \<Rightarrow>
              if \<not> neg \<and> 2 ^ 63 \<le> n then (2 ^ 63 - 1, Some ErrRange)
              else if neg \<and> 2 ^ 63 < n then (- (2 ^ 63), Some ErrRange)
              else (if neg then - int n else int n, None))"

definition atoi_word :: "string \<Rightarrow> goint" where
  "atoi_word s = word_of_int (fst (Atoi s))"

section \<open>strings.TrimSpace\<close>

text \<open>
  The white space of \<open>unicode.IsSpace\<close>, as UTF-8 byte sequences: the six ASCII ones, then
  U+0085, U+00A0, U+1680, U+2000 to U+200A, U+2028, U+2029, U+202F, U+205F and U+3000.
\<close>

definition space_bytes :: "nat list list" where
  "space_bytes =
     [[9], [10], [11], [12], [13], [32], [194, 133], [194, 160], [225, 154, 128]]
     @ map (\<lambda>k. [226, 128, k]) ([128, 129, 130, 131, 132, 133, 134, 135, 136, 137, 138] @ [168, 169, 175])
     @ [[226, 129, 159], [227, 128, 128]]"

definition space_seqs :: "string list" where
  "space_seqs = map (map char_of) space_bytes"

definition strip_one :: "string list \<Rightarrow> string \<Rightarrow> string option" where
  "strip_one ps s = map_option (\<lambda>p. drop (length p) s) (find (\<lambda>p. prefix p s) ps)"

text \<open>Each round removes at least one byte, so as many rounds as there are bytes suffice.\<close>

fun strip_rounds :: "nat \<Rightarrow> string list \<Rightarrow> string \<Rightarrow> string" where
  "strip_rounds 0 ps s = s"
| "strip_rounds (Suc k) ps s =
     (case strip_one ps s of None \<Rightarrow> s | Some t \<Rightarrow> strip_rounds k ps t)"

definition trim_left :: "string list \<Rightarrow> string \<Rightarrow> string" where
  "trim_left ps s = strip_rounds (length s) ps s"

definition TrimSpace :: "string \<Rightarrow> string" where
  "TrimSpace s = rev (trim_left (map rev space_seqs) (rev (trim_left space_seqs s)))"

section \<open>Facts about printing and parsing numbers\<close>

lemma digit_value_digit [simp]: "d < 10 \<Longrightarrow> digit_value (digit d) = Some d"
  by (simp add: digit_value_def digit_def of_char_of)

lemma dec_nat_nonempty [simp]: "dec_nat n \<noteq> []"
  by (subst dec_nat.simps) simp

lemma parse_uint_append_digit:
  "parse_uint a cs = Inr n \<Longrightarrow> d < 10 \<Longrightarrow> 10 * n + d < 2 ^ 64 \<Longrightarrow>
     parse_uint a (cs @ [digit d]) = Inr (10 * n + d)"
  by (induction a cs rule: parse_uint.induct) (auto split: option.splits if_splits)

lemma parse_dec_nat: "n < 2 ^ 64 \<Longrightarrow> parse_uint 0 (dec_nat n) = Inr n"
proof (induction n rule: dec_nat.induct)
  case (1 n)
  show ?case
  proof (cases "n < 10")
    case True
    then show ?thesis by (subst dec_nat.simps) simp
  next
    case False
    then have eq: "dec_nat n = dec_nat (n div 10) @ [digit (n mod 10)]"
      by (subst dec_nat.simps) simp
    have "parse_uint 0 (dec_nat (n div 10)) = Inr (n div 10)"
      using "1" False by simp
    moreover have "10 * (n div 10) + n mod 10 = n" by presburger
    ultimately show ?thesis
      using "1.prems" parse_uint_append_digit[of 0 "dec_nat (n div 10)" "n div 10" "n mod 10"]
      by (simp add: eq)
  qed
qed

lemma hd_dec_nat_digit: "\<exists>d < 10. hd (dec_nat n) = digit d"
proof (induction n rule: dec_nat.induct)
  case (1 n)
  show ?case
  proof (cases "n < 10")
    case True
    then show ?thesis by (subst dec_nat.simps) auto
  next
    case False
    then show ?thesis using "1" by (subst dec_nat.simps) auto
  qed
qed

lemma digit_not_sign: "d < 10 \<Longrightarrow> digit d \<noteq> CHR ''-'' \<and> digit d \<noteq> CHR ''+''"
proof
  assume "d < 10"
  then have v: "digit_value (digit d) = Some d" by simp
  show "digit d \<noteq> CHR ''-''" using v by (auto simp: digit_value_def)
  show "digit d \<noteq> CHR ''+''" using v by (auto simp: digit_value_def)
qed

lemma sign_split_dec_nat: "sign_split (dec_nat n) = (False, dec_nat n)"
proof -
  obtain c cs where "dec_nat n = c # cs"
    using dec_nat_nonempty[of n] by (cases "dec_nat n") auto
  moreover obtain d where "d < 10" "hd (dec_nat n) = digit d"
    using hd_dec_nat_digit by blast
  ultimately show ?thesis
    using digit_not_sign[of d] by (simp add: sign_split_def)
qed

lemma Atoi_dec_int:
  assumes "- (2 ^ 63) \<le> i" and "i < 2 ^ 63"
  shows "Atoi (dec_int i) = (i, None)"
proof (cases "i < 0")
  case True
  then have "nat (- i) < 2 ^ 64" and "\<not> 2 ^ 63 < nat (- i)" using assms by simp_all
  moreover have "sign_split (dec_int i) = (True, dec_nat (nat (- i)))"
    using True by (simp add: dec_int_def sign_split_def)
  ultimately show ?thesis
    using True by (simp add: Atoi_def parse_dec_nat)
next
  case False
  then have "nat i < 2 ^ 64" and "\<not> 2 ^ 63 \<le> nat i" using assms by simp_all
  moreover have "sign_split (dec_int i) = (False, dec_nat (nat i))"
    using False by (simp add: dec_int_def sign_split_dec_nat)
  ultimately show ?thesis
    using False by (simp add: Atoi_def parse_dec_nat)
qed

lemma Atoi_range: "- (2 ^ 63) \<le> fst (Atoi s) \<and> fst (Atoi s) < 2 ^ 63"
  by (auto simp: Atoi_def split: prod.splits sum.splits num_error.splits)

lemma Atoi_syntax_zero: "snd (Atoi s) = Some ErrSyntax \<Longrightarrow> fst (Atoi s) = 0"
  by (auto simp: Atoi_def split: prod.splits sum.splits num_error.splits if_splits)

lemma sint_atoi_word: "sint (atoi_word s) = fst (Atoi s)"
  using Atoi_range[of s] by (simp add: atoi_word_def sint_sbintrunc' signed_take_bit_int_eq_self)

section \<open>Facts about TrimSpace\<close>

lemma strip_one_None: "strip_one ps s = None \<longleftrightarrow> (\<forall>p \<in> set ps. \<not> prefix p s)"
  by (auto simp: strip_one_def find_None_iff)

lemma strip_one_shorter: "[] \<notin> set ps \<Longrightarrow> strip_one ps s = Some t \<Longrightarrow> length t < length s"
  by (auto simp: strip_one_def find_Some_iff prefix_def) (metis length_greater_0_conv nth_mem)

lemma strip_rounds_done:
  "[] \<notin> set ps \<Longrightarrow> length s \<le> k \<Longrightarrow> strip_one ps (strip_rounds k ps s) = None"
proof (induction k arbitrary: s)
  case 0
  then show ?case by (auto simp: strip_one_None)
next
  case (Suc k)
  show ?case
  proof (cases "strip_one ps s")
    case None
    then show ?thesis by simp
  next
    case (Some t)
    then have "length t \<le> k" using strip_one_shorter[OF Suc.prems(1) Some] Suc.prems(2) by simp
    then show ?thesis using Some Suc.IH[OF Suc.prems(1)] by simp
  qed
qed

lemma trim_left_done: "[] \<notin> set ps \<Longrightarrow> strip_one ps (trim_left ps s) = None"
  by (simp add: trim_left_def strip_rounds_done)

lemma trim_left_fixed: "strip_one ps s = None \<Longrightarrow> trim_left ps s = s"
  unfolding trim_left_def by (cases "length s") simp_all

lemma strip_rounds_suffix: "suffix (strip_rounds k ps s) s"
proof (induction k arbitrary: s)
  case (Suc k)
  show ?case
  proof (cases "strip_one ps s")
    case (Some t)
    then have "suffix t s" by (auto simp: strip_one_def suffix_drop)
    then show ?thesis using Some Suc.IH[of t] by (auto intro: suffix_order.trans)
  qed simp
qed simp

lemma trim_left_suffix: "suffix (trim_left ps s) s"
  by (simp add: trim_left_def strip_rounds_suffix)

lemma strip_one_prefix_None: "strip_one ps s = None \<Longrightarrow> prefix t s \<Longrightarrow> strip_one ps t = None"
  by (auto simp: strip_one_None intro: prefix_order.trans)

lemma space_seqs_nonempty: "[] \<notin> set space_seqs" "[] \<notin> set (map rev space_seqs)"
  by (auto simp: space_seqs_def space_bytes_def)

lemma TrimSpace_left_done: "strip_one space_seqs (TrimSpace s) = None"
proof -
  let ?t = "trim_left space_seqs s"
  have "prefix (rev (trim_left (map rev space_seqs) (rev ?t))) ?t"
    using trim_left_suffix[of "map rev space_seqs" "rev ?t"] by (simp add: suffix_to_prefix)
  then show ?thesis
    unfolding TrimSpace_def
    using strip_one_prefix_None trim_left_done[OF space_seqs_nonempty(1)] by blast
qed

lemma TrimSpace_right_done: "strip_one (map rev space_seqs) (rev (TrimSpace s)) = None"
  by (simp add: TrimSpace_def trim_left_done[OF space_seqs_nonempty(2)])

lemma TrimSpace_fixed:
  "strip_one space_seqs s = None \<Longrightarrow> strip_one (map rev space_seqs) (rev s) = None \<Longrightarrow> TrimSpace s = s"
  by (simp add: TrimSpace_def trim_left_fixed)

lemma TrimSpace_idem: "TrimSpace (TrimSpace s) = TrimSpace s"
  by (rule TrimSpace_fixed[OF TrimSpace_left_done TrimSpace_right_done])

text \<open>Evaluation on concrete strings.\<close>

lemmas trim_simps = TrimSpace_def trim_left_def strip_one_def space_seqs_def space_bytes_def char_of_def
  dec_int_def dec_nat.simps digit_def bit_Suc_0_iff

lemma trim_samples: "TrimSpace ''1'' = dec_int 1" "TrimSpace '' '' = []" "TrimSpace '' 60'' = dec_int 60"
  by (simp_all add: trim_simps)

lemma Atoi_blank: "snd (Atoi []) = Some ErrSyntax"
  by (simp add: Atoi_def sign_split_def)

end
