(* ===== verification/Structs.thy ===== *)
theory Structs
  imports GoStd
begin

text \<open>
  The data of the program: the JSON request and response structs of api/handler, the queue
  message of api/queue, the access-log entry of api/middleware, the Prometheus calls of
  api/metrics, and the rows of the two tables of migrations/init.sql.  Strings are byte lists.
  A \<open>float64\<close> is the rational number it denotes; the conversions to and from the database's
  decimal numbers are the driver's and stay parameters (theory World).  A \<open>NUMERIC(18,2)\<close>
  column is its integer number of cents.
\<close>

type_synonym float64 = rat
type_synonym cents = int
type_synonym uuid = nat

section \<open>Structs of the handlers and of the queue\<close>

record CreateTransactionRequest =
  req_UserID :: string
  req_Type :: string
  req_Amount :: float64
  req_Description :: string
  req_Idempotency :: string

record TransactionResponse =
  txn_ID :: string
  txn_UserID :: string
  txn_Type :: string
  txn_Amount :: float64
  txn_Status :: string
  txn_ReferenceID :: string
  txn_Description :: string
  txn_CreatedAt :: time
  txn_UpdatedAt :: time

record UserBalanceResponse =
  ub_UserID :: string
  ub_Username :: string
  ub_Balance :: float64
  ub_Status :: string
  ub_FetchedAt :: time

record TransactionMessage =
  msg_TransactionID :: string
  msg_UserID :: string
  msg_Type :: string
  msg_Amount :: float64
  msg_Description :: string
  msg_TraceID :: string
  msg_CreatedAt :: time

record LogEntry =
  log_Timestamp :: time
  log_TraceID :: string
  log_Method :: string
  log_Path :: string
  log_StatusCode :: nat
  log_LatencyMs :: int
  log_ClientIP :: string
  log_UserAgent :: string
  log_Error :: string

text \<open>
  The struct tags \<open>required\<close>, \<open>oneof=credit debit transfer\<close> and \<open>gt=0\<close> of
  CreateTransactionRequest, as the binding checks them after decoding.
\<close>

definition valid_request :: "CreateTransactionRequest \<Rightarrow> bool" where
  "valid_request r \<longleftrightarrow>
     req_UserID r \<noteq> [] \<and>
     req_Type r \<noteq> [] \<and> req_Type r \<in> {''credit'', ''debit'', ''transfer''} \<and>
     req_Amount r \<noteq> 0 \<and> 0 < req_Amount r"

section \<open>Responses\<close>

text \<open>A handler answers once, with a \<open>gin.H\<close> object or with one of the two response structs.\<close>

datatype jval = JStr string | JInt int | JBool bool | JTime time

datatype body =
    Obj "(string \<times> jval) list"
  | TxnBody TransactionResponse
  | BalanceBody UserBalanceResponse

record response =
  code :: nat
  headers :: "(string \<times> string) list"
  body :: body

definition json :: "nat \<Rightarrow> (string \<times> jval) list \<Rightarrow> response" where
  "json n kvs = \<lparr>code = n, headers = [], body = Obj kvs\<rparr>"

definition field :: "string \<Rightarrow> response \<Rightarrow> jval option" where
  "field k r = (case body r of Obj kvs \<Rightarrow> map_of kvs k | _ \<Rightarrow> None)"

lemma code_json [simp]: "code (json n kvs) = n"
  by (simp add: json_def)

lemma headers_json [simp]: "headers (json n kvs) = []"
  by (simp add: json_def)

lemma field_json [simp]: "field k (json n kvs) = map_of kvs k"
  by (simp add: json_def field_def)

text \<open>What the routing layer hands to a handler: the parts of \<open>gin.Context\<close> that are read.\<close>

record gin_ctx =
  trace_id :: string
  header_trace :: string
  param_id :: string
  raw_body :: string
  client_ip :: string
  req_method :: string
  url_path :: string
  full_path :: string
  user_agent :: string
  errors :: string
  deadline :: "time option"
  start_time :: time

section \<open>Prometheus calls\<close>

text \<open>
  One constructor per metric of api/metrics; a value is one call on it, with its labels and,
  for a gauge or the histogram, the value given.
\<close>

datatype metric =
    HttpRequestsTotal string string string
  | HttpRequestDuration string string int
  | CacheHitsTotal string
  | CacheMissesTotal string
  | QueueMessagesPending int
  | QueuePublishedTotal
  | QueueProcessedTotal string
  | RateLimitRejectedTotal
  | CircuitBreakerState string int
  | DbConnectionsActive string int
  | TransactionsCreatedTotal string string
  | IdempotencyHitsTotal

text \<open>The value of a counter, and of a gauge after its last \<open>Set\<close>, in a list of calls.\<close>

definition counter :: "metric \<Rightarrow> metric list \<Rightarrow> nat" where
  "counter m ms = count_list ms m"

fun breaker_gauge :: "string \<Rightarrow> metric list \<Rightarrow> int option" where
  "breaker_gauge n [] = None"
| "breaker_gauge n (m # ms) =
     (case breaker_gauge n ms of
        Some v \<Rightarrow> Some v
      | None \<Rightarrow> (case m of CircuitBreakerState k v \<Rightarrow> if k = n then Some v else None | _ \<Rightarrow> None))"

lemma counter_Nil [simp]: "counter m [] = 0"
  by (simp add: counter_def)

lemma counter_append [simp]: "counter m (xs @ ys) = counter m xs + counter m ys"
  by (simp add: counter_def)

lemma counter_Cons [simp]: "counter m (x # xs) = (if x = m then 1 else 0) + counter m xs"
  by (simp add: counter_def)

lemma breaker_gauge_snoc:
  "breaker_gauge n (ms @ [m]) =
     (case m of CircuitBreakerState k v \<Rightarrow> if k = n then Some v else breaker_gauge n ms
      | _ \<Rightarrow> breaker_gauge n ms)"
  by (induction ms) (auto split: metric.splits option.splits)

section \<open>Rows of the database\<close>

datatype txn_status = Pending | Processing | Completed | Failed

primrec status_text :: "txn_status \<Rightarrow> string" where
  "status_text Pending = ''pending''"
| "status_text Processing = ''processing''"
| "status_text Completed = ''completed''"
| "status_text Failed = ''failed''"

text \<open>The life cycle of a transaction orders its statuses.\<close>

primrec status_rank :: "txn_status \<Rightarrow> nat" where
  "status_rank Pending = 0"
| "status_rank Processing = 1"
| "status_rank Completed = 2"
| "status_rank Failed = 3"

lemma status_rank_inject [simp]: "status_rank a = status_rank b \<longleftrightarrow> a = b"
  by (cases a; cases b) simp_all

lemma status_text_inject [simp]: "status_text a = status_text b \<longleftrightarrow> a = b"
  by (cases a; cases b) simp_all

instantiation txn_status :: linorder
begin

definition less_eq_txn_status :: "txn_status \<Rightarrow> txn_status \<Rightarrow> bool" where
  "a \<le> b \<longleftrightarrow> status_rank a \<le> status_rank b"

definition less_txn_status :: "txn_status \<Rightarrow> txn_status \<Rightarrow> bool" where
  "a < b \<longleftrightarrow> status_rank a < status_rank b"

instance
  by standard (auto simp: less_eq_txn_status_def less_txn_status_def)

end

record user_row =
  username :: string
  email :: string
  balance :: cents
  user_status :: string
  user_created :: time
  user_updated :: time

record txn_row =
  row_id :: uuid
  row_user :: uuid
  row_type :: string
  row_amount :: cents
  row_status :: txn_status
  row_reference :: "string option"
  row_description :: "string option"
  row_created :: time
  row_updated :: time

text \<open>
  \<open>users\<close> has a primary key; \<open>transactions\<close> is partitioned by \<open>created_at\<close> and has none, so it
  is a list in which an id may occur more than once.
\<close>

record tables =
  users :: "uuid \<Rightarrow> user_row option"
  transactions :: "txn_row list"

end
