(* ===== verification/World.thy ===== *)
theory World
  imports Structs
begin

text \<open>
  The world a request runs in, and the code it runs against.  What the program itself keeps
  (the limiter table, the breakers, metrics and log lines) and the database rows it writes are
  fields of the record \<open>world\<close>.  Code that is not in the repository is a parameter: the record
  \<open>env\<close> bundles the Redis client, the AMQP channel, the circuit breaker and token bucket
  libraries, the JSON and driver conversions, the operating system's environment and clock.
  Each of their operations is a function on an abstract state of its own type, and nothing
  is assumed about them here.
\<close>

type_synonym endpoint = "string \<times> string" \<comment> \<open>host and port of a database server\<close>

record Database =
  Write :: endpoint
  Read :: endpoint

section \<open>Errors\<close>

text \<open>
  What \<open>database/sql\<close> reports: \<open>sql.ErrNoRows\<close>, the SQLSTATE classes the statements of the
  program can raise, and everything else the driver, the network or an expired context return.
\<close>

datatype sql_error =
    ErrNoRows
  | InvalidText
  | CheckViolation
  | ForeignKeyViolation
  | UniqueViolation
  | NumericOverflow
  | StringTooLong
  | DriverError string

text \<open>
  The fate of one round trip to a database server: it is answered; the request never took
  effect; or it took effect and the answer was lost, so the caller sees an error.
\<close>

datatype round_trip = Answered | RequestLost string | ReplyLost string

section \<open>Interfaces of code outside the repository\<close>

datatype redis_reply = RedisNil | RedisBytes string | RedisError string

record 'r redis_lib =
  rd_get :: "string \<Rightarrow> time \<Rightarrow> 'r \<Rightarrow> redis_reply \<times> 'r"
  rd_set :: "string \<Rightarrow> string \<Rightarrow> goint \<Rightarrow> time \<Rightarrow> 'r \<Rightarrow> string option \<times> 'r"
  rd_del :: "string \<Rightarrow> time \<Rightarrow> 'r \<Rightarrow> string option \<times> 'r"
  rd_ping :: "time \<Rightarrow> 'r \<Rightarrow> string option \<times> 'r"

record publishing =
  pub_ContentType :: string
  pub_DeliveryMode :: nat
  pub_MessageId :: string
  pub_Timestamp :: time
  pub_Body :: string

text \<open>
  The AMQP channel.  \<open>mq_publish\<close> takes exchange, routing key, \<open>mandatory\<close> and \<open>immediate\<close>; the error
  it returns is that of sending the frame.  The program neither puts the channel in confirm mode
  nor listens for returned messages, so nothing tells it what the broker did with a message that
  was sent: the queue may refuse it (\<open>reject-publish\<close>) or no queue may be bound, with no error.
  \<open>mq_holds\<close> says that a message with a given body is on the queue, waiting or delivered and not yet
  settled.
\<close>

record 'q amqp_lib =
  mq_publish :: "string \<Rightarrow> string \<Rightarrow> bool \<Rightarrow> bool \<Rightarrow> publishing \<Rightarrow> 'q \<Rightarrow> string option \<times> 'q"
  mq_holds :: "'q \<Rightarrow> string \<Rightarrow> bool"
  mq_inspect :: "string \<Rightarrow> 'q \<Rightarrow> (string + nat) \<times> 'q"
  mq_ack :: "nat \<Rightarrow> 'q \<Rightarrow> 'q"
  mq_nack :: "nat \<Rightarrow> bool \<Rightarrow> 'q \<Rightarrow> 'q"

datatype breaker_state = StateClosed | StateHalfOpen | StateOpen

record Counts =
  Requests :: "32 word"
  TotalSuccesses :: "32 word"
  TotalFailures :: "32 word"
  ConsecutiveSuccesses :: "32 word"
  ConsecutiveFailures :: "32 word"

record Settings =
  set_Name :: string
  set_MaxRequests :: "32 word"
  set_Interval :: goint
  set_Timeout :: goint
  set_ReadyToTrip :: "Counts \<Rightarrow> bool"

datatype breaker_refusal = ErrOpenState | ErrTooManyRequests

text \<open>
  The breaker's operations return the state changes they made, in order, because the library
  calls \<open>OnStateChange\<close> for each.  \<open>Execute\<close> is split at the point where it runs the request:
  \<open>cb_allow\<close> refuses or returns the generation, \<open>cb_done\<close> records the outcome for it.
\<close>

record 'b breaker_lib =
  cb_new :: "Settings \<Rightarrow> 'b"
  cb_name :: "'b \<Rightarrow> string"
  cb_message :: "breaker_refusal \<Rightarrow> string"
  cb_state :: "time \<Rightarrow> 'b \<Rightarrow> breaker_state \<times> (breaker_state \<times> breaker_state) list \<times> 'b"
  cb_allow :: "time \<Rightarrow> 'b \<Rightarrow> (breaker_refusal + nat) \<times> (breaker_state \<times> breaker_state) list \<times> 'b"
  cb_done :: "time \<Rightarrow> nat \<Rightarrow> bool \<Rightarrow> 'b \<Rightarrow> (breaker_state \<times> breaker_state) list \<times> 'b"

record 'l limiter_lib =
  lim_new :: "goint \<Rightarrow> goint \<Rightarrow> 'l"
  lim_allow :: "time \<Rightarrow> 'l \<Rightarrow> bool \<times> 'l"

text \<open>
  The driver: the forms of a UUID that the server reads and the one it prints, the decimal
  number sent for a \<open>float64\<close> and the \<open>float64\<close> read from a number of cents, the fate of the
  n-th round trip, and the text of an error.
\<close>

record pg_lib =
  uuid_in :: "string \<Rightarrow> uuid option"
  uuid_out :: "uuid \<Rightarrow> string"
  pq_float :: "float64 \<Rightarrow> rat"
  scan_float :: "cents \<Rightarrow> float64"
  pg_fate :: "nat \<Rightarrow> round_trip"
  pg_message :: "sql_error \<Rightarrow> string"

record json_lib =
  enc_id :: "string \<Rightarrow> string + string"
  dec_id :: "string \<Rightarrow> string + string"
  enc_txn :: "TransactionResponse \<Rightarrow> string + string"
  dec_txn :: "string \<Rightarrow> string + TransactionResponse"
  enc_balance :: "UserBalanceResponse \<Rightarrow> string + string"
  dec_balance :: "string \<Rightarrow> string + UserBalanceResponse"
  enc_msg :: "TransactionMessage \<Rightarrow> string + string"
  dec_msg :: "string \<Rightarrow> string + TransactionMessage"
  dec_request :: "string \<Rightarrow> string + CreateTransactionRequest"
  invalid_message :: "CreateTransactionRequest \<Rightarrow> string"

record ('r, 'q, 'b, 'l) env =
  getenv :: "string \<Rightarrow> string"
  clock :: "nat \<Rightarrow> time"
  uuid_new :: "nat \<Rightarrow> string"
  rand_int63 :: "nat \<Rightarrow> nat"
  local_date :: "time \<Rightarrow> string"
  DB :: Database
  pg :: pg_lib
  rds :: "'r redis_lib"
  mq :: "'q amqp_lib"
  cb :: "'b breaker_lib"
  lim :: "'l limiter_lib"
  codec :: json_lib

section \<open>The world\<close>

text \<open>\<open>ipLimiter\<close> of api/middleware/ratelimit.go.\<close>

record 'l ipLimiter =
  limiter :: 'l
  lastSeen :: time

text \<open>
  \<open>ticks\<close>, \<open>n_uuid\<close>, \<open>n_rand\<close> and \<open>n_pg\<close> count the readings of the clock, the identifiers
  and random numbers drawn and the database round trips made so far; \<open>env\<close> says what the next
  one yields.  The readings of the clock are arbitrary: a theorem that needs time to advance
  says so.
\<close>

record ('r, 'q, 'b, 'l) world =
  servers :: "endpoint \<Rightarrow> tables"
  redis :: 'r
  broker :: 'q
  dbCircuitBreaker :: 'b
  cacheCircuitBreaker :: 'b
  limiters :: "string \<Rightarrow> 'l ipLimiter option"
  mtrace :: "metric list"
  logs :: "LogEntry list"
  ticks :: nat
  n_uuid :: nat
  n_rand :: nat
  n_pg :: nat

type_synonym ('r, 'q, 'b, 'l, 'a) act = "(('r, 'q, 'b, 'l) world, 'a) state"

type_synonym ('r, 'q, 'b, 'l) handler = "gin_ctx \<Rightarrow> ('r, 'q, 'b, 'l, response) act"

section \<open>Primitive effects\<close>

definition now :: "('r, 'q, 'b, 'l) env \<Rightarrow> ('r, 'q, 'b, 'l, time) act" where
  "now E = State (\<lambda>w. (clock E (ticks w), w\<lparr>ticks := Suc (ticks w)\<rparr>))"

definition new_uuid :: "('r, 'q, 'b, 'l) env \<Rightarrow> ('r, 'q, 'b, 'l, string) act" where
  "new_uuid E = State (\<lambda>w. (uuid_new E (n_uuid w), w\<lparr>n_uuid := Suc (n_uuid w)\<rparr>))"

definition new_rand :: "('r, 'q, 'b, 'l) env \<Rightarrow> ('r, 'q, 'b, 'l, nat) act" where
  "new_rand E = State (\<lambda>w. (rand_int63 E (n_rand w), w\<lparr>n_rand := Suc (n_rand w)\<rparr>))"

definition next_fate :: "('r, 'q, 'b, 'l) env \<Rightarrow> ('r, 'q, 'b, 'l, round_trip) act" where
  "next_fate E = State (\<lambda>w. (pg_fate (pg E) (n_pg w), w\<lparr>n_pg := Suc (n_pg w)\<rparr>))"

definition count :: "metric \<Rightarrow> ('r, 'q, 'b, 'l, unit) act" where
  "count m = modify (\<lambda>w. w\<lparr>mtrace := mtrace w @ [m]\<rparr>)"

definition write_log :: "LogEntry \<Rightarrow> ('r, 'q, 'b, 'l, unit) act" where
  "write_log e = modify (\<lambda>w. w\<lparr>logs := logs w @ [e]\<rparr>)"

lemma now_run [running]:
  "result (now E) w = clock E (ticks w)"
  "exec (now E) w = w\<lparr>ticks := Suc (ticks w)\<rparr>"
  by (simp_all add: now_def)

lemma new_uuid_run [running]:
  "result (new_uuid E) w = uuid_new E (n_uuid w)"
  "exec (new_uuid E) w = w\<lparr>n_uuid := Suc (n_uuid w)\<rparr>"
  by (simp_all add: new_uuid_def)

lemma new_rand_run [running]:
  "result (new_rand E) w = rand_int63 E (n_rand w)"
  "exec (new_rand E) w = w\<lparr>n_rand := Suc (n_rand w)\<rparr>"
  by (simp_all add: new_rand_def)

lemma next_fate_run [running]:
  "result (next_fate E) w = pg_fate (pg E) (n_pg w)"
  "exec (next_fate E) w = w\<lparr>n_pg := Suc (n_pg w)\<rparr>"
  by (simp_all add: next_fate_def)

lemma count_run [running]: "exec (count m) w = w\<lparr>mtrace := mtrace w @ [m]\<rparr>"
  by (simp add: count_def)

lemma write_log_run [running]: "exec (write_log e) w = w\<lparr>logs := logs w @ [e]\<rparr>"
  by (simp add: write_log_def)

text \<open>
  Parts of the world, for frame statements: \<open>stores\<close> is what outlives the process, \<open>gates\<close> the
  state that decides whether a later request is admitted.
\<close>

definition stores :: "('r, 'q, 'b, 'l) world \<Rightarrow> (endpoint \<Rightarrow> tables) \<times> 'r \<times> 'q" where
  "stores w = (servers w, redis w, broker w)"

definition gates :: "('r, 'q, 'b, 'l) world \<Rightarrow> 'b \<times> 'b \<times> (string \<Rightarrow> 'l ipLimiter option)" where
  "gates w = (dbCircuitBreaker w, cacheCircuitBreaker w, limiters w)"

lemma effects_frame [framing]:
  "unchanged servers (now E)" "unchanged servers (new_uuid E)" "unchanged servers (new_rand E)"
  "unchanged servers (next_fate E)" "unchanged servers (count m)" "unchanged servers (write_log e)"
  "unchanged stores (now E)" "unchanged stores (new_uuid E)" "unchanged stores (new_rand E)"
  "unchanged stores (next_fate E)" "unchanged stores (count m)" "unchanged stores (write_log e)"
  "unchanged redis (now E)" "unchanged redis (new_uuid E)" "unchanged redis (next_fate E)"
  "unchanged redis (count m)"
  "unchanged broker (now E)" "unchanged broker (new_uuid E)" "unchanged broker (next_fate E)"
  "unchanged broker (count m)"
  "unchanged mtrace (now E)" "unchanged mtrace (new_uuid E)" "unchanged mtrace (next_fate E)"
  by (auto intro!: unchangedI simp: running stores_def)

end
