(* ===== verification/Config.thy ===== *)
theory Config
  imports World
begin

text \<open>
  Everything the program reads from its environment.  The four packages db, cache, middleware
  and queue each have their own copy of \<open>getEnv\<close>; the numeric settings go through
  \<open>strconv.Atoi\<close> with the error discarded.  This theory models the copies, the settings built
  from them, and the start-up of the two database pools and of the Redis client.
\<close>

type_synonym osenv = "string \<Rightarrow> string"

section \<open>getEnv\<close>

definition cache_getEnv :: "osenv \<Rightarrow> string \<Rightarrow> string \<Rightarrow> string" where
  "cache_getEnv os key def = (let v = os key in if v \<noteq> [] then TrimSpace v else def)"

definition middleware_getEnv :: "osenv \<Rightarrow> string \<Rightarrow> string \<Rightarrow> string" where
  "middleware_getEnv os key def = (let v = os key in if v \<noteq> [] then TrimSpace v else def)"

definition queue_getEnv :: "osenv \<Rightarrow> string \<Rightarrow> string \<Rightarrow> string" where
  "queue_getEnv os key def = (let v = os key in if v \<noteq> [] then TrimSpace v else def)"

definition db_getEnv :: "osenv \<Rightarrow> string \<Rightarrow> string \<Rightarrow> string" where
  "db_getEnv os key def = (let v = os key in if v \<noteq> [] then TrimSpace v else def)"

lemma getEnv_copies:
  "middleware_getEnv = cache_getEnv" "queue_getEnv = cache_getEnv" "db_getEnv = cache_getEnv"
  by (simp_all add: fun_eq_iff cache_getEnv_def middleware_getEnv_def queue_getEnv_def db_getEnv_def)

lemma getEnv_unset: "os key = [] \<Longrightarrow> cache_getEnv os key def = def"
  by (simp add: cache_getEnv_def)

lemma getEnv_set: "os key \<noteq> [] \<Longrightarrow> cache_getEnv os key def = TrimSpace (os key)"
  by (simp add: cache_getEnv_def)

section \<open>Cache\<close>

definition second :: goint where
  "second = 1000000000"

definition minute :: goint where
  "minute = 60 * second"

definition hour :: goint where
  "hour = 60 * minute"

definition DefaultTTL :: "osenv \<Rightarrow> goint" where
  "DefaultTTL os = atoi_word (cache_getEnv os ''CACHE_TTL_SECONDS'' ''30'') * second"

record redis_options =
  opt_Addr :: string
  opt_Password :: string
  opt_DB :: nat
  opt_PoolSize :: nat
  opt_MinIdleConns :: nat
  opt_DialTimeout :: goint
  opt_ReadTimeout :: goint
  opt_WriteTimeout :: goint

definition redis_Options :: "osenv \<Rightarrow> redis_options" where
  "redis_Options os =
     \<lparr>opt_Addr = TrimSpace (os ''REDIS_HOST'') @ '':'' @ TrimSpace (os ''REDIS_PORT''),
      opt_Password = TrimSpace (os ''REDIS_PASSWORD''),
      opt_DB = 0, opt_PoolSize = 20, opt_MinIdleConns = 5,
      opt_DialTimeout = 5 * second, opt_ReadTimeout = 3 * second, opt_WriteTimeout = 3 * second\<rparr>"

text \<open>\<open>log.Fatalf\<close> ends the process: a value of this type is the reason.\<close>

datatype fatal =
    CacheUnreachable string
  | DbOpenFailed string string string
  | DbPingFailed string string string
  | QueueUnreachable string
  | QueueChannelFailed string
  | QueueDeclareFailed string
  | ConsumeFailed string
  | ServerFailed string

definition cache_Init :: "osenv \<Rightarrow> (redis_options \<Rightarrow> string option) \<Rightarrow> fatal + redis_options" where
  "cache_Init os ping =
     (let client = redis_Options os
      in case ping client of Some err \<Rightarrow> Inl (CacheUnreachable err) | None \<Rightarrow> Inr client)"

section \<open>Circuit breakers\<close>

definition failure_threshold :: "osenv \<Rightarrow> goint" where
  "failure_threshold os = atoi_word (middleware_getEnv os ''CB_FAILURE_THRESHOLD'' ''5'')"

text \<open>\<open>int(counts.ConsecutiveFailures) >= failureThreshold\<close>, a signed comparison.\<close>

definition ready_to_trip :: "osenv \<Rightarrow> Counts \<Rightarrow> bool" where
  "ready_to_trip os c \<longleftrightarrow> sint (failure_threshold os) \<le> sint (ucast (ConsecutiveFailures c) :: goint)"

definition breaker_settings :: "osenv \<Rightarrow> string \<Rightarrow> Settings" where
  "breaker_settings os name =
     \<lparr>set_Name = name,
      set_MaxRequests = ucast (atoi_word (middleware_getEnv os ''CB_MAX_REQUESTS'' ''5'')),
      set_Interval = atoi_word (middleware_getEnv os ''CB_INTERVAL_SECONDS'' ''60'') * second,
      set_Timeout = atoi_word (middleware_getEnv os ''CB_TIMEOUT_SECONDS'' ''30'') * second,
      set_ReadyToTrip = ready_to_trip os\<rparr>"

section \<open>Rate limiter, queue and database\<close>

definition rate_limit_rps :: "osenv \<Rightarrow> goint" where
  "rate_limit_rps os = atoi_word (middleware_getEnv os ''RATE_LIMIT_RPS'' ''500'')"

definition rate_limit_burst :: "osenv \<Rightarrow> goint" where
  "rate_limit_burst os = atoi_word (middleware_getEnv os ''RATE_LIMIT_BURST'' ''100'')"

definition queue_name :: "osenv \<Rightarrow> string" where
  "queue_name os = queue_getEnv os ''RABBITMQ_QUEUE_TRANSACTION'' ''transactions_queue''"

record pool =
  pool_dsn :: string
  pool_MaxOpenConns :: goint
  pool_MaxIdleConns :: goint
  pool_ConnMaxLifetime :: goint
  pool_ConnMaxIdleTime :: goint

definition dsn :: "osenv \<Rightarrow> string \<Rightarrow> string \<Rightarrow> string" where
  "dsn os host port =
     ''host='' @ host @ '' port='' @ port @
     '' user='' @ TrimSpace (os ''DB_USER'') @
     '' password='' @ TrimSpace (os ''DB_PASSWORD'') @
     '' dbname='' @ TrimSpace (os ''DB_NAME'') @ '' sslmode=disable''"

definition connect ::
  "osenv \<Rightarrow> (string \<Rightarrow> string option) \<Rightarrow> (pool \<Rightarrow> string option) \<Rightarrow> string \<Rightarrow> string \<Rightarrow> fatal + pool" where
  "connect os sql_open ping host port =
     (case sql_open (dsn os host port) of
        Some err \<Rightarrow> Inl (DbOpenFailed host port err)
      | None \<Rightarrow>
          let database =
            \<lparr>pool_dsn = dsn os host port,
             pool_MaxOpenConns = atoi_word (db_getEnv os ''DB_MAX_OPEN_CONNS'' ''25''),
             pool_MaxIdleConns = atoi_word (db_getEnv os ''DB_MAX_IDLE_CONNS'' ''10''),
             pool_ConnMaxLifetime = 5 * minute,
             pool_ConnMaxIdleTime = 2 * minute\<rparr>
          in case ping database of
               Some err \<Rightarrow> Inl (DbPingFailed host port err)
             | None \<Rightarrow> Inr database)"

definition write_endpoint :: "osenv \<Rightarrow> endpoint" where
  "write_endpoint os = (TrimSpace (os ''DB_WRITE_HOST''), TrimSpace (os ''DB_WRITE_PORT''))"

definition read_endpoint :: "osenv \<Rightarrow> endpoint" where
  "read_endpoint os = (TrimSpace (os ''DB_READ_HOST''), TrimSpace (os ''DB_READ_PORT''))"

text \<open>
  \<open>db.Init\<close>: two pools, the write one first.  The handles are identified with the servers they
  connect to, so that equal settings give two pools of one server.  The first part of the result
  lists the pools connected, in order.
\<close>

definition db_Init ::
  "osenv \<Rightarrow> (string \<Rightarrow> string option) \<Rightarrow> (pool \<Rightarrow> string option) \<Rightarrow> endpoint list \<times> (fatal + Database)" where
  "db_Init os sql_open ping =
     (let we = write_endpoint os; re = read_endpoint os
      in case connect os sql_open ping (fst we) (snd we) of
           Inl f \<Rightarrow> ([], Inl f)
         | Inr writeDB \<Rightarrow>
             (case connect os sql_open ping (fst re) (snd re) of
                Inl f \<Rightarrow> ([we], Inl f)
              | Inr readDB \<Rightarrow> ([we, re], Inr \<lparr>Write = we, Read = re\<rparr>)))"

section \<open>Facts about the settings\<close>

lemma numeral_seconds: "second = 1000000000" "minute = 60000000000" "hour = 3600000000000"
  by (simp_all add: second_def minute_def hour_def)

lemma Atoi_number: "Atoi ''30'' = (30, None)" "Atoi ''5'' = (5, None)" "Atoi ''500'' = (500, None)"
  "Atoi ''100'' = (100, None)"
  by (simp_all add: Atoi_def sign_split_def digit_value_def)

lemma sint_product_wraps: "sint (a * b :: goint) = signed_take_bit 63 (sint a * sint b)"
proof -
  have "a * b = word_of_int (sint a * sint b)"
    by (metis of_int_mult scast_eq scast_id)
  then show ?thesis
    by (simp only: sint_sbintrunc') simp
qed

lemma sint_product_fits:
  fixes a b :: goint
  assumes "- (2 ^ 63) \<le> sint a * sint b" and "sint a * sint b < 2 ^ 63"
  shows "sint (a * b) = sint a * sint b"
  using assms by (simp add: sint_product_wraps signed_take_bit_int_eq_self)

lemma sint_second [simp]: "sint second = 1000000000"
  by (simp add: second_def)

lemma sint_ucast_counts: "sint (ucast (c :: 32 word) :: goint) = uint c"
proof -
  have lo: "- (2 ^ 63) \<le> uint c" by (rule order_trans [of _ 0]) simp_all
  have hi: "uint c < 2 ^ 63" using uint_bounded[of c] by simp
  have "uint (ucast c :: goint) = uint c" by (simp add: uint_up_ucast is_up)
  then show ?thesis
    using signed_take_bit_int_eq_self[OF lo hi] by (simp add: sint_uint)
qed

lemma sint_failure_threshold:
  "sint (failure_threshold os) = fst (Atoi (cache_getEnv os ''CB_FAILURE_THRESHOLD'' ''5''))"
  by (simp add: failure_threshold_def getEnv_copies sint_atoi_word)

lemma ready_to_trip_iff:
  "ready_to_trip os c \<longleftrightarrow>
     fst (Atoi (cache_getEnv os ''CB_FAILURE_THRESHOLD'' ''5'')) \<le> uint (ConsecutiveFailures c)"
  by (simp add: ready_to_trip_def sint_failure_threshold sint_ucast_counts)

section \<open>Properties\<close>

text \<open>
  C38: A cache lifetime written as a number of seconds is that many seconds up to 9223372036; the
  multiplication by \<open>time.Second\<close> is in 64 bits, so that one second more already gives a negative
  duration.
\<close>

theorem cache_ttl_seconds:
  assumes "TrimSpace (os ''CACHE_TTL_SECONDS'') = dec_int n" and "os ''CACHE_TTL_SECONDS'' \<noteq> []"
  shows "(\<bar>n\<bar> \<le> 9223372036 \<longrightarrow> sint (DefaultTTL os) = n * 1000000000) \<and>
    (n = 9223372037 \<longrightarrow> sint (DefaultTTL os) < 0)"
proof (intro conjI impI)
  have s: "sint (atoi_word (cache_getEnv os ''CACHE_TTL_SECONDS'' ''30'')) = n"
    if "\<bar>n\<bar> \<le> 9223372037"
    using that assms by (simp add: getEnv_set sint_atoi_word Atoi_dec_int)
  show "sint (DefaultTTL os) = n * 1000000000" if "\<bar>n\<bar> \<le> 9223372036"
    unfolding DefaultTTL_def using that s by (subst sint_product_fits) simp_all
  show "sint (DefaultTTL os) < 0" if "n = 9223372037"
    unfolding DefaultTTL_def using that s by (simp add: sint_product_wraps signed_take_bit_eq_take_bit_minus)
qed

theorem cache_ttl_seconds_witness:
  "sint (DefaultTTL (\<lambda>_. '' 60'')) = 60000000000"
  using cache_ttl_seconds [of "\<lambda>_. '' 60''" 60] trim_samples(3) by simp

text \<open>
  C39: A setting that is present but not a number silently becomes zero, not its default, because
  the error of \<open>Atoi\<close> is dropped (a blank value is of this kind): cache entries then never
  expire, the breaker trips at the first failure, and the limiter's rate is zero.
\<close>

theorem malformed_settings_become_zero:
  assumes "\<And>k. k \<in> {''CACHE_TTL_SECONDS'', ''CB_FAILURE_THRESHOLD'', ''RATE_LIMIT_RPS''} \<Longrightarrow>
    os k \<noteq> [] \<and> snd (Atoi (TrimSpace (os k))) = Some ErrSyntax"
  shows "DefaultTTL os = 0 \<and> ready_to_trip os c \<and> rate_limit_rps os = 0"
proof -
  have z: "fst (Atoi (TrimSpace (os k))) = 0 \<and> os k \<noteq> []"
    if "k \<in> {''CACHE_TTL_SECONDS'', ''CB_FAILURE_THRESHOLD'', ''RATE_LIMIT_RPS''}" for k
    using assms[OF that] Atoi_syntax_zero by blast
  show ?thesis
    using z[of "''CACHE_TTL_SECONDS''"] z[of "''CB_FAILURE_THRESHOLD''"] z[of "''RATE_LIMIT_RPS''"]
    by (simp add: DefaultTTL_def ready_to_trip_iff rate_limit_rps_def getEnv_copies getEnv_set atoi_word_def)
qed

theorem malformed_settings_become_zero_witness:
  "DefaultTTL (\<lambda>_. '' '') = 0"
  using malformed_settings_become_zero [of "\<lambda>_. '' ''"] trim_samples(2) Atoi_blank by simp

end
