(* ===== verification/Sample.thy ===== *)
theory Sample
  imports Config
begin

text \<open>
  A concrete environment on which the theorems with hypotheses are applied: a Redis that is a
  map with expiry times, a broker that is the list of accepted messages, a breaker that opens
  on its threshold and closes again after its timeout, a bucket of tokens without refill, and a
  driver whose identifiers are decimal numbers (so that one identifier has several spellings, as
  a UUID has) and whose numbers are exact.  The clock advances one second per reading.
\<close>

type_synonym sample_redis = "string \<Rightarrow> (string \<times> time option) option"

definition sample_redis_lib :: "sample_redis redis_lib" where
  "sample_redis_lib =
     \<lparr>rd_get = (\<lambda>k t m. (case m k of
          None \<Rightarrow> RedisNil
        | Some (v, None) \<Rightarrow> RedisBytes v
        | Some (v, Some e) \<Rightarrow> if t < e then RedisBytes v else RedisNil, m)),
      rd_set = (\<lambda>k v ttl t m. (None, m(k \<mapsto> (v, if ttl = 0 then None else Some (t + sint ttl))))),
      rd_del = (\<lambda>k t m. (None, m(k := None))),
      rd_ping = (\<lambda>t m. (None, m))\<rparr>"

type_synonym sample_broker = "(string \<times> publishing) list"

definition sample_amqp_lib :: "sample_broker amqp_lib" where
  "sample_amqp_lib =
     \<lparr>mq_publish = (\<lambda>ex q mandatory immediate p b. (None, b @ [(q, p)])),
      mq_holds = (\<lambda>b body. body \<in> pub_Body ` snd ` set b),
      mq_inspect = (\<lambda>q b. (Inr (length b), b)),
      mq_ack = (\<lambda>tag b. b),
      mq_nack = (\<lambda>tag requeue b. b)\<rparr>"

record sample_breaker =
  sb_settings :: Settings
  sb_failures :: nat
  sb_open_until :: "time option"

definition sb_counts :: "nat \<Rightarrow> Counts" where
  "sb_counts n = \<lparr>Requests = of_nat n, TotalSuccesses = 0, TotalFailures = of_nat n,
     ConsecutiveSuccesses = 0, ConsecutiveFailures = of_nat n\<rparr>"

definition sample_breaker_lib :: "sample_breaker breaker_lib" where
  "sample_breaker_lib =
     \<lparr>cb_new = (\<lambda>s. \<lparr>sb_settings = s, sb_failures = 0, sb_open_until = None\<rparr>),
      cb_name = (\<lambda>b. set_Name (sb_settings b)),
      cb_message = (\<lambda>r. case r of ErrOpenState \<Rightarrow> ''circuit breaker is open''
        | ErrTooManyRequests \<Rightarrow> ''too many requests''),
      cb_state = (\<lambda>t b. case sb_open_until b of
          None \<Rightarrow> (StateClosed, [], b)
        | Some u \<Rightarrow> if t < u then (StateOpen, [], b)
            else (StateClosed, [(StateOpen, StateClosed)], b\<lparr>sb_failures := 0, sb_open_until := None\<rparr>)),
      cb_allow = (\<lambda>t b. case sb_open_until b of
          None \<Rightarrow> (Inr 0, [], b)
        | Some u \<Rightarrow> if t < u then (Inl ErrOpenState, [], b)
            else (Inr 0, [(StateOpen, StateClosed)], b\<lparr>sb_failures := 0, sb_open_until := None\<rparr>)),
      cb_done = (\<lambda>t g ok b.
        if ok then ([], b\<lparr>sb_failures := 0\<rparr>)
        else if sb_open_until b = None \<and> set_ReadyToTrip (sb_settings b) (sb_counts (Suc (sb_failures b)))
          then ([(StateClosed, StateOpen)], b\<lparr>sb_failures := Suc (sb_failures b),
                 sb_open_until := Some (t + sint (set_Timeout (sb_settings b)))\<rparr>)
          else ([], b\<lparr>sb_failures := Suc (sb_failures b)\<rparr>))\<rparr>"

definition sample_limiter_lib :: "int limiter_lib" where
  "sample_limiter_lib =
     \<lparr>lim_new = (\<lambda>rps burst. sint burst),
      lim_allow = (\<lambda>t n. if 0 < n then (True, n - 1) else (False, n))\<rparr>"

definition sample_uuid_in :: "string \<Rightarrow> uuid option" where
  "sample_uuid_in s = (case Atoi s of (n, None) \<Rightarrow> if n < 0 then None else Some (nat n) | _ \<Rightarrow> None)"

definition sample_pg :: "(nat \<Rightarrow> round_trip) \<Rightarrow> pg_lib" where
  "sample_pg fate =
     \<lparr>uuid_in = sample_uuid_in, uuid_out = dec_nat, pq_float = (\<lambda>x. x),
      scan_float = (\<lambda>c. of_int c / 100), pg_fate = fate, pg_message = (\<lambda>_. ''pq'')\<rparr>"

definition sample_request :: CreateTransactionRequest where
  "sample_request = \<lparr>req_UserID = ''7'', req_Type = ''debit'', req_Amount = 25 / 10,
     req_Description = ''rent'', req_Idempotency = ''k''\<rparr>"

definition sample_msg :: TransactionMessage where
  "sample_msg = \<lparr>msg_TransactionID = ''1'', msg_UserID = ''7'', msg_Type = ''debit'', msg_Amount = 25 / 10,
     msg_Description = ''rent'', msg_TraceID = ''t'', msg_CreatedAt = 0\<rparr>"

definition sample_txn :: TransactionResponse where
  "sample_txn = \<lparr>txn_ID = ''1'', txn_UserID = ''7'', txn_Type = ''debit'', txn_Amount = 25 / 10,
     txn_Status = ''pending'', txn_ReferenceID = ''REF-1'', txn_Description = ''rent'',
     txn_CreatedAt = 0, txn_UpdatedAt = 0\<rparr>"

definition sample_balance :: UserBalanceResponse where
  "sample_balance = \<lparr>ub_UserID = ''7'', ub_Username = ''ana'', ub_Balance = 10, ub_Status = ''active'',
     ub_FetchedAt = 0\<rparr>"

text \<open>
  The messages the sample can encode are debits of 2.50 for user 7; the body is the letter M,
  followed by the id of the transaction unless that is 1.
\<close>

definition sample_enc :: "TransactionMessage \<Rightarrow> string + string" where
  "sample_enc m =
     (if msg_UserID m = ''7'' \<and> msg_Type m = ''debit'' \<and> msg_Amount m = 5 / 2 \<and> msg_TransactionID m \<noteq> []
      then Inr (if msg_TransactionID m = ''1'' then ''M'' else ''M'' @ msg_TransactionID m) else Inl ''bad value'')"

definition sample_dec :: "string \<Rightarrow> string + TransactionMessage" where
  "sample_dec s =
     (if s = ''M'' then Inr sample_msg
      else if take 1 s = ''M'' then Inr (sample_msg\<lparr>msg_TransactionID := drop 1 s\<rparr>) else Inl ''bad json'')"

lemma sample_enc_run [simp]:
  "msg_UserID m = ''7'' \<Longrightarrow> msg_Type m = ''debit'' \<Longrightarrow> msg_Amount m = 5 / 2 \<Longrightarrow>
     msg_TransactionID m \<noteq> [] \<Longrightarrow> msg_TransactionID m \<noteq> ''1'' \<Longrightarrow>
     sample_enc m = Inr (CHR ''M'' # msg_TransactionID m)"
  by (simp add: sample_enc_def)

definition sample_codec :: json_lib where
  "sample_codec =
     \<lparr>enc_id = Inr, dec_id = Inr,
      enc_txn = (\<lambda>_. Inr ''T''), dec_txn = (\<lambda>s. if s = ''T'' then Inr sample_txn else Inl ''bad json''),
      enc_balance = (\<lambda>_. Inr ''B''), dec_balance = (\<lambda>s. if s = ''B'' then Inr sample_balance else Inl ''bad json''),
      enc_msg = sample_enc, dec_msg = sample_dec,
      dec_request = (\<lambda>s. if s = ''R'' then Inr sample_request else Inl ''bad json''),
      invalid_message = (\<lambda>_. ''invalid'')\<rparr>"

type_synonym sample_env = "(sample_redis, sample_broker, sample_breaker, int) env"
type_synonym sample_world = "(sample_redis, sample_broker, sample_breaker, int) world"

definition sample_os :: osenv where
  "sample_os = (\<lambda>_. [])"

definition sample_env_with :: "(nat \<Rightarrow> round_trip) \<Rightarrow> sample_env" where
  "sample_env_with fate =
     \<lparr>getenv = sample_os, clock = (\<lambda>n. int n * 1000000000), uuid_new = (\<lambda>n. dec_nat (n + 2)),
      rand_int63 = (\<lambda>n. n), local_date = (\<lambda>t. ''20260101''),
      DB = \<lparr>Write = (''postgres'', ''5432''), Read = (''postgres'', ''5432'')\<rparr>,
      pg = sample_pg fate, rds = sample_redis_lib, mq = sample_amqp_lib,
      cb = sample_breaker_lib, lim = sample_limiter_lib, codec = sample_codec\<rparr>"

abbreviation sample_env :: sample_env where
  "sample_env \<equiv> sample_env_with (\<lambda>_. Answered)"

text \<open>One active user with 10.00, and one pending transaction of 2.50.\<close>

definition sample_user :: user_row where
  "sample_user = \<lparr>username = ''ana'', email = ''a@b'', balance = 1000, user_status = ''active'',
     user_created = 0, user_updated = 0\<rparr>"

definition sample_row :: txn_row where
  "sample_row = \<lparr>row_id = 1, row_user = 7, row_type = ''debit'', row_amount = 250, row_status = Pending,
     row_reference = Some ''REF-1'', row_description = Some ''rent'', row_created = 0, row_updated = 0\<rparr>"

definition sample_tables :: tables where
  "sample_tables = \<lparr>users = [7 \<mapsto> sample_user], transactions = [sample_row]\<rparr>"

definition sample_breaker_closed :: sample_breaker where
  "sample_breaker_closed = cb_new sample_breaker_lib (breaker_settings sample_os ''database'')"

definition sample_world :: sample_world where
  "sample_world =
     \<lparr>servers = (\<lambda>_. sample_tables), redis = (\<lambda>_. None), broker = [],
      dbCircuitBreaker = sample_breaker_closed, cacheCircuitBreaker = sample_breaker_closed,
      limiters = (\<lambda>_. None), mtrace = [], logs = [], ticks = 0, n_uuid = 0, n_rand = 0, n_pg = 0\<rparr>"

definition sample_ctx :: gin_ctx where
  "sample_ctx = \<lparr>trace_id = ''t'', header_trace = [], param_id = ''1'', raw_body = ''R'',
     client_ip = ''10.0.0.1'', req_method = ''POST'', url_path = ''/transactions'',
     full_path = ''/transactions'', user_agent = ''k6'', errors = [], deadline = None, start_time = 0\<rparr>"

lemma sample_ctx_sel [simp]:
  "trace_id sample_ctx = ''t''" "param_id sample_ctx = ''1''" "raw_body sample_ctx = ''R''"
  "client_ip sample_ctx = ''10.0.0.1''"
  by (simp_all add: sample_ctx_def)

lemma sample_breaker_run [simp]:
  "sb_open_until sample_breaker_closed = None" "sb_failures sample_breaker_closed = 0"
  "sb_open_until b = None \<Longrightarrow> cb_allow sample_breaker_lib t b = (Inr 0, [], b)"
  "sb_open_until b = None \<Longrightarrow> cb_state sample_breaker_lib t b = (StateClosed, [], b)"
  "cb_done sample_breaker_lib t g True b = ([], b\<lparr>sb_failures := 0\<rparr>)"
  by (simp_all add: sample_breaker_lib_def sample_breaker_closed_def)

lemma sample_redis_run [simp]:
  "rd_get sample_redis_lib k t m = (case m k of
     None \<Rightarrow> RedisNil
   | Some (v, None) \<Rightarrow> RedisBytes v
   | Some (v, Some e) \<Rightarrow> if t < e then RedisBytes v else RedisNil, m)"
  "rd_set sample_redis_lib k v ttl t m = (None, m(k \<mapsto> (v, if ttl = 0 then None else Some (t + sint ttl))))"
  "rd_del sample_redis_lib k t m = (None, m(k := None))"
  by (simp_all add: sample_redis_lib_def)

lemma sample_broker_run [simp]:
  "mq_publish sample_amqp_lib ex q mand imm p b = (None, b @ [(q, p)])"
  "mq_holds sample_amqp_lib b s \<longleftrightarrow> s \<in> pub_Body ` snd ` set b"
  "mq_inspect sample_amqp_lib q b = (Inr (length b), b)"
  "mq_ack sample_amqp_lib tag b = b" "mq_nack sample_amqp_lib tag requeue b = b"
  by (simp_all add: sample_amqp_lib_def)

lemmas sample_rows = sample_tables_def sample_user_def sample_row_def sample_msg_def sample_request_def

lemma sample_env_sel [simp]:
  "getenv (sample_env_with f) = sample_os" "clock (sample_env_with f) n = int n * 1000000000"
  "uuid_new (sample_env_with f) n = dec_nat (n + 2)" "local_date (sample_env_with f) t = ''20260101''"
  "DB (sample_env_with f) = \<lparr>Write = (''postgres'', ''5432''), Read = (''postgres'', ''5432'')\<rparr>"
  "pg (sample_env_with f) = sample_pg f" "rds (sample_env_with f) = sample_redis_lib"
  "mq (sample_env_with f) = sample_amqp_lib" "cb (sample_env_with f) = sample_breaker_lib"
  "lim (sample_env_with f) = sample_limiter_lib" "codec (sample_env_with f) = sample_codec"
  by (simp_all add: sample_env_with_def)

lemma sample_pg_sel [simp]:
  "uuid_in (sample_pg f) = sample_uuid_in" "uuid_out (sample_pg f) = dec_nat"
  "pq_float (sample_pg f) x = x" "scan_float (sample_pg f) c = of_int c / 100"
  "pg_fate (sample_pg f) n = f n" "pg_message (sample_pg f) e = ''pq''"
  by (simp_all add: sample_pg_def)

lemma sample_codec_sel [simp]:
  "enc_id sample_codec = Inr" "dec_id sample_codec = Inr"
  "enc_txn sample_codec x = Inr ''T''" "dec_txn sample_codec ''T'' = Inr sample_txn"
  "enc_balance sample_codec y = Inr ''B''" "dec_balance sample_codec ''B'' = Inr sample_balance"
  "enc_msg sample_codec m = sample_enc m" "dec_msg sample_codec ''M'' = Inr sample_msg"
  "dec_msg sample_codec s = sample_dec s"
  "dec_request sample_codec ''R'' = Inr sample_request" "dec_request sample_codec ''junk'' = Inl ''bad json''"
  by (simp_all add: sample_codec_def sample_dec_def)

lemma sample_dec_run [simp]: "sample_dec ''M'' = Inr sample_msg" "sample_dec ''junk'' = Inl ''bad json''"
  "s \<noteq> [] \<Longrightarrow> sample_dec (CHR ''M'' # s) = Inr (sample_msg\<lparr>msg_TransactionID := s\<rparr>)"
  by (simp_all add: sample_dec_def)

lemma sample_world_sel [simp]:
  "servers sample_world = (\<lambda>_. sample_tables)" "redis sample_world = (\<lambda>_. None)"
  "broker sample_world = []" "dbCircuitBreaker sample_world = sample_breaker_closed"
  "limiters sample_world = (\<lambda>_. None)" "mtrace sample_world = []"
  "ticks sample_world = 0" "n_uuid sample_world = 0" "n_pg sample_world = 0"
  by (simp_all add: sample_world_def)

lemma sample_uuid [simp]: "sample_uuid_in ''7'' = Some 7" "sample_uuid_in ''1'' = Some 1"
  "sample_uuid_in ''07'' = Some 7" "sample_uuid_in ''2'' = Some 2" "sample_uuid_in ''3'' = Some 3" "sample_uuid_in ''x'' = None"
  by (simp_all add: sample_uuid_in_def Atoi_def sign_split_def digit_value_def)

end
