(* ===== verification/Cache.thy ===== *)
theory Cache
  imports Sample
begin

text \<open>
  api/cache/redis.go: the wrapper the handlers use around the Redis client.  Values are stored
  as JSON; a get tells a miss from an error.  The keys of the three kinds of entry are built by
  string formatting, and the handlers rely on different entries having different keys.
\<close>

section \<open>Keys\<close>

definition TransactionKey :: "string \<Rightarrow> string" where
  "TransactionKey tid = ''txn:'' @ tid"

definition UserBalanceKey :: "string \<Rightarrow> string" where
  "UserBalanceKey uid = ''user:balance:'' @ uid"

definition IdempotencyKey :: "string \<Rightarrow> string \<Rightarrow> string" where
  "IdempotencyKey userID key = ''idempotency:'' @ userID @ '':'' @ key"

section \<open>Get, Set, Delete\<close>

datatype cache_error = MarshalError string | GetError string | UnmarshalError string | ClientError string

text \<open>\<open>Set\<close>: the marshalled value with its lifetime; the encoder is that of the value's type.\<close>

definition cache_Set ::
  "('r, 'q, 'b, 'l) env \<Rightarrow> ('v \<Rightarrow> string + string) \<Rightarrow> string \<Rightarrow> 'v \<Rightarrow> goint \<Rightarrow>
     ('r, 'q, 'b, 'l, cache_error option) act" where
  "cache_Set E enc key v ttl =
     (case enc v of
        Inl e \<Rightarrow> ret (Some (MarshalError e))
      | Inr data \<Rightarrow> do {
          t \<leftarrow> now E;
          p \<leftarrow> reads (\<lambda>w. rd_set (rds E) key data ttl t (redis w));
          modify (\<lambda>w. w\<lparr>redis := snd p\<rparr>);
          ret (map_option ClientError (fst p))
        })"

text \<open>
  \<open>Get\<close>: \<open>Inr None\<close> is a miss and \<open>Inr (Some v)\<close> a hit, the value having been decoded into
  \<open>dest\<close>.
\<close>

definition cache_Get ::
  "('r, 'q, 'b, 'l) env \<Rightarrow> (string \<Rightarrow> string + 'v) \<Rightarrow> string \<Rightarrow>
     ('r, 'q, 'b, 'l, cache_error + 'v option) act" where
  "cache_Get E dec key = do {
     t \<leftarrow> now E;
     p \<leftarrow> reads (\<lambda>w. rd_get (rds E) key t (redis w));
     modify (\<lambda>w. w\<lparr>redis := snd p\<rparr>);
     ret (case fst p of
            RedisNil \<Rightarrow> Inr None
          | RedisError e \<Rightarrow> Inl (GetError e)
          | RedisBytes data \<Rightarrow>
              (case dec data of Inl e \<Rightarrow> Inl (UnmarshalError e) | Inr v \<Rightarrow> Inr (Some v)))
   }"

definition cache_Delete ::
  "('r, 'q, 'b, 'l) env \<Rightarrow> string \<Rightarrow> ('r, 'q, 'b, 'l, cache_error option) act" where
  "cache_Delete E key = do {
     t \<leftarrow> now E;
     p \<leftarrow> reads (\<lambda>w. rd_del (rds E) key t (redis w));
     modify (\<lambda>w. w\<lparr>redis := snd p\<rparr>);
     ret (map_option ClientError (fst p))
   }"

section \<open>Running the cache operations\<close>

lemma cache_Set_run [running]:
  "result (cache_Set E enc key v ttl) w =
     (case enc v of
        Inl e \<Rightarrow> Some (MarshalError e)
      | Inr data \<Rightarrow>
          map_option ClientError (fst (rd_set (rds E) key data ttl (clock E (ticks w)) (redis w))))"
  "exec (cache_Set E enc key v ttl) w =
     (case enc v of
        Inl e \<Rightarrow> w
      | Inr data \<Rightarrow>
          w\<lparr>ticks := Suc (ticks w),
            redis := snd (rd_set (rds E) key data ttl (clock E (ticks w)) (redis w))\<rparr>)"
  by (simp_all add: cache_Set_def running split: sum.split)

lemma cache_Get_run [running]:
  "result (cache_Get E dec key) w =
     (case fst (rd_get (rds E) key (clock E (ticks w)) (redis w)) of
        RedisNil \<Rightarrow> Inr None
      | RedisError e \<Rightarrow> Inl (GetError e)
      | RedisBytes data \<Rightarrow>
          (case dec data of Inl e \<Rightarrow> Inl (UnmarshalError e) | Inr v \<Rightarrow> Inr (Some v)))"
  "exec (cache_Get E dec key) w =
     w\<lparr>ticks := Suc (ticks w), redis := snd (rd_get (rds E) key (clock E (ticks w)) (redis w))\<rparr>"
  by (simp_all add: cache_Get_def running)

lemma cache_Delete_run [running]:
  "result (cache_Delete E key) w =
     map_option ClientError (fst (rd_del (rds E) key (clock E (ticks w)) (redis w)))"
  "exec (cache_Delete E key) w =
     w\<lparr>ticks := Suc (ticks w), redis := snd (rd_del (rds E) key (clock E (ticks w)) (redis w))\<rparr>"
  by (simp_all add: cache_Delete_def running)

lemma cache_frame [framing]:
  "unchanged servers (cache_Set E enc key v ttl)" "unchanged servers (cache_Get E dec key)"
  "unchanged servers (cache_Delete E key)"
  "unchanged broker (cache_Set E enc key v ttl)" "unchanged broker (cache_Get E dec key)"
  "unchanged broker (cache_Delete E key)"
  "unchanged gates (cache_Set E enc key v ttl)" "unchanged gates (cache_Get E dec key)"
  "unchanged gates (cache_Delete E key)"
  by (auto intro!: unchangedI simp: running gates_def split: sum.split)

section \<open>What is relied on from Redis\<close>

text \<open>
  Documented behaviour of SET with an expiry and of DEL: a value that was accepted is returned
  until it expires (an eviction under memory pressure breaks this), and a key that was deleted
  is absent.
\<close>

definition redis_remembers :: "'r redis_lib \<Rightarrow> bool" where
  "redis_remembers R \<longleftrightarrow>
     (\<forall>k v ttl t t' r. fst (rd_set R k v ttl t r) = None \<and> t \<le> t' \<and> t' < t + sint ttl \<longrightarrow>
        fst (rd_get R k t' (snd (rd_set R k v ttl t r))) = RedisBytes v)"

definition redis_forgets :: "'r redis_lib \<Rightarrow> bool" where
  "redis_forgets R \<longleftrightarrow>
     (\<forall>k t t' r. fst (rd_del R k t r) = None \<longrightarrow> fst (rd_get R k t' (snd (rd_del R k t r))) = RedisNil)"

section \<open>Keys keep entries apart\<close>

text \<open>
  What the handlers rely on: a key function that is injective on the identifiers it is used for.
  A write under one key then leaves every other entry of the kind as it was.  The locale states
  it over an abstract store of entries.
\<close>

locale keyspace =
  fixes key :: "'i \<Rightarrow> string" and valid :: "'i \<Rightarrow> bool"
  assumes key_inj: "valid i \<Longrightarrow> valid j \<Longrightarrow> key i = key j \<Longrightarrow> i = j"
begin

lemma key_neq: "valid i \<Longrightarrow> valid j \<Longrightarrow> i \<noteq> j \<Longrightarrow> key i \<noteq> key j"
  using key_inj by blast

lemma store_other: "valid i \<Longrightarrow> valid j \<Longrightarrow> i \<noteq> j \<Longrightarrow> (m(key i := x)) (key j) = m (key j)"
  using key_neq[of j i] by simp

lemma inj_on_valid: "inj_on key {i. valid i}"
  by (auto intro: inj_onI key_inj)

end

locale two_keyspaces = one: keyspace key1 valid1 + two: keyspace key2 valid2
  for key1 :: "'i \<Rightarrow> string" and valid1 and key2 :: "'j \<Rightarrow> string" and valid2 +
  assumes disjoint: "valid1 i \<Longrightarrow> valid2 j \<Longrightarrow> key1 i \<noteq> key2 j"
begin

lemma store_across: "valid1 i \<Longrightarrow> valid2 j \<Longrightarrow> (m(key1 i := x)) (key2 j) = m (key2 j)"
  using disjoint[of i j] by simp

lemma ranges_disjoint: "key1 ` {i. valid1 i} \<inter> key2 ` {j. valid2 j} = {}"
  using disjoint by blast

end

text \<open>A user id is usable in an idempotency key when it has no colon, as every UUID.\<close>

definition colon_free :: "string \<Rightarrow> bool" where
  "colon_free s \<longleftrightarrow> CHR '':'' \<notin> set s"

lemma IdempotencyKey_inject:
  assumes "colon_free u" and "colon_free v"
  shows "IdempotencyKey u k = IdempotencyKey v l \<longleftrightarrow> u = v \<and> k = l"
  using append_sep_inject[of "CHR '':''" u v k l] assms
  by (auto simp: IdempotencyKey_def colon_free_def)

lemma IdempotencyKey_nonempty [simp]: "IdempotencyKey u k \<noteq> []"
  by (simp add: IdempotencyKey_def)

interpretation txn_keys: keyspace TransactionKey "\<lambda>_. True"
  by unfold_locales (simp add: TransactionKey_def)

interpretation balance_keys: keyspace UserBalanceKey "\<lambda>_. True"
  by unfold_locales (simp add: UserBalanceKey_def)

interpretation idempotency_keys: keyspace "\<lambda>(u, k). IdempotencyKey u k" "\<lambda>(u, k). colon_free u"
  by unfold_locales (auto simp: IdempotencyKey_inject)

interpretation txn_balance: two_keyspaces TransactionKey "\<lambda>_. True" UserBalanceKey "\<lambda>_. True"
  by unfold_locales (simp add: TransactionKey_def UserBalanceKey_def)

interpretation txn_idempotency: two_keyspaces TransactionKey "\<lambda>_. True"
  "\<lambda>(u, k). IdempotencyKey u k" "\<lambda>(u, k). colon_free u"
  by unfold_locales (auto simp: TransactionKey_def IdempotencyKey_def)

interpretation balance_idempotency: two_keyspaces UserBalanceKey "\<lambda>_. True"
  "\<lambda>(u, k). IdempotencyKey u k" "\<lambda>(u, k). colon_free u"
  by unfold_locales (auto simp: UserBalanceKey_def IdempotencyKey_def)

end
