(* ===== verification/Gates.thy ===== *)
theory Gates
  imports Sample
begin

text \<open>
  The contract of a middleware that may refuse a request.  The rate limiter and the circuit
  breaker middleware have the same shape: some bookkeeping of their own, then either an answer of
  their own, after which the handlers behind them do not run (\<open>c.Abort()\<close>), or \<open>c.Next()\<close>.  The
  locale states this over the middleware; its lemmas say what a refusal leaves alone and carry
  invariants of the stores through the chain.
\<close>

locale gate =
  fixes mw :: "('r, 'q, 'b, 'l) handler \<Rightarrow> ('r, 'q, 'b, 'l) handler"
    and passes :: "gin_ctx \<Rightarrow> ('r, 'q, 'b, 'l) world \<Rightarrow> bool"
    and entry :: "gin_ctx \<Rightarrow> ('r, 'q, 'b, 'l, unit) act"
    and refuse :: "gin_ctx \<Rightarrow> ('r, 'q, 'b, 'l, response) act"
  assumes blocked: "\<not> passes c w \<Longrightarrow>
      result (mw h c) w = result (refuse c) (exec (entry c) w) \<and>
      exec (mw h c) w = exec (refuse c) (exec (entry c) w)"
    and let_through: "passes c w \<Longrightarrow>
      result (mw h c) w = result (h c) (exec (entry c) w) \<and>
      exec (mw h c) w = exec (h c) (exec (entry c) w)"
    and entry_stores: "unchanged stores (entry c)"
    and refuse_stores: "unchanged stores (refuse c)"
begin

lemma refusal_ignores_next:
  "\<not> passes c w \<Longrightarrow> result (mw h c) w = result (mw h' c) w \<and> exec (mw h c) w = exec (mw h' c) w"
  using blocked[of c w h] blocked[of c w h'] by simp

lemma refusal_stores: "\<not> passes c w \<Longrightarrow> stores (exec (mw h c) w) = stores w"
  using blocked[of c w h] unchangedD[OF entry_stores] unchangedD[OF refuse_stores] by simp

lemma entry_servers: "servers (exec (entry c) w) = servers w"
  using unchangedD[OF entry_stores, of c w] by (simp add: stores_def)

text \<open>An invariant of the stores that the handler behind the gate keeps is kept by the whole.\<close>

lemma preserves_stores:
  assumes "\<And>c. preserves (\<lambda>w. P (stores w)) (h c)"
  shows "preserves (\<lambda>w. P (stores w)) (mw h c)"
proof (rule preservesI)
  fix w :: "('r, 'q, 'b, 'l) world"
  assume w: "P (stores w)"
  have "P (stores (exec (entry c) w))"
    using w unchangedD[OF entry_stores, of c w] by simp
  then have "passes c w \<Longrightarrow> P (stores (exec (mw h c) w))"
    using let_through[of c w h] preservesD[OF assms, of "exec (entry c) w" c] by simp
  then show "P (stores (exec (mw h c) w))"
    using w refusal_stores[of c w h] by (cases "passes c w") simp_all
qed

end

text \<open>Gates compose: a chain of two refuses when the first one does, or the second one after it.\<close>

locale two_gates = outer: gate mw1 passes1 entry1 refuse1 + inner: gate mw2 passes2 entry2 refuse2
  for mw1 :: "('r, 'q, 'b, 'l) handler \<Rightarrow> ('r, 'q, 'b, 'l) handler" and passes1 entry1 refuse1
    and mw2 :: "('r, 'q, 'b, 'l) handler \<Rightarrow> ('r, 'q, 'b, 'l) handler" and passes2 entry2 refuse2
begin

lemma both_pass:
  assumes "passes1 c w" and "passes2 c (exec (entry1 c) w)"
  shows "result (mw1 (mw2 h) c) w = result (h c) (exec (entry2 c) (exec (entry1 c) w))"
  using outer.let_through[OF assms(1), of "mw2 h"] inner.let_through[OF assms(2), of h] by simp

lemma chain_refusal_stores:
  assumes "\<not> passes1 c w \<or> \<not> passes2 c (exec (entry1 c) w)"
  shows "stores (exec (mw1 (mw2 h) c) w) = stores w"
proof (cases "passes1 c w")
  case True
  then show ?thesis
    using assms outer.let_through[OF True, of "mw2 h"] inner.refusal_stores[of c "exec (entry1 c) w" h]
      unchangedD[OF outer.entry_stores, of c w] by simp
next
  case False
  then show ?thesis using outer.refusal_stores by blast
qed

end

end
