(* ===== verification/Breaker.thy ===== *)
theory Breaker
  imports Gates
begin

text \<open>
  api/middleware/circuitbreaker.go: the two breakers, the gauge that follows their state, the
  middleware that refuses requests while the database breaker is open, and \<open>ExecuteWithCB\<close>.
\<close>

section \<open>State changes and the gauge\<close>

primrec gauge_value :: "breaker_state \<Rightarrow> int" where
  "gauge_value StateClosed = 0"
| "gauge_value StateHalfOpen = 1"
| "gauge_value StateOpen = 2"

definition OnStateChange :: "string \<Rightarrow> breaker_state \<Rightarrow> breaker_state \<Rightarrow> ('r, 'q, 'b, 'l, unit) act" where
  "OnStateChange name from_st to_st =
     (case to_st of
        StateClosed \<Rightarrow> count (CircuitBreakerState name 0)
      | StateHalfOpen \<Rightarrow> count (CircuitBreakerState name 1)
      | StateOpen \<Rightarrow> count (CircuitBreakerState name 2))"

primrec on_changes ::
  "string \<Rightarrow> (breaker_state \<times> breaker_state) list \<Rightarrow> ('r, 'q, 'b, 'l, unit) act" where
  "on_changes name [] = ret ()"
| "on_changes name (x # xs) = do { OnStateChange name (fst x) (snd x); on_changes name xs }"

section \<open>Initialisation\<close>

definition InitCircuitBreakers :: "('r, 'q, 'b, 'l) env \<Rightarrow> ('r, 'q, 'b, 'l, unit) act" where
  "InitCircuitBreakers E = do {
     modify (\<lambda>w. w\<lparr>dbCircuitBreaker := cb_new (cb E) (breaker_settings (getenv E) ''database'')\<rparr>);
     modify (\<lambda>w. w\<lparr>cacheCircuitBreaker := cb_new (cb E) (breaker_settings (getenv E) ''cache'')\<rparr>);
     count (CircuitBreakerState ''database'' 0);
     count (CircuitBreakerState ''cache'' 0)
   }"

definition GetDBCircuitBreaker :: "('r, 'q, 'b, 'l) world \<Rightarrow> 'b" where
  "GetDBCircuitBreaker w = dbCircuitBreaker w"

definition GetCacheCircuitBreaker :: "('r, 'q, 'b, 'l) world \<Rightarrow> 'b" where
  "GetCacheCircuitBreaker w = cacheCircuitBreaker w"

section \<open>Calls on the database breaker\<close>

text \<open>
  The program hands only the database breaker to the middleware and to \<open>ExecuteWithCB\<close>, by its
  pointer, so the operations below write back \<open>dbCircuitBreaker\<close>.
\<close>

definition breaker_State :: "('r, 'q, 'b, 'l) env \<Rightarrow> ('r, 'q, 'b, 'l, breaker_state) act" where
  "breaker_State E = do {
     t \<leftarrow> now E;
     cbr \<leftarrow> reads GetDBCircuitBreaker;
     (case cb_state (cb E) t cbr of (st, chs, cbr') \<Rightarrow> do {
        modify (\<lambda>w. w\<lparr>dbCircuitBreaker := cbr'\<rparr>);
        on_changes (cb_name (cb E) cbr) chs;
        ret st
     })
   }"

definition breaker_Allow ::
  "('r, 'q, 'b, 'l) env \<Rightarrow> ('r, 'q, 'b, 'l, breaker_refusal + nat) act" where
  "breaker_Allow E = do {
     t \<leftarrow> now E;
     cbr \<leftarrow> reads GetDBCircuitBreaker;
     (case cb_allow (cb E) t cbr of (a, chs, cbr') \<Rightarrow> do {
        modify (\<lambda>w. w\<lparr>dbCircuitBreaker := cbr'\<rparr>);
        on_changes (cb_name (cb E) cbr) chs;
        ret a
     })
   }"

definition breaker_Done ::
  "('r, 'q, 'b, 'l) env \<Rightarrow> nat \<Rightarrow> bool \<Rightarrow> ('r, 'q, 'b, 'l, unit) act" where
  "breaker_Done E gen success = do {
     t \<leftarrow> now E;
     cbr \<leftarrow> reads GetDBCircuitBreaker;
     (case cb_done (cb E) t gen success cbr of (chs, cbr') \<Rightarrow> do {
        modify (\<lambda>w. w\<lparr>dbCircuitBreaker := cbr'\<rparr>);
        on_changes (cb_name (cb E) cbr) chs
     })
   }"

text \<open>
  \<open>ExecuteWithCB\<close> is one call of the library's \<open>Execute\<close>, which asks for admission, runs the
  function and reports its outcome; the library documents the same protocol as its two-step
  breaker, and the parameters of the model are those two steps, because other goroutines use the
  breaker between them.  The result is a refusal by the breaker or the error of the function; the
  breaker counts a call as successful when the function returned no error.  The functions the
  program passes do not panic, so the path on which \<open>Execute\<close> reports a panic is left out.
\<close>

datatype exec_error = Refused breaker_refusal | Failure sql_error

definition ExecuteWithCB ::
  "('r, 'q, 'b, 'l) env \<Rightarrow> ('r, 'q, 'b, 'l, sql_error + 'a) act \<Rightarrow> ('r, 'q, 'b, 'l, exec_error + 'a) act" where
  "ExecuteWithCB E fn = do {
     a \<leftarrow> breaker_Allow E;
     (case a of
        Inl r \<Rightarrow> ret (Inl (Refused r))
      | Inr gen \<Rightarrow> do {
          x \<leftarrow> fn;
          breaker_Done E gen (case x of Inl _ \<Rightarrow> False | Inr _ \<Rightarrow> True);
          ret (case x of Inl e \<Rightarrow> Inl (Failure e) | Inr v \<Rightarrow> Inr v)
        })
   }"

section \<open>The middleware\<close>

definition breaker_refusal_response :: "string \<Rightarrow> response" where
  "breaker_refusal_response tid = json 503
     [(''error'', JStr ''service temporarily unavailable''),
      (''message'', JStr ''Circuit breaker is open. Service is recovering.''),
      (''trace_id'', JStr tid)]"

text \<open>
  \<open>os.Getenv("ENV") != "test" && cb.State() == StateOpen\<close> short-circuits: in a test environment
  the breaker is not asked.
\<close>

definition CircuitBreakerMiddleware ::
  "('r, 'q, 'b, 'l) env \<Rightarrow> ('r, 'q, 'b, 'l) handler \<Rightarrow> ('r, 'q, 'b, 'l) handler" where
  "CircuitBreakerMiddleware E next c =
     (if getenv E ''ENV'' \<noteq> ''test'' then do {
        st \<leftarrow> breaker_State E;
        if st = StateOpen then do {
          cbr \<leftarrow> reads GetDBCircuitBreaker;
          count (CircuitBreakerState (cb_name (cb E) cbr) 2);
          ret (breaker_refusal_response (trace_id c))
        } else next c
      } else next c)"

section \<open>Running the breaker\<close>

definition gauge_calls :: "string \<Rightarrow> (breaker_state \<times> breaker_state) list \<Rightarrow> metric list" where
  "gauge_calls name chs = map (\<lambda>ch. CircuitBreakerState name (gauge_value (snd ch))) chs"

lemma OnStateChange_run [running]:
  "exec (OnStateChange name a b) w = w\<lparr>mtrace := mtrace w @ [CircuitBreakerState name (gauge_value b)]\<rparr>"
  by (cases b) (simp_all add: OnStateChange_def running)

lemma on_changes_run [running]:
  "exec (on_changes name chs) w = w\<lparr>mtrace := mtrace w @ gauge_calls name chs\<rparr>"
  by (induction chs arbitrary: w) (simp_all add: running gauge_calls_def)

lemma breaker_State_run [running]:
  "result (breaker_State E) w = fst (cb_state (cb E) (clock E (ticks w)) (dbCircuitBreaker w))"
  "exec (breaker_State E) w =
     w\<lparr>ticks := Suc (ticks w),
       dbCircuitBreaker := snd (snd (cb_state (cb E) (clock E (ticks w)) (dbCircuitBreaker w))),
       mtrace := mtrace w @ gauge_calls (cb_name (cb E) (dbCircuitBreaker w))
         (fst (snd (cb_state (cb E) (clock E (ticks w)) (dbCircuitBreaker w))))\<rparr>"
  by (simp_all add: breaker_State_def GetDBCircuitBreaker_def running split: prod.split)

lemma breaker_Allow_run [running]:
  "result (breaker_Allow E) w = fst (cb_allow (cb E) (clock E (ticks w)) (dbCircuitBreaker w))"
  "exec (breaker_Allow E) w =
     w\<lparr>ticks := Suc (ticks w),
       dbCircuitBreaker := snd (snd (cb_allow (cb E) (clock E (ticks w)) (dbCircuitBreaker w))),
       mtrace := mtrace w @ gauge_calls (cb_name (cb E) (dbCircuitBreaker w))
         (fst (snd (cb_allow (cb E) (clock E (ticks w)) (dbCircuitBreaker w))))\<rparr>"
  by (simp_all add: breaker_Allow_def GetDBCircuitBreaker_def running split: prod.split)

lemma breaker_Done_run [running]:
  "exec (breaker_Done E gen ok) w =
     w\<lparr>ticks := Suc (ticks w),
       dbCircuitBreaker := snd (cb_done (cb E) (clock E (ticks w)) gen ok (dbCircuitBreaker w)),
       mtrace := mtrace w @ gauge_calls (cb_name (cb E) (dbCircuitBreaker w))
         (fst (cb_done (cb E) (clock E (ticks w)) gen ok (dbCircuitBreaker w)))\<rparr>"
  by (simp add: breaker_Done_def GetDBCircuitBreaker_def running split: prod.split)

text \<open>
  \<open>ExecuteWithCB\<close>: the world the function runs in, and what it leaves but for the breaker, the
  clock and the gauge.
\<close>

definition admitted :: "('r, 'q, 'b, 'l) env \<Rightarrow> ('r, 'q, 'b, 'l) world \<Rightarrow> bool" where
  "admitted E w \<longleftrightarrow> (\<exists>gen. result (breaker_Allow E) w = Inr gen)"

lemma ExecuteWithCB_result:
  "result (ExecuteWithCB E fn) w =
     (case result (breaker_Allow E) w of
        Inl r \<Rightarrow> Inl (Refused r)
      | Inr gen \<Rightarrow>
          (case result fn (exec (breaker_Allow E) w) of Inl e \<Rightarrow> Inl (Failure e) | Inr v \<Rightarrow> Inr v))"
  by (simp add: ExecuteWithCB_def split: sum.split)

lemma ExecuteWithCB_exec:
  "exec (ExecuteWithCB E fn) w =
     (case result (breaker_Allow E) w of
        Inl r \<Rightarrow> exec (breaker_Allow E) w
      | Inr gen \<Rightarrow>
          exec (breaker_Done E gen (case result fn (exec (breaker_Allow E) w) of Inl _ \<Rightarrow> False | Inr _ \<Rightarrow> True))
            (exec fn (exec (breaker_Allow E) w)))"
  by (simp add: ExecuteWithCB_def split: sum.split)

lemma breaker_frame [framing]:
  "unchanged stores (breaker_State E)" "unchanged stores (breaker_Allow E)" "unchanged stores (breaker_Done E g ok)"
  "unchanged servers (breaker_State E)" "unchanged servers (breaker_Allow E)" "unchanged servers (breaker_Done E g ok)"
  "unchanged limiters (breaker_State E)" "unchanged limiters (breaker_Allow E)" "unchanged limiters (breaker_Done E g ok)"
  "unchanged n_pg (breaker_State E)" "unchanged n_pg (breaker_Allow E)" "unchanged n_pg (breaker_Done E g ok)"
  by (auto intro!: unchangedI simp: running stores_def)

lemma ExecuteWithCB_unchanged:
  assumes "unchanged g fn" and "unchanged g (breaker_Allow E)" and "\<And>gen ok. unchanged g (breaker_Done E gen ok)"
  shows "unchanged g (ExecuteWithCB E fn)"
  unfolding ExecuteWithCB_def by (intro framing assms)

lemma ExecuteWithCB_preserves:
  assumes "preserves I fn" and "preserves I (breaker_Allow E)" and "\<And>gen ok. preserves I (breaker_Done E gen ok)"
  shows "preserves I (ExecuteWithCB E fn)"
  unfolding ExecuteWithCB_def by (intro preserving assms)

section \<open>The middleware as a gate\<close>

definition breaker_passes :: "('r, 'q, 'b, 'l) env \<Rightarrow> gin_ctx \<Rightarrow> ('r, 'q, 'b, 'l) world \<Rightarrow> bool" where
  "breaker_passes E c w \<longleftrightarrow>
     getenv E ''ENV'' = ''test'' \<or>
     fst (cb_state (cb E) (clock E (ticks w)) (dbCircuitBreaker w)) \<noteq> StateOpen"

definition breaker_entry :: "('r, 'q, 'b, 'l) env \<Rightarrow> gin_ctx \<Rightarrow> ('r, 'q, 'b, 'l, unit) act" where
  "breaker_entry E c = (if getenv E ''ENV'' \<noteq> ''test'' then do { breaker_State E; ret () } else ret ())"

definition breaker_refuse :: "('r, 'q, 'b, 'l) env \<Rightarrow> gin_ctx \<Rightarrow> ('r, 'q, 'b, 'l, response) act" where
  "breaker_refuse E c = do {
     cbr \<leftarrow> reads GetDBCircuitBreaker;
     count (CircuitBreakerState (cb_name (cb E) cbr) 2);
     ret (breaker_refusal_response (trace_id c))
   }"

interpretation breaker_gate: gate "CircuitBreakerMiddleware E" "breaker_passes E" "breaker_entry E" "breaker_refuse E"
  for E :: "('r, 'q, 'b, 'l) env"
proof
  fix c :: gin_ctx
  show "unchanged stores (breaker_entry E c)"
    unfolding breaker_entry_def by (intro framing)
  show "unchanged stores (breaker_refuse E c)"
    unfolding breaker_refuse_def by (intro framing)
qed (auto simp: CircuitBreakerMiddleware_def breaker_passes_def breaker_entry_def breaker_refuse_def breaker_State_run(1))

section \<open>The gauge follows the breaker\<close>

text \<open>
  Documented behaviour of the breaker library: \<open>OnStateChange\<close> is called for every change of
  state, in order, from the old to the new state; \<open>State\<close> returns the state it leaves; a new
  breaker is closed and keeps its name.  \<open>st\<close> reads the state out of a breaker.
\<close>

fun chained :: "breaker_state \<Rightarrow> (breaker_state \<times> breaker_state) list \<Rightarrow> breaker_state \<Rightarrow> bool" where
  "chained s [] s' \<longleftrightarrow> s = s'"
| "chained s (x # xs) s' \<longleftrightarrow> fst x = s \<and> chained (snd x) xs s'"

definition reports_changes :: "'b breaker_lib \<Rightarrow> ('b \<Rightarrow> breaker_state) \<Rightarrow> bool" where
  "reports_changes B st \<longleftrightarrow>
     (\<forall>s. st (cb_new B s) = StateClosed \<and> cb_name B (cb_new B s) = set_Name s) \<and>
     (\<forall>t b. chained (st b) (fst (snd (cb_state B t b))) (st (snd (snd (cb_state B t b)))) \<and>
        fst (cb_state B t b) = st (snd (snd (cb_state B t b))) \<and>
        cb_name B (snd (snd (cb_state B t b))) = cb_name B b) \<and>
     (\<forall>t b. chained (st b) (fst (snd (cb_allow B t b))) (st (snd (snd (cb_allow B t b)))) \<and>
        cb_name B (snd (snd (cb_allow B t b))) = cb_name B b) \<and>
     (\<forall>t g ok b. chained (st b) (fst (cb_done B t g ok b)) (st (snd (cb_done B t g ok b))) \<and>
        cb_name B (snd (cb_done B t g ok b)) = cb_name B b)"

text \<open>
  Everything that can happen to the breaker and its gauge while the server runs.  The library calls
  \<open>OnStateChange\<close> under its lock, so each of its operations is one step with the gauge calls it
  makes; the middleware's question and the \<open>Set(2)\<close> of a refusal are two calls, between which other
  goroutines run.  A state is the world, the number of requests that have seen the breaker open and
  have not set the gauge yet, and whether the gauge was last set by one of them after the breaker
  had left the open state.  Any other step leaves the breaker alone and touches other metrics only.
\<close>

inductive breaker_step ::
  "('r, 'q, 'b, 'l) env \<Rightarrow> ('b \<Rightarrow> breaker_state) \<Rightarrow>
     ('r, 'q, 'b, 'l) world \<times> nat \<times> bool \<Rightarrow> ('r, 'q, 'b, 'l) world \<times> nat \<times> bool \<Rightarrow> bool"
  for E :: "('r, 'q, 'b, 'l) env" and st where
  Allow: "w' = exec (breaker_Allow E) w \<Longrightarrow>
    breaker_step E st (w, n, late) (w', n, late \<and> mtrace w' = mtrace w)"
| Done: "w' = exec (breaker_Done E gen ok) w \<Longrightarrow>
    breaker_step E st (w, n, late) (w', n, late \<and> mtrace w' = mtrace w)"
| Ask: "w' = exec (breaker_entry E c) w \<Longrightarrow>
    breaker_step E st (w, n, late) (w', if breaker_passes E c w then n else Suc n, late \<and> mtrace w' = mtrace w)"
| Refuse: "w' = exec (breaker_refuse E c) w \<Longrightarrow>
    breaker_step E st (w, Suc n, late) (w', n, st (dbCircuitBreaker w) \<noteq> StateOpen)"
| Other: "dbCircuitBreaker w' = dbCircuitBreaker w \<Longrightarrow> mtrace w' = mtrace w @ ms \<Longrightarrow>
    (\<And>n v. CircuitBreakerState n v \<notin> set ms) \<Longrightarrow> breaker_step E st (w, n, late) (w', n, late)"

inductive_cases breaker_stepE: "breaker_step E st (w, n, late) s'"

definition gauge_shows ::
  "('r, 'q, 'b, 'l) env \<Rightarrow> ('b \<Rightarrow> breaker_state) \<Rightarrow> ('r, 'q, 'b, 'l) world \<Rightarrow> bool \<Rightarrow> bool" where
  "gauge_shows E st w late \<longleftrightarrow>
     cb_name (cb E) (dbCircuitBreaker w) = ''database'' \<and>
     breaker_gauge ''database'' (mtrace w) = Some (if late then 2 else gauge_value (st (dbCircuitBreaker w))) \<and>
     (late \<longrightarrow> st (dbCircuitBreaker w) \<noteq> StateOpen)"

lemma gauge_after_calls:
  "chained s chs s' \<Longrightarrow> breaker_gauge n ms = Some (gauge_value s) \<Longrightarrow>
     breaker_gauge n (ms @ gauge_calls n chs) = Some (gauge_value s')"
proof (induction chs arbitrary: s ms)
  case (Cons x chs)
  have "breaker_gauge n (ms @ [CircuitBreakerState n (gauge_value (snd x))]) = Some (gauge_value (snd x))"
    by (simp add: breaker_gauge_snoc)
  with Cons.IH[of "snd x" "ms @ [CircuitBreakerState n (gauge_value (snd x))]"] Cons.prems
  show ?case by (simp add: gauge_calls_def)
qed (simp add: gauge_calls_def)

lemma gauge_other_calls:
  "(\<And>k v. CircuitBreakerState k v \<notin> set ns) \<Longrightarrow> breaker_gauge n (ms @ ns) = breaker_gauge n ms"
proof (induction ns rule: rev_induct)
  case (snoc x ns)
  have "breaker_gauge n ((ms @ ns) @ [x]) = breaker_gauge n (ms @ ns)"
    using snoc.prems by (subst breaker_gauge_snoc) (cases x; auto)
  then show ?case using snoc by auto
qed simp

lemma gauge_after_operation:
  assumes "gauge_shows E st w late" and "chained (st (dbCircuitBreaker w)) chs (st (dbCircuitBreaker w'))"
    and "cb_name (cb E) (dbCircuitBreaker w') = cb_name (cb E) (dbCircuitBreaker w)"
    and "mtrace w' = mtrace w @ gauge_calls ''database'' chs"
  shows "gauge_shows E st w' (late \<and> mtrace w' = mtrace w)"
proof (cases chs)
  case Nil
  then show ?thesis using assms by (simp add: gauge_shows_def gauge_calls_def)
next
  case (Cons x xs)
  let ?v = "CircuitBreakerState ''database'' (gauge_value (snd x))"
  have "breaker_gauge ''database'' ((mtrace w @ [?v]) @ gauge_calls ''database'' xs)
      = Some (gauge_value (st (dbCircuitBreaker w')))"
    using assms(2) Cons by (intro gauge_after_calls) (auto simp: breaker_gauge_snoc)
  then show ?thesis
    using assms Cons by (simp add: gauge_shows_def gauge_calls_def)
qed

lemma gauge_shows_step:
  assumes rep: "reports_changes (cb E) st" and before: "gauge_shows E st w late"
    and step: "breaker_step E st (w, n, late) (w', n', late')"
  shows "gauge_shows E st w' late'"
proof -
  note lib = rep[unfolded reports_changes_def]
  have name: "cb_name (cb E) (dbCircuitBreaker w) = ''database''"
    using before by (simp add: gauge_shows_def)
  have ask: "gauge_shows E st (exec (breaker_State E) w) (late \<and> mtrace (exec (breaker_State E) w) = mtrace w)"
    by (rule gauge_after_operation[OF before]) (use lib name in \<open>simp_all add: breaker_State_run\<close>)
  from step show ?thesis
  proof (cases rule: breaker_step.cases)
    case Allow
    show ?thesis
      unfolding Allow(2) by (rule gauge_after_operation[OF before])
        (use lib name Allow in \<open>simp_all add: breaker_Allow_run\<close>)
  next
    case (Done gen ok)
    show ?thesis
      unfolding Done(2) by (rule gauge_after_operation[OF before])
        (use lib name Done in \<open>simp_all add: breaker_Done_run\<close>)
  next
    case (Ask c)
    then show ?thesis using ask before by (simp add: breaker_entry_def)
  next
    case (Refuse c)
    then show ?thesis
      using before by (simp add: gauge_shows_def breaker_refuse_def GetDBCircuitBreaker_def count_run breaker_gauge_snoc)
  next
    case (Other ms)
    then show ?thesis using before by (simp add: gauge_shows_def gauge_other_calls)
  qed
qed

interpretation breaker_system: step_system
    "\<lambda>(w, n, late). (\<exists>w0. w = exec (InitCircuitBreakers E) w0) \<and> n = 0 \<and> \<not> late" "breaker_step E st"
    "\<lambda>(w, n, late). reports_changes (cb E) st \<longrightarrow> gauge_shows E st w late"
  for E :: "('r, 'q, 'b, 'l) env" and st
proof
  fix s :: "('r, 'q, 'b, 'l) world \<times> nat \<times> bool"
  assume "case s of (w, n, late) \<Rightarrow> (\<exists>w0. w = exec (InitCircuitBreakers E) w0) \<and> n = 0 \<and> \<not> late"
  then show "case s of (w, n, late) \<Rightarrow> reports_changes (cb E) st \<longrightarrow> gauge_shows E st w late"
    by (auto simp: InitCircuitBreakers_def count_run gauge_shows_def reports_changes_def breaker_settings_def
        breaker_gauge_snoc simp flip: append_assoc append.append_Cons
        intro: breaker_gauge_snoc[THEN trans])
qed (auto intro: gauge_shows_step)

section \<open>Properties\<close>

text \<open>
  C11: The gauge \<open>circuit_breaker_state\<close> shows the state of the breaker, but for overtaken refusals.
  After start-up, whatever calls of the breaker, refusals by the middleware and other work follow in
  whatever interleaving, its last value is the code (0 closed, 1 half-open, 2 open) of the state the
  breaker is in, unless it was last set by a refusal that came after the breaker had left the open
  state: then it is 2 and the breaker is not open.
\<close>

theorem gauge_follows_breaker:
  assumes "reports_changes (cb E) st"
    and "(breaker_step E st)\<^sup>*\<^sup>* (exec (InitCircuitBreakers E) w0, 0, False) (w, n, late)"
  shows "if late
    then breaker_gauge ''database'' (mtrace w) = Some 2 \<and> st (dbCircuitBreaker w) \<noteq> StateOpen
    else breaker_gauge ''database'' (mtrace w) = Some (gauge_value (st (dbCircuitBreaker w)))"
proof -
  have "case (w, n, late) of (w, n, late) \<Rightarrow> reports_changes (cb E) st \<longrightarrow> gauge_shows E st w late"
    using assms(2) by (rule breaker_system.reachable_inv[rotated]) auto
  then show ?thesis using assms(1) by (simp add: gauge_shows_def)
qed

definition sample_state :: "sample_breaker \<Rightarrow> breaker_state" where
  "sample_state b = (if sb_open_until b = None then StateClosed else StateOpen)"

lemma sample_reports_changes: "reports_changes (cb sample_env) sample_state"
  by (auto simp: reports_changes_def sample_breaker_lib_def sample_state_def split: option.split)

theorem gauge_follows_breaker_witness:
  "let w = exec (breaker_Done sample_env 0 False) (exec (InitCircuitBreakers sample_env) sample_world)
   in breaker_gauge ''database'' (mtrace w) = Some (gauge_value (sample_state (dbCircuitBreaker w)))"
proof -
  let ?w = "exec (breaker_Done sample_env 0 False) (exec (InitCircuitBreakers sample_env) sample_world)"
  have "(breaker_step sample_env sample_state)\<^sup>*\<^sup>* (exec (InitCircuitBreakers sample_env) sample_world, 0, False) (?w, 0, False)"
    using breaker_step.Done[of ?w sample_env 0 False "exec (InitCircuitBreakers sample_env) sample_world" sample_state 0 False]
    by (simp add: r_into_rtranclp)
  from gauge_follows_breaker [OF sample_reports_changes this] show ?thesis by (simp add: Let_def)
qed

text \<open>
  C31: A refusal that is overtaken leaves the gauge wrong.  One request asks the breaker while it is
  open; before it sets the gauge, the timeout of the breaker passes and a second request asks,
  which makes the breaker leave the open state and is let through; then the first one sets the
  gauge to 2.  From then on no request waits to set the gauge, the breaker is not open, and the
  gauge says open until the breaker changes its state again.
\<close>

theorem overtaken_refusal_leaves_gauge_stale:
  fixes E :: "('r, 'q, 'b, 'l) env" and w :: "('r, 'q, 'b, 'l) world" and c d :: gin_ctx
  defines "w1 \<equiv> exec (breaker_entry E c) w"
  defines "w2 \<equiv> exec (breaker_entry E d) w1"
  defines "w3 \<equiv> exec (breaker_refuse E c) w2"
  assumes "reports_changes (cb E) st" and "cb_name (cb E) (dbCircuitBreaker w) = ''database''"
    and "\<not> breaker_passes E c w" and "breaker_passes E d w1"
  shows "(breaker_step E st)\<^sup>*\<^sup>* (w, 0, late) (w3, 0, True) \<and>
    result (CircuitBreakerMiddleware E h d) w1 = result (h d) w2 \<and>
    breaker_gauge ''database'' (mtrace w3) = Some 2 \<and> st (dbCircuitBreaker w3) \<noteq> StateOpen"
proof -
  note lib = assms(4)[unfolded reports_changes_def]
  have env: "getenv E ''ENV'' \<noteq> ''test''" using assms(6) by (simp add: breaker_passes_def)
  have left: "st (dbCircuitBreaker w2) \<noteq> StateOpen"
    using assms(7) env lib by (simp add: breaker_passes_def w2_def breaker_entry_def breaker_State_run)
  have name: "cb_name (cb E) (dbCircuitBreaker w2) = ''database''"
    using assms(5) env lib by (simp add: w1_def w2_def breaker_entry_def breaker_State_run)
  have "breaker_step E st (w, 0, late) (w1, Suc 0, late \<and> mtrace w1 = mtrace w)"
    using breaker_step.Ask[of w1 E c w st 0 late] assms(6) by (simp add: w1_def)
  moreover have "breaker_step E st (w1, Suc 0, l) (w2, Suc 0, l \<and> mtrace w2 = mtrace w1)" for l
    using breaker_step.Ask[of w2 E d w1 st "Suc 0" l] assms(7) by (simp add: w2_def)
  moreover have "breaker_step E st (w2, Suc 0, l) (w3, 0, True)" for l
    using breaker_step.Refuse[of w3 E c w2 st 0 l] left by (simp add: w3_def)
  ultimately have "(breaker_step E st)\<^sup>*\<^sup>* (w, 0, late) (w3, 0, True)"
    by (meson rtranclp.rtrancl_into_rtrancl rtranclp.rtrancl_refl)
  moreover have "result (CircuitBreakerMiddleware E h d) w1 = result (h d) w2"
    using breaker_gate.let_through[OF assms(7)] by (simp add: w2_def)
  moreover have "breaker_gauge ''database'' (mtrace w3) = Some 2" "dbCircuitBreaker w3 = dbCircuitBreaker w2"
    using name by (simp_all add: w3_def breaker_refuse_def GetDBCircuitBreaker_def count_run breaker_gauge_snoc)
  ultimately show ?thesis using left by simp
qed

theorem overtaken_refusal_leaves_gauge_stale_witness:
  "let w = sample_world\<lparr>dbCircuitBreaker := sample_breaker_closed\<lparr>sb_open_until := Some 500000000\<rparr>\<rparr>;
       w3 = exec (breaker_refuse sample_env sample_ctx) (exec (breaker_entry sample_env sample_ctx) (exec (breaker_entry sample_env sample_ctx) w))
   in breaker_gauge ''database'' (mtrace w3) = Some 2 \<and> sample_state (dbCircuitBreaker w3) = StateClosed"
proof -
  let ?w = "sample_world\<lparr>dbCircuitBreaker := sample_breaker_closed\<lparr>sb_open_until := Some 500000000\<rparr>\<rparr>"
  have n: "cb_name (cb sample_env) (dbCircuitBreaker ?w) = ''database''"
    by (simp add: sample_breaker_lib_def sample_breaker_closed_def breaker_settings_def)
  have p: "\<not> breaker_passes sample_env sample_ctx ?w"
    "breaker_passes sample_env sample_ctx (exec (breaker_entry sample_env sample_ctx) ?w)"
    by (simp_all add: breaker_passes_def breaker_entry_def running sample_breaker_lib_def sample_os_def)
  have "sample_state b \<noteq> StateOpen \<longleftrightarrow> sample_state b = StateClosed" for b
    by (simp add: sample_state_def)
  then show ?thesis
    using overtaken_refusal_leaves_gauge_stale [OF sample_reports_changes n p] by (simp add: Let_def)
qed

end
