(* ===== verification/Database.thy ===== *)
theory Database
  imports Sample
begin

text \<open>
  The SQL the program issues, over the two tables of migrations/init.sql with their checks,
  keys and triggers, and the \<open>database/sql\<close> calls that carry it: single statements, queries of
  one row, and transactions with begin, commit and rollback.  Each statement of the Go sources
  is one definition on \<open>tables\<close>.  A round trip to a server can be lost before or after it took
  effect (\<open>round_trip\<close>); which one is a parameter.
\<close>

section \<open>Column types\<close>

text \<open>
  Assignment to a \<open>NUMERIC(18,2)\<close> column rounds to cents, halves away from zero, and fails when
  more than 16 digits are left of the point.
\<close>

definition round_cents :: "rat \<Rightarrow> cents" where
  "round_cents x = (if x < 0 then - \<lfloor>- (100 * x) + 1 / 2\<rfloor> else \<lfloor>100 * x + 1 / 2\<rfloor>)"

definition fits_18_2 :: "cents \<Rightarrow> bool" where
  "fits_18_2 c \<longleftrightarrow> \<bar>c\<bar> < 10 ^ 18"

definition numeric_18_2 :: "rat \<Rightarrow> sql_error + cents" where
  "numeric_18_2 x = (let c = round_cents x in if fits_18_2 c then Inr c else Inl NumericOverflow)"

text \<open>\<open>TIMESTAMPTZ\<close> keeps microseconds.\<close>

definition timestamptz :: "time \<Rightarrow> time" where
  "timestamptz t = t - t mod 1000"

text \<open>\<open>TEXT\<close> and \<open>VARCHAR\<close> values contain no zero byte.\<close>

definition text_ok :: "string \<Rightarrow> bool" where
  "text_ok s \<longleftrightarrow> char_of (0::nat) \<notin> set s"

text \<open>\<open>CHECK (type IN ('credit', 'debit', 'transfer'))\<close>\<close>

definition type_check :: "string \<Rightarrow> bool" where
  "type_check ty \<longleftrightarrow> ty \<in> {''credit'', ''debit'', ''transfer''}"

section \<open>The statements\<close>

type_synonym statement = "time \<Rightarrow> tables \<Rightarrow> sql_error + tables"
type_synonym 'a query = "tables \<Rightarrow> sql_error + 'a"

text \<open>\<open>SELECT EXISTS(SELECT 1 FROM users WHERE id = $1 AND status = 'active')\<close>\<close>

definition sql_user_active :: "pg_lib \<Rightarrow> string \<Rightarrow> bool query" where
  "sql_user_active P u tb =
     (case uuid_in P u of
        None \<Rightarrow> Inl InvalidText
      | Some i \<Rightarrow> Inr (case users tb i of None \<Rightarrow> False | Some r \<Rightarrow> user_status r = ''active''))"

text \<open>
  \<open>INSERT INTO transactions (id, user_id, type, amount, status, reference_id, description)\<close> with
  the two literal statuses the program uses.  \<open>created_at\<close> and \<open>updated_at\<close> default to \<open>NOW()\<close>.
\<close>

definition sql_insert_transaction ::
  "pg_lib \<Rightarrow> txn_status \<Rightarrow> string \<Rightarrow> string \<Rightarrow> string \<Rightarrow> float64 \<Rightarrow> string \<Rightarrow> string \<Rightarrow> statement" where
  "sql_insert_transaction P st tid uid ty amt ref desc t tb =
     (case uuid_in P tid of
        None \<Rightarrow> Inl InvalidText
      | Some i \<Rightarrow>
     (case uuid_in P uid of
        None \<Rightarrow> Inl InvalidText
      | Some u \<Rightarrow>
        if \<not> (text_ok ty \<and> text_ok ref \<and> text_ok desc) then Inl InvalidText
        else
     (case numeric_18_2 (pq_float P amt) of
        Inl e \<Rightarrow> Inl e
      | Inr c \<Rightarrow>
        if 20 < length ty \<or> 100 < length ref then Inl StringTooLong
        else if \<not> type_check ty \<or> c \<le> 0 then Inl CheckViolation
        else if \<exists>r \<in> set (transactions tb). row_reference r = Some ref \<and> row_created r = timestamptz t
          then Inl UniqueViolation
        else if users tb u = None then Inl ForeignKeyViolation
        else Inr (tb\<lparr>transactions := transactions tb @
          [\<lparr>row_id = i, row_user = u, row_type = ty, row_amount = c, row_status = st,
            row_reference = Some ref, row_description = Some desc,
            row_created = timestamptz t, row_updated = timestamptz t\<rparr>]\<rparr>))))"

text \<open>
  \<open>UPDATE transactions SET status = '...' WHERE id = $1\<close>; the trigger sets \<open>updated_at\<close>.  No
  matching row is no error.
\<close>

definition mark :: "txn_status \<Rightarrow> time \<Rightarrow> txn_row \<Rightarrow> txn_row" where
  "mark st t r = r\<lparr>row_status := st, row_updated := timestamptz t\<rparr>"

definition sql_set_status :: "pg_lib \<Rightarrow> txn_status \<Rightarrow> string \<Rightarrow> statement" where
  "sql_set_status P st tid t tb =
     (case uuid_in P tid of
        None \<Rightarrow> Inl InvalidText
      | Some i \<Rightarrow> Inr (tb\<lparr>transactions :=
          map (\<lambda>r. if row_id r = i then mark st t r else r) (transactions tb)\<rparr>))"

text \<open>
  \<open>UPDATE users SET balance = balance + $1 WHERE id = $2\<close> and its twin with a minus sign.
\<close>

datatype direction = Plus | Minus

primrec apply_direction :: "direction \<Rightarrow> rat \<Rightarrow> rat" where
  "apply_direction Plus x = x"
| "apply_direction Minus x = - x"

definition sql_move_balance :: "pg_lib \<Rightarrow> direction \<Rightarrow> float64 \<Rightarrow> string \<Rightarrow> statement" where
  "sql_move_balance P dir amt uid t tb =
     (case uuid_in P uid of
        None \<Rightarrow> Inl InvalidText
      | Some u \<Rightarrow>
     (case users tb u of
        None \<Rightarrow> Inr tb
      | Some r \<Rightarrow>
     (case numeric_18_2 (of_int (balance r) / 100 + apply_direction dir (pq_float P amt)) of
        Inl e \<Rightarrow> Inl e
      | Inr c \<Rightarrow> Inr (tb\<lparr>users := (users tb)(u \<mapsto> r\<lparr>balance := c, user_updated := timestamptz t\<rparr>)\<rparr>))))"

text \<open>\<open>SELECT id, user_id, type, ... FROM transactions WHERE id = $1\<close>, first row.\<close>

definition sql_select_transaction :: "pg_lib \<Rightarrow> string \<Rightarrow> txn_row query" where
  "sql_select_transaction P tid tb =
     (case uuid_in P tid of
        None \<Rightarrow> Inl InvalidText
      | Some i \<Rightarrow>
     (case find (\<lambda>r. row_id r = i) (transactions tb) of None \<Rightarrow> Inl ErrNoRows | Some r \<Rightarrow> Inr r))"

text \<open>\<open>SELECT id, username, balance, status FROM users WHERE id = $1\<close>.\<close>

definition sql_select_user :: "pg_lib \<Rightarrow> string \<Rightarrow> (uuid \<times> user_row) query" where
  "sql_select_user P uid tb =
     (case uuid_in P uid of
        None \<Rightarrow> Inl InvalidText
      | Some u \<Rightarrow> (case users tb u of None \<Rightarrow> Inl ErrNoRows | Some r \<Rightarrow> Inr (u, r)))"

section \<open>Round trips\<close>

definition set_server :: "endpoint \<Rightarrow> tables \<Rightarrow> ('r, 'q, 'b, 'l, unit) act" where
  "set_server ep tb = modify (\<lambda>w. w\<lparr>servers := (servers w)(ep := tb)\<rparr>)"

text \<open>\<open>db.QueryRowContext(...).Scan(...)\<close>\<close>

definition query_row ::
  "('r, 'q, 'b, 'l) env \<Rightarrow> endpoint \<Rightarrow> 'a query \<Rightarrow> ('r, 'q, 'b, 'l, sql_error + 'a) act" where
  "query_row E ep q = do {
     f \<leftarrow> next_fate E;
     tb \<leftarrow> reads (\<lambda>w. servers w ep);
     ret (case f of
            Answered \<Rightarrow> q tb
          | RequestLost e \<Rightarrow> Inl (DriverError e)
          | ReplyLost e \<Rightarrow> Inl (DriverError e))
   }"

text \<open>\<open>db.ExecContext(...)\<close>: one statement in a transaction of its own.\<close>

definition exec_statement ::
  "('r, 'q, 'b, 'l) env \<Rightarrow> endpoint \<Rightarrow> statement \<Rightarrow> ('r, 'q, 'b, 'l, sql_error option) act" where
  "exec_statement E ep st = do {
     f \<leftarrow> next_fate E;
     t \<leftarrow> now E;
     tb \<leftarrow> reads (\<lambda>w. servers w ep);
     (case f of
        RequestLost e \<Rightarrow> ret (Some (DriverError e))
      | Answered \<Rightarrow>
          (case st t tb of
             Inl e \<Rightarrow> ret (Some e)
           | Inr tb' \<Rightarrow> do { set_server ep tb'; ret None })
      | ReplyLost e \<Rightarrow>
          (case st t tb of
             Inl _ \<Rightarrow> ret (Some (DriverError e))
           | Inr tb' \<Rightarrow> do { set_server ep tb'; ret (Some (DriverError e)) }))
   }"

text \<open>
  A serializable transaction works on its snapshot; commit publishes it.  A transaction that
  other sessions overtake is one whose commit the server refuses, which is a lost request here.
  A commit whose answer is lost has published.
\<close>

record txn_handle =
  tx_server :: endpoint
  tx_time :: time
  tx_view :: tables

definition begin_tx ::
  "('r, 'q, 'b, 'l) env \<Rightarrow> endpoint \<Rightarrow> ('r, 'q, 'b, 'l, sql_error + txn_handle) act" where
  "begin_tx E ep = do {
     f \<leftarrow> next_fate E;
     t \<leftarrow> now E;
     tb \<leftarrow> reads (\<lambda>w. servers w ep);
     ret (case f of
            Answered \<Rightarrow> Inr \<lparr>tx_server = ep, tx_time = t, tx_view = tb\<rparr>
          | RequestLost e \<Rightarrow> Inl (DriverError e)
          | ReplyLost e \<Rightarrow> Inl (DriverError e))
   }"

definition exec_tx ::
  "('r, 'q, 'b, 'l) env \<Rightarrow> txn_handle \<Rightarrow> statement \<Rightarrow> ('r, 'q, 'b, 'l, sql_error + txn_handle) act" where
  "exec_tx E tx st = do {
     f \<leftarrow> next_fate E;
     ret (case f of
            Answered \<Rightarrow>
              (case st (tx_time tx) (tx_view tx) of
                 Inl e \<Rightarrow> Inl e
               | Inr tb \<Rightarrow> Inr (tx\<lparr>tx_view := tb\<rparr>))
          | RequestLost e \<Rightarrow> Inl (DriverError e)
          | ReplyLost e \<Rightarrow> Inl (DriverError e))
   }"

definition commit_tx ::
  "('r, 'q, 'b, 'l) env \<Rightarrow> txn_handle \<Rightarrow> ('r, 'q, 'b, 'l, sql_error option) act" where
  "commit_tx E tx = do {
     f \<leftarrow> next_fate E;
     (case f of
        Answered \<Rightarrow> do { set_server (tx_server tx) (tx_view tx); ret None }
      | RequestLost e \<Rightarrow> ret (Some (DriverError e))
      | ReplyLost e \<Rightarrow> do { set_server (tx_server tx) (tx_view tx); ret (Some (DriverError e)) })
   }"

text \<open>The deferred \<open>tx.Rollback()\<close> drops the snapshot; after a commit it does nothing.\<close>

definition rollback_tx :: "txn_handle \<Rightarrow> ('r, 'q, 'b, 'l, unit) act" where
  "rollback_tx tx = ret ()"

section \<open>Running a round trip\<close>

primrec effective :: "round_trip \<Rightarrow> bool" where
  "effective Answered = True"
| "effective (RequestLost e) = False"
| "effective (ReplyLost e) = True"

lemma query_row_run [running]:
  "result (query_row E ep q) w =
     (case pg_fate (pg E) (n_pg w) of
        Answered \<Rightarrow> q (servers w ep)
      | RequestLost e \<Rightarrow> Inl (DriverError e)
      | ReplyLost e \<Rightarrow> Inl (DriverError e))"
  "exec (query_row E ep q) w = w\<lparr>n_pg := Suc (n_pg w)\<rparr>"
  by (simp_all add: query_row_def running split: round_trip.split)

lemma exec_statement_run [running]:
  "result (exec_statement E ep st) w =
     (case pg_fate (pg E) (n_pg w) of
        Answered \<Rightarrow>
          (case st (clock E (ticks w)) (servers w ep) of Inl e \<Rightarrow> Some e | Inr _ \<Rightarrow> None)
      | RequestLost e \<Rightarrow> Some (DriverError e)
      | ReplyLost e \<Rightarrow> Some (DriverError e))"
  "exec (exec_statement E ep st) w =
     w\<lparr>servers :=
         (case st (clock E (ticks w)) (servers w ep) of
            Inl e \<Rightarrow> servers w
          | Inr tb \<Rightarrow> if effective (pg_fate (pg E) (n_pg w)) then (servers w)(ep := tb) else servers w),
       ticks := Suc (ticks w), n_pg := Suc (n_pg w)\<rparr>"
  by (simp_all add: exec_statement_def set_server_def running split: round_trip.split sum.split)

lemma begin_tx_run [running]:
  "result (begin_tx E ep) w =
     (case pg_fate (pg E) (n_pg w) of
        Answered \<Rightarrow> Inr \<lparr>tx_server = ep, tx_time = clock E (ticks w), tx_view = servers w ep\<rparr>
      | RequestLost e \<Rightarrow> Inl (DriverError e)
      | ReplyLost e \<Rightarrow> Inl (DriverError e))"
  "exec (begin_tx E ep) w = w\<lparr>ticks := Suc (ticks w), n_pg := Suc (n_pg w)\<rparr>"
  by (simp_all add: begin_tx_def running split: round_trip.split)

lemma exec_tx_run [running]:
  "result (exec_tx E tx st) w =
     (case pg_fate (pg E) (n_pg w) of
        Answered \<Rightarrow>
          (case st (tx_time tx) (tx_view tx) of Inl e \<Rightarrow> Inl e | Inr tb \<Rightarrow> Inr (tx\<lparr>tx_view := tb\<rparr>))
      | RequestLost e \<Rightarrow> Inl (DriverError e)
      | ReplyLost e \<Rightarrow> Inl (DriverError e))"
  "exec (exec_tx E tx st) w = w\<lparr>n_pg := Suc (n_pg w)\<rparr>"
  by (simp_all add: exec_tx_def running)

lemma commit_tx_run [running]:
  "result (commit_tx E tx) w =
     (case pg_fate (pg E) (n_pg w) of
        Answered \<Rightarrow> None
      | RequestLost e \<Rightarrow> Some (DriverError e)
      | ReplyLost e \<Rightarrow> Some (DriverError e))"
  "exec (commit_tx E tx) w =
     w\<lparr>servers :=
         (if effective (pg_fate (pg E) (n_pg w)) then (servers w)(tx_server tx := tx_view tx)
          else servers w),
       n_pg := Suc (n_pg w)\<rparr>"
  by (simp_all add: commit_tx_def set_server_def running split: round_trip.split)

lemma rollback_tx_run [running]: "exec (rollback_tx tx) w = w"
  by (simp add: rollback_tx_def)

section \<open>Rounding\<close>

lemma floor_half: "\<lfloor>of_int c + 1 / 2 :: rat\<rfloor> = c"
  by (simp add: floor_eq_iff)

lemma round_cents_int: "100 * x = of_int c \<Longrightarrow> round_cents x = c"
  using floor_half[of c] floor_half[of "- c"] by (simp add: round_cents_def)

lemma round_cents_neg: "round_cents (- x) = - round_cents x"
proof (cases "x = 0")
  case True
  then show ?thesis using round_cents_int[of 0 0] by simp
qed (auto simp: round_cents_def)

lemma round_cents_error: "\<bar>of_int (round_cents x) - 100 * x\<bar> \<le> 1 / 2"
proof -
  have f: "of_int \<lfloor>y + 1 / 2\<rfloor> - y \<le> 1 / 2 \<and> - (1 / 2) \<le> of_int \<lfloor>y + 1 / 2\<rfloor> - y" for y :: rat
    using of_int_floor_le[of "y + 1 / 2"] floor_correct[of "y + 1 / 2"] by linarith
  show ?thesis
    using f[of "100 * x"] f[of "- (100 * x)"] unfolding round_cents_def abs_le_iff by (cases "x < 0") simp_all
qed

lemma round_cents_shift:
  "100 * x = of_int d \<Longrightarrow> round_cents (of_int c / 100 + x) = c + d"
  by (rule round_cents_int) simp

section \<open>What the schema guarantees\<close>

text \<open>
  The checks and the foreign key of migrations/init.sql, on stored rows: a transaction has one
  of the three types, a positive amount of at most 18 digits and an existing user; a balance
  fits its column.
\<close>

definition tables_ok :: "tables \<Rightarrow> bool" where
  "tables_ok tb \<longleftrightarrow>
     (\<forall>r \<in> set (transactions tb).
        type_check (row_type r) \<and> 0 < row_amount r \<and>
        fits_18_2 (row_amount r) \<and> users tb (row_user r) \<noteq> None) \<and>
     (\<forall>u r. users tb u = Some r \<longrightarrow> fits_18_2 (balance r))"

text \<open>
  The contract every statement of the program keeps with the tables: \<open>keep\<close> is a property of
  them that the statement does not break.  What follows for the calls that carry the statement
  is proved once.
\<close>

locale sql_statement =
  fixes st :: statement and keep :: "tables \<Rightarrow> bool"
  assumes keeps: "keep tb \<Longrightarrow> st t tb = Inr tb' \<Longrightarrow> keep tb'"
begin

lemma exec_preserves: "preserves (\<lambda>w. \<forall>ep. keep (servers w ep)) (exec_statement E ep st)"
  by (rule preservesI) (auto simp: running dest: keeps split: sum.split)

lemma exec_keeps: "keep (servers w ep) \<Longrightarrow> keep (servers (exec (exec_statement E ep' st) w) ep)"
  by (auto simp: running dest: keeps split: sum.split)

lemma exec_tx_keeps:
  "keep (tx_view tx) \<Longrightarrow> result (exec_tx E tx st) w = Inr tx' \<Longrightarrow>
     keep (tx_view tx') \<and> tx_server tx' = tx_server tx"
  by (auto simp: running dest: keeps split: round_trip.splits sum.splits)

end

lemma tables_okI:
  assumes "\<And>r. r \<in> set (transactions tb) \<Longrightarrow>
      type_check (row_type r) \<and> 0 < row_amount r \<and>
      fits_18_2 (row_amount r) \<and> users tb (row_user r) \<noteq> None"
    and "\<And>u r. users tb u = Some r \<Longrightarrow> fits_18_2 (balance r)"
  shows "tables_ok tb"
  using assms unfolding tables_ok_def by blast

lemma numeric_round: "numeric_18_2 x = Inr c \<Longrightarrow> round_cents x = c"
  by (simp add: numeric_18_2_def Let_def split: if_splits)

lemma numeric_fits: "numeric_18_2 x = Inr c \<Longrightarrow> fits_18_2 c"
  by (auto simp: numeric_18_2_def Let_def split: if_splits)

text \<open>What a successful statement did, as elimination facts.\<close>

lemma insert_Inr:
  assumes "sql_insert_transaction P st tid uid ty amt ref desc t tb = Inr tb'"
  obtains i u c where "uuid_in P tid = Some i" and "uuid_in P uid = Some u"
    and "round_cents (pq_float P amt) = c" and "0 < c" and "fits_18_2 c"
    and "type_check ty" and "users tb u \<noteq> None"
    and "tb' = tb\<lparr>transactions := transactions tb @
          [\<lparr>row_id = i, row_user = u, row_type = ty, row_amount = c, row_status = st,
            row_reference = Some ref, row_description = Some desc,
            row_created = timestamptz t, row_updated = timestamptz t\<rparr>]\<rparr>"
proof -
  note ins = assms[unfolded sql_insert_transaction_def]
  from ins obtain i where i: "uuid_in P tid = Some i"
    by (cases "uuid_in P tid") simp_all
  from ins i obtain u where u: "uuid_in P uid = Some u"
    by (cases "uuid_in P uid") simp_all
  from ins i u have okt: "text_ok ty \<and> text_ok ref \<and> text_ok desc"
    by (simp split: if_splits)
  from ins i u okt obtain c where c: "numeric_18_2 (pq_float P amt) = Inr c"
    by (cases "numeric_18_2 (pq_float P amt)") simp_all
  from ins i u okt c have "0 < c" and "type_check ty" and "users tb u \<noteq> None"
    and "tb' = tb\<lparr>transactions := transactions tb @
          [\<lparr>row_id = i, row_user = u, row_type = ty, row_amount = c, row_status = st,
            row_reference = Some ref, row_description = Some desc,
            row_created = timestamptz t, row_updated = timestamptz t\<rparr>]\<rparr>"
    by (simp_all split: if_splits)
  then show thesis using that[OF i u numeric_round[OF c] _ numeric_fits[OF c]] by simp
qed

lemma set_status_Inr:
  assumes "sql_set_status P st tid t tb = Inr tb'"
  obtains i where "uuid_in P tid = Some i"
    and "tb' = tb\<lparr>transactions :=
      map (\<lambda>r. if row_id r = i then mark st t r else r) (transactions tb)\<rparr>"
  using assms by (auto simp: sql_set_status_def split: option.splits)

lemma move_balance_Inr:
  assumes "sql_move_balance P dir amt uid t tb = Inr tb'"
  obtains (absent) u where "uuid_in P uid = Some u" and "users tb u = None" and "tb' = tb"
  | (present) u r c where "uuid_in P uid = Some u" and "users tb u = Some r"
    and "round_cents (of_int (balance r) / 100 + apply_direction dir (pq_float P amt)) = c"
    and "fits_18_2 c"
    and "tb' = tb\<lparr>users := (users tb)(u \<mapsto> r\<lparr>balance := c, user_updated := timestamptz t\<rparr>)\<rparr>"
proof -
  note mv = assms[unfolded sql_move_balance_def]
  from mv obtain u where u: "uuid_in P uid = Some u"
    by (cases "uuid_in P uid") simp_all
  show thesis
  proof (cases "users tb u")
    case None
    with mv u have "tb' = tb" by simp
    with u None show thesis by (rule absent)
  next
    case (Some r)
    let ?x = "of_int (balance r) / 100 + apply_direction dir (pq_float P amt)"
    from mv u Some obtain c where c: "numeric_18_2 ?x = Inr c"
      by (cases "numeric_18_2 ?x") simp_all
    from mv u Some c
    have "tb' = tb\<lparr>users := (users tb)(u \<mapsto> r\<lparr>balance := c, user_updated := timestamptz t\<rparr>)\<rparr>"
      by simp
    then show thesis by (rule present[OF u Some numeric_round[OF c] numeric_fits[OF c]])
  qed
qed

interpretation insert_ok: sql_statement "sql_insert_transaction P st tid uid ty amt ref desc" tables_ok
  for P st tid uid ty amt ref desc
proof
  fix tb t tb'
  assume "tables_ok tb" and "sql_insert_transaction P st tid uid ty amt ref desc t tb = Inr tb'"
  then show "tables_ok tb'"
    by (elim insert_Inr) (auto simp: tables_ok_def)
qed

interpretation insert_users: sql_statement
  "sql_insert_transaction P st tid uid ty amt ref desc" "\<lambda>tb. users tb = us"
  for P st tid uid ty amt ref desc us
  by unfold_locales (auto elim!: insert_Inr)

interpretation status_ok: sql_statement "sql_set_status P st tid" tables_ok
  for P st tid
proof
  fix tb t tb'
  assume "tables_ok tb" and "sql_set_status P st tid t tb = Inr tb'"
  then show "tables_ok tb'"
    by (elim set_status_Inr) (auto simp: tables_ok_def mark_def)
qed

interpretation status_users: sql_statement "sql_set_status P st tid" "\<lambda>tb. users tb = us"
  for P st tid us
  by unfold_locales (auto elim!: set_status_Inr)

interpretation move_ok: sql_statement "sql_move_balance P dir amt uid" tables_ok
  for P dir amt uid
proof
  fix tb t tb'
  assume "tables_ok tb" and "sql_move_balance P dir amt uid t tb = Inr tb'"
  then show "tables_ok tb'"
    by (auto simp: tables_ok_def elim!: move_balance_Inr split: if_splits)
qed

interpretation move_rows: sql_statement "sql_move_balance P dir amt uid" "\<lambda>tb. transactions tb = rs"
  for P dir amt uid rs
  by unfold_locales (auto elim!: move_balance_Inr)

end
