(* ===== verification/CachedRead.thy ===== *)
theory CachedRead
  imports Cache Breaker Database
begin

text \<open>
  The contract the two cached read endpoints share.  \<open>GetTransaction\<close> and \<open>GetUserBalance\<close> look
  in Redis first, fall back to the read pool through the breaker, and store what they found.
  The locale states this behaviour over a handler and proves what follows from it once: which
  status codes are possible, what a hit and a miss touch, that a value is served again from the
  cache until it expires, and that a deleted entry is read afresh.
\<close>

definition misses :: "cache_error + 'v option \<Rightarrow> nat" where
  "misses got = (case got of Inl _ \<Rightarrow> 2 | Inr _ \<Rightarrow> 1)"

definition missed :: "string \<Rightarrow> nat \<Rightarrow> ('r, 'q, 'b, 'l) world \<Rightarrow> ('r, 'q, 'b, 'l) world" where
  "missed lbl n w = w\<lparr>mtrace := mtrace w @ replicate n (CacheMissesTotal lbl)\<rparr>"

lemma missed_sel [simp]:
  "servers (missed lbl n w) = servers w" "redis (missed lbl n w) = redis w"
  "broker (missed lbl n w) = broker w" "ticks (missed lbl n w) = ticks w"
  "n_pg (missed lbl n w) = n_pg w" "dbCircuitBreaker (missed lbl n w) = dbCircuitBreaker w"
  "mtrace (missed lbl n w) = mtrace w @ replicate n (CacheMissesTotal lbl)"
  by (simp_all add: missed_def)

text \<open>The answer to a found value, and the deletion that invalidates an entry.\<close>

definition answer :: "string \<Rightarrow> body \<Rightarrow> response" where
  "answer how b = \<lparr>code = 200, headers = [(''X-Cache'', how)], body = b\<rparr>"

lemma answer_sel [simp]:
  "code (answer how b) = 200" "headers (answer how b) = [(''X-Cache'', how)]" "body (answer how b) = b"
  by (simp_all add: answer_def)

lemma answer_inject [simp]: "answer how b = answer how' b' \<longleftrightarrow> how = how' \<and> b = b'"
  by (auto simp: answer_def)

locale cached_read =
  fixes E :: "('r, 'q, 'b, 'l) env"
    and h :: "('r, 'q, 'b, 'l) handler"
    and key :: "string \<Rightarrow> string"
    and enc :: "'v \<Rightarrow> string + string" and dec :: "string \<Rightarrow> string + 'v"
    and query :: "string \<Rightarrow> ('r, 'q, 'b, 'l, sql_error + 'v) act"
    and finish :: "'v \<Rightarrow> ('r, 'q, 'b, 'l, 'v) act"
    and wrap :: "'v \<Rightarrow> body"
    and lbl :: string
  assumes no_id: "param_id c = [] \<Longrightarrow> code (result (h c) w) = 400 \<and> exec (h c) w = w"
    and cached: "param_id c \<noteq> [] \<Longrightarrow> result (cache_Get E dec (key (param_id c))) w = Inr (Some v) \<Longrightarrow>
      result (h c) w = answer ''HIT'' (wrap v) \<and>
      exec (h c) w = exec (count (CacheHitsTotal lbl)) (exec (cache_Get E dec (key (param_id c))) w)"
    and failed: "param_id c \<noteq> [] \<Longrightarrow> result (cache_Get E dec (key (param_id c))) w = got \<Longrightarrow>
      (\<And>v. got \<noteq> Inr (Some v)) \<Longrightarrow>
      w' = missed lbl (misses got) (exec (cache_Get E dec (key (param_id c))) w) \<Longrightarrow>
      result (ExecuteWithCB E (query (param_id c))) w' = Inl err \<Longrightarrow>
      code (result (h c) w) = (if err = Failure ErrNoRows then 404 else 500) \<and>
      exec (h c) w = exec (ExecuteWithCB E (query (param_id c))) w'"
    and found: "param_id c \<noteq> [] \<Longrightarrow> result (cache_Get E dec (key (param_id c))) w = got \<Longrightarrow>
      (\<And>v. got \<noteq> Inr (Some v)) \<Longrightarrow>
      w' = missed lbl (misses got) (exec (cache_Get E dec (key (param_id c))) w) \<Longrightarrow>
      result (ExecuteWithCB E (query (param_id c))) w' = Inr x \<Longrightarrow>
      w'' = exec (finish x) (exec (ExecuteWithCB E (query (param_id c))) w') \<Longrightarrow>
      v = result (finish x) (exec (ExecuteWithCB E (query (param_id c))) w') \<Longrightarrow>
      result (h c) w = answer ''MISS'' (wrap v) \<and>
      exec (h c) w = exec (cache_Set E enc (key (param_id c)) v (DefaultTTL (getenv E))) w''"
    and query_reads: "unchanged stores (query i)"
    and finish_reads: "unchanged stores (finish x)"
begin

text \<open>Every run of the handler is one of the four cases.\<close>

lemma cases_of_run:
  obtains (blank) "param_id c = []"
  | (hit) v where "param_id c \<noteq> []" "result (cache_Get E dec (key (param_id c))) w = Inr (Some v)"
  | (broke) got err where "param_id c \<noteq> []" "result (cache_Get E dec (key (param_id c))) w = got"
      "\<And>v. got \<noteq> Inr (Some v)"
      "result (ExecuteWithCB E (query (param_id c)))
         (missed lbl (misses got) (exec (cache_Get E dec (key (param_id c))) w)) = Inl err"
  | (fetched) got x where "param_id c \<noteq> []" "result (cache_Get E dec (key (param_id c))) w = got"
      "\<And>v. got \<noteq> Inr (Some v)"
      "result (ExecuteWithCB E (query (param_id c)))
         (missed lbl (misses got) (exec (cache_Get E dec (key (param_id c))) w)) = Inr x"
proof (cases "param_id c = []")
  case False
  let ?got = "result (cache_Get E dec (key (param_id c))) w"
  show thesis
  proof (cases "\<exists>v. ?got = Inr (Some v)")
    case True
    then show thesis using that(2) False by blast
  next
    case None: False
    then show thesis
      using that(3)[of ?got] that(4)[of ?got] False
      by (cases "result (ExecuteWithCB E (query (param_id c)))
         (missed lbl (misses ?got) (exec (cache_Get E dec (key (param_id c))) w))") auto
  qed
qed (rule that(1))

lemma exec_query_stores: "stores (exec (ExecuteWithCB E (query i)) w) = stores w"
  by (rule unchangedD, rule ExecuteWithCB_unchanged) (intro query_reads breaker_frame)+

text \<open>A read endpoint never writes a database server nor the broker.\<close>

lemma reads_only: "servers (exec (h c) w) = servers w \<and> broker (exec (h c) w) = broker w"
proof (cases rule: cases_of_run[where c = c and w = w])
  case blank
  from no_id[OF this] show ?thesis by simp
next
  case (hit v)
  from cached[OF hit] show ?thesis by (simp add: running)
next
  case (broke got err)
  from failed[OF broke(1,2,3) refl broke(4)]
  show ?thesis
    using exec_query_stores[of "param_id c" "missed lbl (misses got) (exec (cache_Get E dec (key (param_id c))) w)"]
    by (simp add: stores_def running)
next
  case (fetched got x)
  let ?w = "missed lbl (misses got) (exec (cache_Get E dec (key (param_id c))) w)"
  from found[OF fetched(1,2,3) refl fetched(4) refl refl]
  show ?thesis
    using exec_query_stores[of "param_id c" ?w]
      unchangedD[OF finish_reads, of x "exec (ExecuteWithCB E (query (param_id c))) ?w"]
    by (simp add: stores_def running split: sum.split)
qed

lemma codes: "code (result (h c) w) \<in> {200, 400, 404, 500}"
proof (cases rule: cases_of_run[where c = c and w = w])
  case blank
  then show ?thesis using no_id[of c w] by simp
next
  case (hit v)
  then show ?thesis using cached[of c w v] by simp
next
  case (broke got err)
  from failed[OF broke(1,2,3) refl broke(4)] show ?thesis by simp
next
  case (fetched got x)
  from found[OF fetched(1,2,3) refl fetched(4) refl refl] show ?thesis by simp
qed

text \<open>A hit costs one Redis round trip: no database round trip, no call of the breaker.\<close>

lemma hit_is_cheap:
  assumes "param_id c \<noteq> []" and "result (cache_Get E dec (key (param_id c))) w = Inr (Some v)"
  shows "result (h c) w = answer ''HIT'' (wrap v) \<and> n_pg (exec (h c) w) = n_pg w \<and>
    dbCircuitBreaker (exec (h c) w) = dbCircuitBreaker w \<and>
    ticks (exec (h c) w) = Suc (ticks w) \<and>
    mtrace (exec (h c) w) = mtrace w @ [CacheHitsTotal lbl]"
  using cached[OF assms] by (simp add: running)

text \<open>
  What was found is in the cache afterwards: the next read of the identifier, while Redis still
  holds the entry, answers with the same value and does not ask the database.
\<close>

lemma served_again:
  assumes first: "result (h c) w = answer ''MISS'' (wrap v)" and inj: "inj wrap"
    and id: "param_id d = param_id c"
    and codec: "enc v = Inr s" "dec s = Inr v"
    and remembers: "redis_remembers (rds E)"
      "\<And>k s t r. fst (rd_set (rds E) k s (DefaultTTL (getenv E)) t r) = None"
    and clock: "\<And>m n. m \<le> n \<Longrightarrow> clock E m \<le> clock E n"
    and ticking: "ticks (exec (h c) w) = Suc n"
      "clock E (Suc n) < clock E n + sint (DefaultTTL (getenv E))"
  shows "result (h d) (exec (h c) w) = answer ''HIT'' (wrap v)"
proof (cases rule: cases_of_run[where c = c and w = w])
  case blank
  then show ?thesis using no_id[of c w] first by simp
next
  case (hit u)
  then show ?thesis using cached[of c w u] first by simp
next
  case (broke got err)
  from failed[OF broke(1,2,3) refl broke(4)] first show ?thesis by (simp split: if_splits)
next
  case (fetched got x)
  let ?w = "missed lbl (misses got) (exec (cache_Get E dec (key (param_id c))) w)"
  let ?u = "exec (finish x) (exec (ExecuteWithCB E (query (param_id c))) ?w)"
  note f = found[OF fetched(1,2,3) refl fetched(4) refl refl]
  then have v: "result (finish x) (exec (ExecuteWithCB E (query (param_id c))) ?w) = v"
    using first injD[OF inj] by auto
  note s = codec
  from f v s have run: "exec (h c) w = ?u\<lparr>ticks := Suc (ticks ?u),
      redis := snd (rd_set (rds E) (key (param_id c)) s (DefaultTTL (getenv E)) (clock E (ticks ?u)) (redis ?u))\<rparr>"
    by (simp add: running)
  with ticking(1) have n: "ticks ?u = n" by simp
  have "fst (rd_get (rds E) (key (param_id c)) (clock E (Suc n)) (redis (exec (h c) w))) = RedisBytes s"
    using remembers clock[of n "Suc n"] ticking(2) run n unfolding redis_remembers_def by simp
  then have "result (cache_Get E dec (key (param_id d))) (exec (h c) w) = Inr (Some v)"
    using s ticking(1) id by (simp add: running)
  then show ?thesis using cached[of d "exec (h c) w" v] fetched(1) id by simp
qed

text \<open>After the entry was deleted, the answer comes from the query.\<close>

lemma fresh_after_delete:
  assumes forgets: "redis_forgets (rds E)" and id: "param_id c \<noteq> []"
    and del: "result (cache_Delete E (key (param_id c))) w0 = None"
    and redis: "redis w = redis (exec (cache_Delete E (key (param_id c))) w0)"
  shows "\<exists>w'. servers w' = servers w \<and> n_pg w' = n_pg w \<and>
    (case result (ExecuteWithCB E (query (param_id c))) w' of
       Inl err \<Rightarrow> code (result (h c) w) = (if err = Failure ErrNoRows then 404 else 500)
     | Inr x \<Rightarrow> result (h c) w =
         answer ''MISS'' (wrap (result (finish x) (exec (ExecuteWithCB E (query (param_id c))) w'))))"
proof -
  have "fst (rd_get (rds E) (key (param_id c)) (clock E (ticks w)) (redis w)) = RedisNil"
    using forgets del redis unfolding redis_forgets_def by (simp add: running)
  then have miss: "result (cache_Get E dec (key (param_id c))) w = Inr None"
    by (simp add: running)
  let ?w = "missed lbl (misses (Inr None :: cache_error + 'v option)) (exec (cache_Get E dec (key (param_id c))) w)"
  have "servers ?w = servers w \<and> n_pg ?w = n_pg w" by (simp add: running)
  moreover have "case result (ExecuteWithCB E (query (param_id c))) ?w of
       Inl err \<Rightarrow> code (result (h c) w) = (if err = Failure ErrNoRows then 404 else 500)
     | Inr x \<Rightarrow> result (h c) w =
         answer ''MISS'' (wrap (result (finish x) (exec (ExecuteWithCB E (query (param_id c))) ?w)))"
    using failed[OF id miss _ refl] found[OF id miss _ refl _ refl refl]
    by (auto split: sum.split)
  ultimately show ?thesis by blast
qed

end

end
