(* ===== verification/Queue.thy ===== *)
theory Queue
  imports Sample
begin

text \<open>
  api/queue/rabbitmq.go: connecting with retries, declaring the queue, publishing a transaction
  message, inspecting the depth, and the consumer loop with its acknowledgement policy.
\<close>

section \<open>Connecting\<close>

text \<open>What \<open>Init\<close> does to the outside, in order: the attempts to connect, the channel, the queue.\<close>

record queue_declaration =
  qd_name :: string
  qd_durable :: bool
  qd_autoDelete :: bool
  qd_exclusive :: bool
  qd_noWait :: bool
  qd_max_length :: nat
  qd_overflow :: string

datatype queue_event =
    DialFailed nat \<comment> \<open>the number of the attempt, as logged\<close>
  | Connected
  | ChannelOpened
  | QueueDeclared queue_declaration
  | PrefetchSet goint

text \<open>
  The loop \<open>for i := 0; i < 5; i++\<close> around \<open>amqp.Dial\<close>, which stops at the first success and
  pauses after each failure.  \<open>dial i\<close> is the outcome of the attempt with counter i, and \<open>prev\<close>
  the outcome of the attempt before.
\<close>

function dial_loop :: "(nat \<Rightarrow> string + 'c) \<Rightarrow> nat \<Rightarrow> string + 'c \<Rightarrow> queue_event list \<times> (string + 'c)" where
  "dial_loop dial i prev =
     (if i < 5 then
        (case dial i of
           Inr c \<Rightarrow> ([Connected], Inr c)
         | Inl e \<Rightarrow> (case dial_loop dial (Suc i) (Inl e) of (es, r) \<Rightarrow> (DialFailed (Suc i) # es, r)))
      else ([], prev))"
  by pat_completeness auto
termination by (relation "measure (\<lambda>(dial, i, prev). 5 - i)") auto

definition transactions_queue :: "osenv \<Rightarrow> queue_declaration" where
  "transactions_queue os =
     \<lparr>qd_name = queue_name os, qd_durable = True, qd_autoDelete = False, qd_exclusive = False,
      qd_noWait = False, qd_max_length = 100000, qd_overflow = ''reject-publish''\<rparr>"

text \<open>
  \<open>Init\<close> with the outcomes of dialling, opening the channel and declaring the queue; the answer
  to \<open>Qos\<close> is ignored.
\<close>

definition queue_Init ::
  "osenv \<Rightarrow> (nat \<Rightarrow> string + 'c) \<Rightarrow> ('c \<Rightarrow> string + 'ch) \<Rightarrow> ('ch \<Rightarrow> queue_declaration \<Rightarrow> string option) \<Rightarrow>
     queue_event list \<times> (fatal + 'c \<times> 'ch)" where
  "queue_Init os dial open_channel declare_queue =
     (case dial_loop dial 0 (Inl []) of (es, res) \<Rightarrow>
     (case res of
        Inl e \<Rightarrow> (es, Inl (QueueUnreachable e))
      | Inr conn \<Rightarrow>
     (case open_channel conn of
        Inl e \<Rightarrow> (es, Inl (QueueChannelFailed e))
      | Inr channel \<Rightarrow>
     (case declare_queue channel (transactions_queue os) of
        Some e \<Rightarrow> (es @ [ChannelOpened], Inl (QueueDeclareFailed e))
      | None \<Rightarrow>
          let prefetch = atoi_word (queue_getEnv os ''RABBITMQ_PREFETCH_COUNT'' ''10'')
          in (es @ [ChannelOpened, QueueDeclared (transactions_queue os), PrefetchSet prefetch],
              Inr (conn, channel))))))"

section \<open>Publishing\<close>

text \<open>
  The default exchange, the queue's name as routing key, \<open>mandatory\<close> set and \<open>immediate\<close> not.  The
  error returned is that of encoding or of sending; that there was none does not mean that the
  message is on the queue.
\<close>

datatype publish_error = QueueMarshalError string | QueuePublishError string

definition Publish ::
  "('r, 'q, 'b, 'l) env \<Rightarrow> TransactionMessage \<Rightarrow> ('r, 'q, 'b, 'l, publish_error option) act" where
  "Publish E msg =
     (case enc_msg (codec E) msg of
        Inl e \<Rightarrow> ret (Some (QueueMarshalError e))
      | Inr data \<Rightarrow> do {
          t \<leftarrow> now E;
          p \<leftarrow> reads (\<lambda>w. mq_publish (mq E) [] (queue_name (getenv E)) True False
                 \<lparr>pub_ContentType = ''application/json'', pub_DeliveryMode = 2,
                  pub_MessageId = msg_TransactionID msg, pub_Timestamp = t, pub_Body = data\<rparr>
                 (broker w));
          modify (\<lambda>w. w\<lparr>broker := snd p\<rparr>);
          ret (map_option QueuePublishError (fst p))
        })"

definition QueueDepth :: "('r, 'q, 'b, 'l) env \<Rightarrow> ('r, 'q, 'b, 'l, string + nat) act" where
  "QueueDepth E = do {
     p \<leftarrow> reads (\<lambda>w. mq_inspect (mq E) (queue_name (getenv E)) (broker w));
     modify (\<lambda>w. w\<lparr>broker := snd p\<rparr>);
     ret (fst p)
   }"

section \<open>Consuming\<close>

record delivery =
  dl_tag :: nat
  dl_body :: string

text \<open>How a delivery was settled: the arguments of \<open>d.Ack\<close> and \<open>d.Nack\<close>.\<close>

datatype settlement = Ack | Nack bool \<comment> \<open>requeue\<close>

definition settle ::
  "('r, 'q, 'b, 'l) env \<Rightarrow> nat \<Rightarrow> settlement \<Rightarrow> ('r, 'q, 'b, 'l, unit) act" where
  "settle E tag s = modify (\<lambda>w. w\<lparr>broker :=
     (case s of Ack \<Rightarrow> mq_ack (mq E) tag (broker w) | Nack requeue \<Rightarrow> mq_nack (mq E) tag requeue (broker w))\<rparr>)"

text \<open>The body of the loop \<open>for d := range msgs\<close>.\<close>

definition consume_one ::
  "('r, 'q, 'b, 'l) env \<Rightarrow> (TransactionMessage \<Rightarrow> ('r, 'q, 'b, 'l, 'e option) act) \<Rightarrow> delivery \<Rightarrow>
     ('r, 'q, 'b, 'l, settlement) act" where
  "consume_one E processFunc d =
     (case dec_msg (codec E) (dl_body d) of
        Inl _ \<Rightarrow> do { settle E (dl_tag d) (Nack False); ret (Nack False) }
      | Inr msg \<Rightarrow> do {
          err \<leftarrow> processFunc msg;
          (case err of
             Some _ \<Rightarrow> do { settle E (dl_tag d) (Nack True); ret (Nack True) }
           | None \<Rightarrow> do { settle E (dl_tag d) Ack; ret Ack })
        })"

text \<open>
  The loop over the deliveries that arrive until the channel closes, and \<open>StartConsumer\<close>, which
  registers with the broker and ends the process if that fails.
\<close>

definition consume_loop ::
  "('r, 'q, 'b, 'l) env \<Rightarrow> (TransactionMessage \<Rightarrow> ('r, 'q, 'b, 'l, 'e option) act) \<Rightarrow> delivery list \<Rightarrow>
     ('r, 'q, 'b, 'l, settlement list) act" where
  "consume_loop E processFunc msgs = each (consume_one E processFunc) msgs"

definition StartConsumer ::
  "('r, 'q, 'b, 'l) env \<Rightarrow> (string \<Rightarrow> string + delivery list) \<Rightarrow>
     (TransactionMessage \<Rightarrow> ('r, 'q, 'b, 'l, 'e option) act) \<Rightarrow>
     ('r, 'q, 'b, 'l, fatal + settlement list) act" where
  "StartConsumer E consume processFunc =
     (case consume (queue_name (getenv E)) of
        Inl e \<Rightarrow> ret (Inl (ConsumeFailed e))
      | Inr msgs \<Rightarrow> do { ss \<leftarrow> consume_loop E processFunc msgs; ret (Inr ss) })"

section \<open>What is relied on from the broker and the message encoding\<close>

text \<open>
  Documented behaviour.  A broker with room in the queue appends what is sent to the default
  exchange under the queue's name, when sending reported no error; \<open>queued\<close> lists the bodies on the
  queue.  An encoded message reads back with the same id, user, type and amount (strings that are
  not valid UTF-8 and the monotonic part of a time are not kept by \<open>encoding/json\<close>).  And a
  broker holds only what it held before or was just sent; settling and inspecting add nothing.
\<close>

definition queues_published :: "'q amqp_lib \<Rightarrow> string \<Rightarrow> ('q \<Rightarrow> string list) \<Rightarrow> bool" where
  "queues_published M key queued \<longleftrightarrow>
     (\<forall>p b. fst (mq_publish M [] key True False p b) = None \<longrightarrow>
        queued (snd (mq_publish M [] key True False p b)) = queued b @ [pub_Body p])"

definition same_order :: "TransactionMessage \<Rightarrow> TransactionMessage \<Rightarrow> bool" where
  "same_order m m' \<longleftrightarrow> msg_TransactionID m' = msg_TransactionID m \<and> msg_UserID m' = msg_UserID m \<and>
     msg_Type m' = msg_Type m \<and> msg_Amount m' = msg_Amount m"

definition reads_back :: "json_lib \<Rightarrow> bool" where
  "reads_back C \<longleftrightarrow> (\<forall>m s. enc_msg C m = Inr s \<longrightarrow> (\<exists>m'. dec_msg C s = Inr m' \<and> same_order m m'))"

definition holds_only_sent :: "'q amqp_lib \<Rightarrow> bool" where
  "holds_only_sent M \<longleftrightarrow>
     (\<forall>ex key mand imm p b s. mq_holds M (snd (mq_publish M ex key mand imm p b)) s \<longrightarrow> mq_holds M b s \<or> s = pub_Body p) \<and>
     (\<forall>q b s. mq_holds M (snd (mq_inspect M q b)) s \<longrightarrow> mq_holds M b s) \<and>
     (\<forall>tag b s. mq_holds M (mq_ack M tag b) s \<longrightarrow> mq_holds M b s) \<and>
     (\<forall>tag requeue b s. mq_holds M (mq_nack M tag requeue b) s \<longrightarrow> mq_holds M b s)"

section \<open>Running the queue operations\<close>

lemma Publish_run [running]:
  "result (Publish E msg) w =
     (case enc_msg (codec E) msg of
        Inl e \<Rightarrow> Some (QueueMarshalError e)
      | Inr data \<Rightarrow> map_option QueuePublishError (fst (mq_publish (mq E) [] (queue_name (getenv E)) True False
          \<lparr>pub_ContentType = ''application/json'', pub_DeliveryMode = 2,
           pub_MessageId = msg_TransactionID msg, pub_Timestamp = clock E (ticks w), pub_Body = data\<rparr>
          (broker w))))"
  "exec (Publish E msg) w =
     (case enc_msg (codec E) msg of
        Inl e \<Rightarrow> w
      | Inr data \<Rightarrow> w\<lparr>ticks := Suc (ticks w),
          broker := snd (mq_publish (mq E) [] (queue_name (getenv E)) True False
            \<lparr>pub_ContentType = ''application/json'', pub_DeliveryMode = 2,
             pub_MessageId = msg_TransactionID msg, pub_Timestamp = clock E (ticks w), pub_Body = data\<rparr>
            (broker w))\<rparr>)"
  by (simp_all add: Publish_def running split: sum.split)

lemma QueueDepth_run [running]:
  "result (QueueDepth E) w = fst (mq_inspect (mq E) (queue_name (getenv E)) (broker w))"
  "exec (QueueDepth E) w = w\<lparr>broker := snd (mq_inspect (mq E) (queue_name (getenv E)) (broker w))\<rparr>"
  by (simp_all add: QueueDepth_def running)

lemma settle_run [running]:
  "exec (settle E tag s) w = w\<lparr>broker :=
     (case s of Ack \<Rightarrow> mq_ack (mq E) tag (broker w) | Nack requeue \<Rightarrow> mq_nack (mq E) tag requeue (broker w))\<rparr>"
  by (simp add: settle_def)

lemma queue_frame [framing]:
  "unchanged servers (Publish E msg)" "unchanged servers (QueueDepth E)" "unchanged servers (settle E tag s)"
  "unchanged redis (Publish E msg)" "unchanged redis (QueueDepth E)" "unchanged redis (settle E tag s)"
  "unchanged gates (Publish E msg)" "unchanged gates (QueueDepth E)" "unchanged gates (settle E tag s)"
  "unchanged n_pg (settle E tag s)"
  by (auto intro!: unchangedI simp: running gates_def split: sum.split)

text \<open>
  One delivery is settled exactly once; how depends only on the decoding and on the callback.
\<close>

lemma consume_one_result:
  "result (consume_one E f d) w =
     (case dec_msg (codec E) (dl_body d) of
        Inl _ \<Rightarrow> Nack False
      | Inr msg \<Rightarrow> (case result (f msg) w of Some _ \<Rightarrow> Nack True | None \<Rightarrow> Ack))"
  by (simp add: consume_one_def split: sum.split option.split)

lemma consume_one_servers:
  "servers (exec (consume_one E f d) w) =
     (case dec_msg (codec E) (dl_body d) of
        Inl _ \<Rightarrow> servers w
      | Inr msg \<Rightarrow> servers (exec (f msg) w))"
  by (simp add: consume_one_def running split: sum.split option.split)

lemma consume_one_preserves [preserving]:
  assumes "\<And>tag s. preserves I (settle E tag s)" and "\<And>m. preserves I (f m)"
  shows "preserves I (consume_one E f d)"
  unfolding consume_one_def by (intro preserving assms)

declare dial_loop.simps [simp del]

lemma dial_loop_found:
  assumes "dial k = Inr c" and "\<And>j. i \<le> j \<Longrightarrow> j < k \<Longrightarrow> \<exists>e. dial j = Inl e" and "i \<le> k" and "k < 5"
  shows "dial_loop dial i prev = (map DialFailed [Suc i..<Suc k] @ [Connected], Inr c)"
  using assms
proof (induction dial i prev rule: dial_loop.induct)
  case (1 dial i prev)
  show ?case
  proof (cases "i = k")
    case True
    then show ?thesis using "1.prems" by (subst dial_loop.simps) simp
  next
    case False
    then have lt: "i < k" using "1.prems" by simp
    then obtain e where e: "dial i = Inl e" using "1.prems"(2)[of i] by auto
    have "dial_loop dial (Suc i) (Inl e) = (map DialFailed [Suc (Suc i)..<Suc k] @ [Connected], Inr c)"
      using lt e "1.prems" by (intro "1.IH") auto
    then show ?thesis
      using lt e "1.prems"(4) by (subst dial_loop.simps) (simp add: upt_conv_Cons[of "Suc i"] del: upt_Suc)
  qed
qed

lemma dial_loop_none:
  assumes "\<And>j. i \<le> j \<Longrightarrow> j < 5 \<Longrightarrow> \<exists>e. dial j = Inl e" and "i \<le> 5"
  shows "dial_loop dial i prev = (map DialFailed [Suc i..<6], if i < 5 then dial 4 else prev)"
  using assms
proof (induction dial i prev rule: dial_loop.induct)
  case (1 dial i prev)
  show ?case
  proof (cases "i < 5")
    case True
    then obtain e where e: "dial i = Inl e" using "1.prems"(1)[of i] by auto
    have "dial_loop dial (Suc i) (Inl e) = (map DialFailed [Suc (Suc i)..<6], if Suc i < 5 then dial 4 else Inl e)"
      using True e "1.prems" by (intro "1.IH") auto
    moreover have "dial 4 = Inl e" if "\<not> Suc i < 5"
    proof -
      have "i = 4" using True that by linarith
      then show ?thesis using e by simp
    qed
    ultimately show ?thesis
      using True e by (subst dial_loop.simps) (auto simp: upt_conv_Cons[of "Suc i"])
  next
    case False
    then show ?thesis using "1.prems"(2) by (subst dial_loop.simps) simp
  qed
qed

lemma sample_reads_back: "reads_back sample_codec"
  by (auto simp: reads_back_def same_order_def sample_enc_def sample_dec_def sample_msg_def)

lemma sample_holds_only_sent: "holds_only_sent sample_amqp_lib"
  by (auto simp: holds_only_sent_def image_iff)

section \<open>Properties\<close>

definition dialling :: "queue_event \<Rightarrow> bool" where
  "dialling e \<longleftrightarrow> e = Connected \<or> (\<exists>n. e = DialFailed n)"

text \<open>
  C34: Start-up tolerates a broker that is slow to come up, within bounds.  \<open>Init\<close> dials until the
  first success and at most five times: with a first success among the first five attempts the
  attempts made are the failed ones before it and itself, the connection is used, and what
  follows decides; with five failures \<open>Init\<close> has dialled exactly five times and ends the process
  with the error of the fifth, without asking for a channel.
\<close>

theorem connects_within_five_attempts:
  fixes dial :: "nat \<Rightarrow> string + 'c" and open_channel :: "'c \<Rightarrow> string + 'ch"
    and declare_queue :: "'ch \<Rightarrow> queue_declaration \<Rightarrow> string option" and os :: osenv
  defines "init \<equiv> queue_Init os dial open_channel declare_queue"
  shows "(\<exists>k < 5. \<exists>c. dial k = Inr c \<and> (\<forall>j < k. \<exists>e. dial j = Inl e) \<and>
      filter dialling (fst init) = map DialFailed [1..<Suc k] @ [Connected] \<and>
      snd init = (case open_channel c of
          Inl e \<Rightarrow> Inl (QueueChannelFailed e)
        | Inr ch \<Rightarrow> (case declare_queue ch (transactions_queue os) of
            Some e \<Rightarrow> Inl (QueueDeclareFailed e) | None \<Rightarrow> Inr (c, ch)))) \<or>
    (\<forall>j < 5. \<exists>e. dial j = Inl e) \<and>
      (\<exists>e. dial 4 = Inl e \<and> init = (map DialFailed [1, 2, 3, 4, 5], Inl (QueueUnreachable e)))"
proof (cases "\<exists>k < 5. \<exists>c. dial k = Inr c")
  case True
  define k where "k = (LEAST k. \<exists>c. dial k = Inr c)"
  from True obtain k0 where k0: "k0 < 5" "\<exists>c. dial k0 = Inr c" by blast
  obtain c where c: "dial k = Inr c"
    using LeastI[of "\<lambda>k. \<exists>c. dial k = Inr c", OF k0(2)] unfolding k_def by blast
  have least: "\<exists>e. dial j = Inl e" if "j < k" for j
    using not_less_Least[OF that[unfolded k_def]] by (cases "dial j") auto
  have "k \<le> k0" unfolding k_def by (rule Least_le) (rule k0(2))
  then have k: "k < 5" using k0(1) by simp
  have run: "dial_loop dial 0 (Inl []) = (map DialFailed [Suc 0..<Suc k] @ [Connected], Inr c)"
    by (rule dial_loop_found[where k = k]) (use c least k in auto)
  have "filter dialling (map DialFailed ns) = map DialFailed ns" for ns
    by (simp add: filter_id_conv dialling_def)
  then have "filter dialling (fst init) = map DialFailed [1..<Suc k] @ [Connected] \<and>
      snd init = (case open_channel c of Inl e \<Rightarrow> Inl (QueueChannelFailed e)
        | Inr ch \<Rightarrow> (case declare_queue ch (transactions_queue os) of
            Some e \<Rightarrow> Inl (QueueDeclareFailed e) | None \<Rightarrow> Inr (c, ch)))"
    by (simp add: init_def queue_Init_def run Let_def dialling_def del: upt_Suc split: sum.split option.split)
  then show ?thesis using k c least by blast
next
  case False
  then have all: "\<exists>e. dial j = Inl e" if "j < 5" for j
    using that by (cases "dial j") auto
  obtain e where e: "dial 4 = Inl e" using all[of 4] by auto
  have "dial_loop dial 0 (Inl []) = (map DialFailed [Suc 0..<6], dial 4)"
    using dial_loop_none[of 0 dial "Inl []"] all by simp
  moreover have "[Suc 0..<6] = [1, 2, 3, 4, 5]" by (simp add: upt_rec)
  ultimately have "init = (map DialFailed [1, 2, 3, 4, 5], Inl (QueueUnreachable e))"
    by (simp add: init_def queue_Init_def e)
  then show ?thesis using all e by blast
qed

theorem connects_within_five_attempts_witness:
  "filter dialling (fst (queue_Init sample_os (\<lambda>i. if i < 2 then Inl ''refused'' else Inr i) (\<lambda>c :: nat. Inr c) (\<lambda>ch qd. None)))
     = [DialFailed 1, DialFailed 2, Connected]"
proof -
  let ?dial = "\<lambda>i. if i < 2 then Inl ''refused'' else Inr i :: string + nat"
  have "k = 2" if "?dial k = Inr c" "\<forall>j < k. \<exists>e. ?dial j = Inl e" for k c
  proof (rule ccontr)
    assume "k \<noteq> 2"
    then have "2 < k" using that(1) by (cases "k < 2") auto
    then show False using that(2) by auto
  qed
  moreover have "\<not> (\<exists>e. ?dial 4 = Inl e)" by simp
  ultimately have "filter dialling (fst (queue_Init sample_os ?dial (\<lambda>c :: nat. Inr c) (\<lambda>ch qd. None)))
      = map DialFailed [1..<Suc 2] @ [Connected]"
    using connects_within_five_attempts [of ?dial sample_os "\<lambda>c :: nat. Inr c" "\<lambda>ch qd. None"] by blast
  then show ?thesis by (simp add: numeral_2_eq_2)
qed

end
