(* ===== verification/Transactions.thy ===== *)
theory Transactions
  imports CachedRead Queue
begin

text \<open>
  api/handler/transaction.go: creating a transaction (validation, the active-user check, the
  idempotency lookup, the insert behind the breaker, the idempotency record, the message to the
  queue) and the cached read of one.  \<open>CreateTransaction\<close> is split into the three stretches
  between which other requests can run.
\<close>

section \<open>Binding\<close>

definition ShouldBindJSON ::
  "('r, 'q, 'b, 'l) env \<Rightarrow> string \<Rightarrow> string + CreateTransactionRequest" where
  "ShouldBindJSON E raw =
     (case dec_request (codec E) raw of
        Inl e \<Rightarrow> Inl e
      | Inr r \<Rightarrow> if valid_request r then Inr r else Inl (invalid_message (codec E) r))"

section \<open>CreateTransaction\<close>

text \<open>
  The user check on the read pool and the idempotency lookup.  \<open>Inl\<close> is an early answer, \<open>Inr\<close>
  the idempotency key, empty when the request has none.
\<close>

definition create_check ::
  "('r, 'q, 'b, 'l) env \<Rightarrow> string \<Rightarrow> CreateTransactionRequest \<Rightarrow>
     ('r, 'q, 'b, 'l, response + string) act" where
  "create_check E traceID req = do {
     ex \<leftarrow> query_row E (Read (DB E)) (sql_user_active (pg E) (req_UserID req));
     if ex \<noteq> Inr True then
       ret (Inl (json 422 [(''error'', JStr ''invalid user''),
         (''message'', JStr ''User not found or inactive''), (''trace_id'', JStr traceID)]))
     else if req_Idempotency req \<noteq> [] then do {
       let idempotencyKey = IdempotencyKey (req_UserID req) (req_Idempotency req);
       got \<leftarrow> cache_Get E (dec_id (codec E)) idempotencyKey;
       (case got of
          Inr (Some existingTxID) \<Rightarrow> do {
            count IdempotencyHitsTotal;
            ret (Inl (json 200 [(''id'', JStr existingTxID), (''status'', JStr ''already_processed''),
              (''message'', JStr ''Duplicate request detected, returning previous transaction ID''),
              (''trace_id'', JStr traceID), (''idempotent'', JBool True)]))
          }
        | _ \<Rightarrow> ret (Inr idempotencyKey))
     } else ret (Inr [])
   }"

definition error_message :: "('r, 'q, 'b, 'l) env \<Rightarrow> exec_error \<Rightarrow> string" where
  "error_message E err =
     (case err of Refused r \<Rightarrow> cb_message (cb E) r | Failure e \<Rightarrow> pg_message (pg E) e)"

definition reference_id :: "('r, 'q, 'b, 'l) env \<Rightarrow> time \<Rightarrow> string \<Rightarrow> string" where
  "reference_id E t txnID = ''REF-'' @ local_date E t @ ''-'' @ take 8 txnID"

text \<open>The insert on the write pool, in the database breaker.\<close>

definition create_insert ::
  "('r, 'q, 'b, 'l) env \<Rightarrow> CreateTransactionRequest \<Rightarrow> string \<Rightarrow> string \<Rightarrow>
     ('r, 'q, 'b, 'l, exec_error + unit) act" where
  "create_insert E req txnID refID =
     ExecuteWithCB E (do {
       e \<leftarrow> exec_statement E (Write (DB E))
         (sql_insert_transaction (pg E) Pending txnID (req_UserID req) (req_Type req)
            (req_Amount req) refID (req_Description req));
       ret (case e of None \<Rightarrow> Inr () | Some err \<Rightarrow> Inl err)
     })"

text \<open>The idempotency record, the message and the answer, after the insert succeeded.\<close>

definition create_finish ::
  "('r, 'q, 'b, 'l) env \<Rightarrow> string \<Rightarrow> CreateTransactionRequest \<Rightarrow> string \<Rightarrow> string \<Rightarrow> string \<Rightarrow>
     ('r, 'q, 'b, 'l, response) act" where
  "create_finish E traceID req idempotencyKey txnID refID = do {
     (if idempotencyKey \<noteq> [] then do {
        cache_Set E (enc_id (codec E)) idempotencyKey txnID (24 * hour);
        ret ()
      } else ret ());
     t \<leftarrow> now E;
     err \<leftarrow> Publish E \<lparr>msg_TransactionID = txnID, msg_UserID = req_UserID req,
       msg_Type = req_Type req, msg_Amount = req_Amount req, msg_Description = req_Description req,
       msg_TraceID = traceID, msg_CreatedAt = t\<rparr>;
     (case err of
        Some _ \<Rightarrow>
          ret (json 202 [(''id'', JStr txnID), (''status'', JStr ''pending''),
            (''reference_id'', JStr refID),
            (''message'', JStr ''Transaction created, queued for processing''),
            (''trace_id'', JStr traceID),
            (''warning'', JStr ''Queue unavailable, manual processing required'')])
      | None \<Rightarrow> do {
          count QueuePublishedTotal;
          count (TransactionsCreatedTotal (req_Type req) ''pending'');
          ret (json 202 [(''id'', JStr txnID), (''status'', JStr ''pending''),
            (''reference_id'', JStr refID),
            (''message'', JStr ''Transaction accepted and queued for processing''),
            (''trace_id'', JStr traceID)])
        })
   }"

definition create_write ::
  "('r, 'q, 'b, 'l) env \<Rightarrow> string \<Rightarrow> CreateTransactionRequest \<Rightarrow> string \<Rightarrow>
     ('r, 'q, 'b, 'l, response) act" where
  "create_write E traceID req idempotencyKey = do {
     txnID \<leftarrow> new_uuid E;
     t \<leftarrow> now E;
     let refID = reference_id E t txnID;
     r \<leftarrow> create_insert E req txnID refID;
     (case r of
        Inl err \<Rightarrow>
          ret (json 500 [(''error'', JStr ''failed to create transaction''),
            (''message'', JStr (error_message E err)), (''trace_id'', JStr traceID)])
      | Inr _ \<Rightarrow> create_finish E traceID req idempotencyKey txnID refID)
   }"

definition CreateTransaction :: "('r, 'q, 'b, 'l) env \<Rightarrow> ('r, 'q, 'b, 'l) handler" where
  "CreateTransaction E c =
     (let traceID = trace_id c in
      case ShouldBindJSON E (raw_body c) of
        Inl msg \<Rightarrow>
          ret (json 400 [(''error'', JStr ''invalid request''), (''message'', JStr msg),
            (''trace_id'', JStr traceID)])
      | Inr req \<Rightarrow> do {
          x \<leftarrow> create_check E traceID req;
          (case x of
             Inl early \<Rightarrow> ret early
           | Inr idempotencyKey \<Rightarrow> create_write E traceID req idempotencyKey)
        })"

section \<open>GetTransaction\<close>

definition transaction_response :: "pg_lib \<Rightarrow> txn_row \<Rightarrow> TransactionResponse" where
  "transaction_response P r =
     \<lparr>txn_ID = uuid_out P (row_id r), txn_UserID = uuid_out P (row_user r),
      txn_Type = row_type r, txn_Amount = scan_float P (row_amount r),
      txn_Status = status_text (row_status r),
      txn_ReferenceID = (case row_reference r of None \<Rightarrow> [] | Some s \<Rightarrow> s),
      txn_Description = (case row_description r of None \<Rightarrow> [] | Some s \<Rightarrow> s),
      txn_CreatedAt = row_created r, txn_UpdatedAt = row_updated r\<rparr>"

definition queryTransaction ::
  "('r, 'q, 'b, 'l) env \<Rightarrow> string \<Rightarrow> ('r, 'q, 'b, 'l, sql_error + TransactionResponse) act" where
  "queryTransaction E tid = do {
     x \<leftarrow> query_row E (Read (DB E)) (sql_select_transaction (pg E) tid);
     ret (case x of Inl e \<Rightarrow> Inl e | Inr r \<Rightarrow> Inr (transaction_response (pg E) r))
   }"

definition GetTransaction :: "('r, 'q, 'b, 'l) env \<Rightarrow> ('r, 'q, 'b, 'l) handler" where
  "GetTransaction E c =
     (let traceID = trace_id c; txnID = param_id c in
      if txnID = [] then
        ret (json 400 [(''error'', JStr ''missing transaction id''), (''trace_id'', JStr traceID)])
      else do {
        let cacheKey = TransactionKey txnID;
        got \<leftarrow> cache_Get E (dec_txn (codec E)) cacheKey;
        (case got of
           Inr (Some txn) \<Rightarrow> do {
             count (CacheHitsTotal ''transaction'');
             ret \<lparr>code = 200, headers = [(''X-Cache'', ''HIT'')], body = TxnBody txn\<rparr>
           }
         | _ \<Rightarrow> do {
             (case got of Inl _ \<Rightarrow> count (CacheMissesTotal ''transaction'') | _ \<Rightarrow> ret ());
             count (CacheMissesTotal ''transaction'');
             res \<leftarrow> ExecuteWithCB E (queryTransaction E txnID);
             (case res of
                Inl err \<Rightarrow>
                  if err = Failure ErrNoRows then
                    ret (json 404 [(''error'', JStr ''transaction not found''), (''trace_id'', JStr traceID)])
                  else
                    ret (json 500 [(''error'', JStr ''failed to fetch transaction''), (''trace_id'', JStr traceID)])
              | Inr txn \<Rightarrow> do {
                  cache_Set E (enc_txn (codec E)) cacheKey txn (DefaultTTL (getenv E));
                  ret \<lparr>code = 200, headers = [(''X-Cache'', ''MISS'')], body = TxnBody txn\<rparr>
                })
           })
      })"

section \<open>Creating: what each stretch does\<close>

lemma create_check_frame [framing]:
  "unchanged servers (create_check E tr req)" "unchanged broker (create_check E tr req)"
  "unchanged gates (create_check E tr req)" "unchanged n_uuid (create_check E tr req)"
  by (auto intro!: unchangedI simp: create_check_def running gates_def Let_def split: sum.split option.split)

lemma create_check_n_pg: "n_pg (exec (create_check E tr req) w) = Suc (n_pg w)"
  by (simp add: create_check_def running Let_def split: sum.split option.split)

lemma create_check_Inr:
  assumes "result (create_check E tr req) w = Inr k"
  shows "k = (if req_Idempotency req = [] then [] else IdempotencyKey (req_UserID req) (req_Idempotency req))
    \<and> sql_user_active (pg E) (req_UserID req) (servers w (Read (DB E))) = Inr True"
  using assms
  by (auto simp: create_check_def running Let_def split: if_splits sum.splits option.splits round_trip.splits)

lemma create_check_codes:
  "result (create_check E tr req) w = Inl r \<Longrightarrow> code r = 422 \<or> code r = 200"
  by (auto simp: create_check_def running Let_def split: if_splits sum.splits option.splits)

lemma create_insert_Inr:
  assumes "result (create_insert E req tid ref) w = Inr x"
  shows "\<exists>t tb. sql_insert_transaction (pg E) Pending tid (req_UserID req) (req_Type req)
      (req_Amount req) ref (req_Description req) t (servers w (Write (DB E))) = Inr tb \<and>
    servers (exec (create_insert E req tid ref) w) = (servers w)(Write (DB E) := tb)"
  using assms
  by (auto simp: create_insert_def ExecuteWithCB_result ExecuteWithCB_exec running
      split: sum.splits option.splits round_trip.splits)

lemma create_insert_Inl:
  assumes "result (create_insert E req tid ref) w = Inl e"
  shows "servers (exec (create_insert E req tid ref) w) = servers w \<or>
    (\<exists>m t tb. pg_fate (pg E) (n_pg w) = ReplyLost m \<and>
      sql_insert_transaction (pg E) Pending tid (req_UserID req) (req_Type req)
        (req_Amount req) ref (req_Description req) t (servers w (Write (DB E))) = Inr tb \<and>
      servers (exec (create_insert E req tid ref) w) = (servers w)(Write (DB E) := tb))"
  using assms
  by (auto simp: create_insert_def ExecuteWithCB_result ExecuteWithCB_exec running
      split: sum.splits option.splits round_trip.splits)

lemma create_insert_frame [framing]:
  "unchanged redis (create_insert E req tid ref)" "unchanged broker (create_insert E req tid ref)"
  "unchanged limiters (create_insert E req tid ref)"
  by (auto intro!: unchangedI simp: create_insert_def ExecuteWithCB_exec running split: sum.split)

lemma create_finish_code: "code (result (create_finish E tr req k tid ref) w) = 202"
  by (simp add: create_finish_def split: option.split)

lemma create_finish_fields:
  "field ''id'' (result (create_finish E tr req k tid ref) w) = Some (JStr tid)"
  "field ''status'' (result (create_finish E tr req k tid ref) w) = Some (JStr ''pending'')"
  "field ''reference_id'' (result (create_finish E tr req k tid ref) w) = Some (JStr ref)"
  "field ''trace_id'' (result (create_finish E tr req k tid ref) w) = Some (JStr tr)"
  by (simp_all add: create_finish_def split: option.split)

lemma create_finish_frame [framing]: "unchanged servers (create_finish E tr req k tid ref)"
  unfolding create_finish_def by (intro framing)

text \<open>
  The row a request stands for.  \<open>accepted\<close> says that a world differs from an earlier one in the
  database exactly by the pending row of a request.
\<close>

definition accepted ::
  "('r, 'q, 'b, 'l) env \<Rightarrow> CreateTransactionRequest \<Rightarrow> string \<Rightarrow>
     ('r, 'q, 'b, 'l) world \<Rightarrow> ('r, 'q, 'b, 'l) world \<Rightarrow> txn_row \<Rightarrow> bool" where
  "accepted E req tid w w' row \<longleftrightarrow>
     servers w' = (servers w)(Write (DB E) := (servers w (Write (DB E)))\<lparr>transactions :=
       transactions (servers w (Write (DB E))) @ [row]\<rparr>) \<and>
     uuid_in (pg E) tid = Some (row_id row) \<and>
     uuid_in (pg E) (req_UserID req) = Some (row_user row) \<and>
     row_type row = req_Type req \<and> row_status row = Pending \<and>
     row_amount row = round_cents (pq_float (pg E) (req_Amount req)) \<and> 0 < row_amount row \<and>
     (\<exists>t. row_reference row = Some (reference_id E t tid)) \<and> row_description row = Some (req_Description req) \<and>
     users (servers w (Write (DB E))) (row_user row) \<noteq> None"

section \<open>The message to the queue\<close>

text \<open>The message a creation hands to the queue, and how the broker receives it.\<close>

definition message_of :: "CreateTransactionRequest \<Rightarrow> string \<Rightarrow> string \<Rightarrow> time \<Rightarrow> TransactionMessage" where
  "message_of req txnID traceID t =
     \<lparr>msg_TransactionID = txnID, msg_UserID = req_UserID req, msg_Type = req_Type req,
      msg_Amount = req_Amount req, msg_Description = req_Description req,
      msg_TraceID = traceID, msg_CreatedAt = t\<rparr>"

definition to_publish :: "string \<Rightarrow> time \<Rightarrow> string \<Rightarrow> publishing" where
  "to_publish txnID t data =
     \<lparr>pub_ContentType = ''application/json'', pub_DeliveryMode = 2, pub_MessageId = txnID,
      pub_Timestamp = t, pub_Body = data\<rparr>"

text \<open>
  \<open>enqueued\<close>: between two worlds the one thing that happened to the broker is that the message of
  the request was sent to the queue, and \<open>ok\<close> says whether encoding and sending reported no error.
\<close>

definition enqueued ::
  "('r, 'q, 'b, 'l) env \<Rightarrow> CreateTransactionRequest \<Rightarrow> string \<Rightarrow> string \<Rightarrow>
     ('r, 'q, 'b, 'l) world \<Rightarrow> ('r, 'q, 'b, 'l) world \<Rightarrow> bool \<Rightarrow> bool" where
  "enqueued E req tid tr w w' ok \<longleftrightarrow>
     (\<exists>t t'. case enc_msg (codec E) (message_of req tid tr t) of
        Inl _ \<Rightarrow> \<not> ok \<and> broker w' = broker w
      | Inr data \<Rightarrow>
          (ok \<longleftrightarrow> fst (mq_publish (mq E) [] (queue_name (getenv E)) True False (to_publish tid t' data) (broker w)) = None) \<and>
          broker w' = snd (mq_publish (mq E) [] (queue_name (getenv E)) True False (to_publish tid t' data) (broker w)))"

lemma enqueued_same:
  assumes "broker u = broker w"
  shows "enqueued E req tid tr u w' ok = enqueued E req tid tr w w' ok"
  unfolding enqueued_def assms by (rule refl)

lemma enqueued_sent:
  assumes "enqueued E req tid tr w w' True"
  obtains t t' data where "enc_msg (codec E) (message_of req tid tr t) = Inr data"
    and "fst (mq_publish (mq E) [] (queue_name (getenv E)) True False (to_publish tid t' data) (broker w)) = None"
    and "broker w' = snd (mq_publish (mq E) [] (queue_name (getenv E)) True False (to_publish tid t' data) (broker w))"
proof -
  from assms obtain t t' where "case enc_msg (codec E) (message_of req tid tr t) of Inl _ \<Rightarrow> False
      | Inr data \<Rightarrow> fst (mq_publish (mq E) [] (queue_name (getenv E)) True False (to_publish tid t' data) (broker w)) = None \<and>
          broker w' = snd (mq_publish (mq E) [] (queue_name (getenv E)) True False (to_publish tid t' data) (broker w))"
    unfolding enqueued_def by (auto split: sum.splits)
  then show thesis
    using that by (cases "enc_msg (codec E) (message_of req tid tr t)") auto
qed

lemma counter_gauge_calls [simp]:
  "counter QueuePublishedTotal (gauge_calls n chs) = 0" "counter IdempotencyHitsTotal (gauge_calls n chs) = 0"
  by (induction chs) (auto simp: gauge_calls_def)

lemma create_insert_published:
  "counter QueuePublishedTotal (mtrace (exec (create_insert E req tid ref) w)) = counter QueuePublishedTotal (mtrace w)"
  by (simp add: create_insert_def ExecuteWithCB_exec running split: sum.split)

lemma create_check_published:
  "counter QueuePublishedTotal (mtrace (exec (create_check E tr req) w)) = counter QueuePublishedTotal (mtrace w)"
  by (simp add: create_check_def running Let_def split: sum.split option.split)

lemma create_finish_queue:
  "enqueued E req tid tr w (exec (create_finish E tr req k tid ref) w)
     (field ''warning'' (result (create_finish E tr req k tid ref) w) = None) \<and>
   counter QueuePublishedTotal (mtrace (exec (create_finish E tr req k tid ref) w)) =
     counter QueuePublishedTotal (mtrace w) +
     (if field ''warning'' (result (create_finish E tr req k tid ref) w) = None then 1 else 0)"
proof -
  let ?v = "exec (if k \<noteq> [] then do { cache_Set E (enc_id (codec E)) k tid (24 * hour); ret () } else ret ()) w"
  let ?tail = "\<lambda>k. create_finish E tr req k tid ref"
  have v: "broker ?v = broker w" "mtrace ?v = mtrace w"
    by (simp_all add: running split: sum.split)
  have run: "result (?tail k) w = result (?tail []) ?v" "exec (?tail k) w = exec (?tail []) ?v"
    by (simp_all add: create_finish_def)
  have tail: "enqueued E req tid tr u (exec (?tail []) u) (field ''warning'' (result (?tail []) u) = None) \<and>
      counter QueuePublishedTotal (mtrace (exec (?tail []) u)) = counter QueuePublishedTotal (mtrace u) +
        (if field ''warning'' (result (?tail []) u) = None then 1 else 0)" for u
    unfolding enqueued_def
    by (intro conjI exI[of _ "clock E (ticks u)"] exI[of _ "clock E (Suc (ticks u))"])
      (auto simp: create_finish_def message_of_def to_publish_def now_run Publish_run count_run
        split: sum.split option.split)
  show ?thesis
    using tail[of ?v] enqueued_same[OF v(1)] unfolding run v(2) by blast
qed

section \<open>The outcome of a creation\<close>

lemma insert_accepted:
  assumes "sql_insert_transaction (pg E) Pending tid (req_UserID req) (req_Type req) (req_Amount req)
      (reference_id E t tid) (req_Description req) t' (servers w (Write (DB E))) = Inr tb"
    and "servers w' = (servers w)(Write (DB E) := tb)"
  shows "\<exists>row. accepted E req tid w w' row \<and> row_reference row = Some (reference_id E t tid)"
proof -
  from assms(1) obtain i u c where "uuid_in (pg E) tid = Some i" "uuid_in (pg E) (req_UserID req) = Some u"
    "round_cents (pq_float (pg E) (req_Amount req)) = c" "0 < c" "users (servers w (Write (DB E))) u \<noteq> None"
    "tb = (servers w (Write (DB E)))\<lparr>transactions := transactions (servers w (Write (DB E))) @
          [\<lparr>row_id = i, row_user = u, row_type = req_Type req, row_amount = c, row_status = Pending,
            row_reference = Some (reference_id E t tid), row_description = Some (req_Description req),
            row_created = timestamptz t', row_updated = timestamptz t'\<rparr>]\<rparr>"
    by (rule insert_Inr)
  then show ?thesis
    using assms(2)
    by (intro exI[of _ "\<lparr>row_id = i, row_user = u, row_type = req_Type req, row_amount = c, row_status = Pending,
            row_reference = Some (reference_id E t tid), row_description = Some (req_Description req),
            row_created = timestamptz t', row_updated = timestamptz t'\<rparr>"]) (auto simp: accepted_def)
qed

lemma create_write_202:
  assumes "code (result (create_write E tr req k) w) = 202"
  shows "\<exists>row. accepted E req (uuid_new E (n_uuid w)) w (exec (create_write E tr req k) w) row \<and>
    field ''id'' (result (create_write E tr req k) w) = Some (JStr (uuid_new E (n_uuid w))) \<and>
    field ''reference_id'' (result (create_write E tr req k) w) = map_option JStr (row_reference row) \<and>
    enqueued E req (uuid_new E (n_uuid w)) tr w (exec (create_write E tr req k) w)
      (field ''warning'' (result (create_write E tr req k) w) = None) \<and>
    counter QueuePublishedTotal (mtrace (exec (create_write E tr req k) w)) = counter QueuePublishedTotal (mtrace w) +
      (if field ''warning'' (result (create_write E tr req k) w) = None then 1 else 0)"
proof -
  let ?tid = "uuid_new E (n_uuid w)"
  let ?w = "w\<lparr>n_uuid := Suc (n_uuid w), ticks := Suc (ticks w)\<rparr>"
  let ?ref = "reference_id E (clock E (ticks w)) ?tid"
  let ?i = "create_insert E req ?tid ?ref"
  from assms obtain x where x: "result ?i ?w = Inr x"
    by (auto simp: create_write_def running Let_def split: sum.splits)
  from create_insert_Inr[OF x] obtain t tb where ins:
    "sql_insert_transaction (pg E) Pending ?tid (req_UserID req) (req_Type req)
      (req_Amount req) ?ref (req_Description req) t (servers w (Write (DB E))) = Inr tb"
    and "servers (exec ?i ?w) = (servers w)(Write (DB E) := tb)" by auto
  then have srv: "servers (exec (create_write E tr req k) w) = (servers w)(Write (DB E) := tb)"
    using x by (simp add: create_write_def running Let_def unchangedD[OF create_finish_frame])
  let ?u = "exec ?i ?w"
  let ?fin = "create_finish E tr req k ?tid ?ref"
  have run: "result (create_write E tr req k) w = result ?fin ?u" "exec (create_write E tr req k) w = exec ?fin ?u"
    using x by (simp_all add: create_write_def running Let_def)
  have same: "broker ?u = broker w" "counter QueuePublishedTotal (mtrace ?u) = counter QueuePublishedTotal (mtrace w)"
    by (simp_all add: unchangedD[OF create_insert_frame(2)] create_insert_published)
  note sent = create_finish_queue[of E req ?tid tr ?u k ?ref]
  have queue: "enqueued E req ?tid tr w (exec ?fin ?u) (field ''warning'' (result ?fin ?u) = None)"
    using conjunct1[OF sent] unfolding enqueued_same[OF same(1)] .
  have counted: "counter QueuePublishedTotal (mtrace (exec ?fin ?u)) = counter QueuePublishedTotal (mtrace w) +
      (if field ''warning'' (result ?fin ?u) = None then 1 else 0)"
    using conjunct2[OF sent] unfolding same(2) .
  have "\<exists>row. accepted E req ?tid w (exec (create_write E tr req k) w) row \<and> row_reference row = Some ?ref"
    by (rule insert_accepted[OF ins srv])
  then obtain row where "accepted E req ?tid w (exec (create_write E tr req k) w) row" "row_reference row = Some ?ref"
    by blast
  then show ?thesis
    using queue counted unfolding run by (intro exI[of _ row]) (simp add: create_finish_fields)
qed

lemma create_write_other:
  assumes "code (result (create_write E tr req k) w) \<noteq> 202"
  shows "code (result (create_write E tr req k) w) = 500 \<and>
    broker (exec (create_write E tr req k) w) = broker w \<and>
    (servers (exec (create_write E tr req k) w) = servers w \<or>
     (\<exists>m row. pg_fate (pg E) (n_pg w) = ReplyLost m \<and>
       accepted E req (uuid_new E (n_uuid w)) w (exec (create_write E tr req k) w) row))"
proof -
  let ?tid = "uuid_new E (n_uuid w)"
  let ?w = "w\<lparr>n_uuid := Suc (n_uuid w), ticks := Suc (ticks w)\<rparr>"
  let ?i = "create_insert E req ?tid (reference_id E (clock E (ticks w)) ?tid)"
  from assms obtain e where e: "result ?i ?w = Inl e"
    by (auto simp: create_write_def running Let_def create_finish_code split: sum.splits)
  then have run: "exec (create_write E tr req k) w = exec ?i ?w"
    "code (result (create_write E tr req k) w) = 500"
    by (simp_all add: create_write_def running Let_def)
  have "broker (exec ?i ?w) = broker w"
    using unchangedD[OF create_insert_frame(2), of E req _ _ ?w] by simp
  with create_insert_Inl[OF e] run show ?thesis
    by (auto dest: insert_accepted)
qed

lemma create_result:
  "result (CreateTransaction E c) w =
     (case ShouldBindJSON E (raw_body c) of
        Inl msg \<Rightarrow> json 400 [(''error'', JStr ''invalid request''), (''message'', JStr msg),
          (''trace_id'', JStr (trace_id c))]
      | Inr req \<Rightarrow>
          (case result (create_check E (trace_id c) req) w of
             Inl early \<Rightarrow> early
           | Inr k \<Rightarrow> result (create_write E (trace_id c) req k) (exec (create_check E (trace_id c) req) w)))"
  by (simp add: CreateTransaction_def Let_def split: sum.split)

lemma create_exec:
  "exec (CreateTransaction E c) w =
     (case ShouldBindJSON E (raw_body c) of
        Inl msg \<Rightarrow> w
      | Inr req \<Rightarrow>
          (case result (create_check E (trace_id c) req) w of
             Inl early \<Rightarrow> exec (create_check E (trace_id c) req) w
           | Inr k \<Rightarrow> exec (create_write E (trace_id c) req k) (exec (create_check E (trace_id c) req) w)))"
  by (simp add: CreateTransaction_def Let_def split: sum.split)

lemma bind_valid: "ShouldBindJSON E raw = Inr req \<Longrightarrow> valid_request req"
  by (auto simp: ShouldBindJSON_def split: sum.splits if_splits)

lemma accepted_same_servers:
  "servers w = servers v \<Longrightarrow> accepted E req tid w w' row = accepted E req tid v w' row"
  by (simp add: accepted_def)

section \<open>Properties of the write path\<close>

text \<open>
  C3: The status code of a creation tells exactly what happened to the ledger and to the queue.
  202: the request was valid; one pending row with its user, type, rounded positive amount,
  description and reference was appended on the write server and nothing else on any server
  changed; the answer carries the row's id and reference; and one message with that id and the
  user, type, amount and description of the request was handed to the channel for the queue, the
  answer having no warning exactly when that reported no error.  Any other code: nothing was handed
  to the channel and no server changed, except that a 500 can follow an insert whose answer was
  lost, which appended exactly such a row.
\<close>

theorem create_outcome:
  fixes E :: "('r, 'q, 'b, 'l) env" and w :: "('r, 'q, 'b, 'l) world" and c :: gin_ctx
  defines "r \<equiv> result (CreateTransaction E c) w" and "w' \<equiv> exec (CreateTransaction E c) w"
  shows "code r \<in> {200, 202, 400, 422, 500} \<and>
    (code r = 202 \<longrightarrow> (\<exists>req tid row. ShouldBindJSON E (raw_body c) = Inr req \<and> valid_request req \<and>
       field ''id'' r = Some (JStr tid) \<and> field ''reference_id'' r = map_option JStr (row_reference row) \<and>
       accepted E req tid w w' row \<and>
       enqueued E req tid (trace_id c) w w' (field ''warning'' r = None))) \<and>
    (code r \<noteq> 202 \<longrightarrow> broker w' = broker w \<and>
       (servers w' = servers w \<or>
        code r = 500 \<and> (\<exists>m req tid row. pg_fate (pg E) (Suc (n_pg w)) = ReplyLost m \<and>
          ShouldBindJSON E (raw_body c) = Inr req \<and> accepted E req tid w w' row)))"
proof (cases "ShouldBindJSON E (raw_body c)")
  case (Inl msg)
  then show ?thesis by (simp add: r_def w'_def create_result create_exec)
next
  case (Inr req)
  let ?chk = "create_check E (trace_id c) req"
  let ?v = "exec ?chk w"
  have same: "servers ?v = servers w" "broker ?v = broker w" "n_pg ?v = Suc (n_pg w)"
    by (simp_all add: unchangedD[OF create_check_frame(1)] unchangedD[OF create_check_frame(2)] create_check_n_pg)
  show ?thesis
  proof (cases "result ?chk w")
    case (Inl early)
    then show ?thesis
      using Inr same create_check_codes[OF Inl] by (auto simp: r_def w'_def create_result create_exec)
  next
    case (Inr k)
    let ?wr = "create_write E (trace_id c) req k"
    have run: "r = result ?wr ?v" "w' = exec ?wr ?v"
      using Inr \<open>ShouldBindJSON E (raw_body c) = Inr req\<close> by (simp_all add: r_def w'_def create_result create_exec)
    show ?thesis
    proof (cases "code (result ?wr ?v) = 202")
      case True
      from create_write_202[OF True] show ?thesis
        using True run same bind_valid[OF \<open>ShouldBindJSON E (raw_body c) = Inr req\<close>]
          \<open>ShouldBindJSON E (raw_body c) = Inr req\<close> accepted_same_servers[of ?v w] enqueued_same[OF same(2)] by auto
    next
      case False
      from create_write_other[OF False] show ?thesis
        using False run same \<open>ShouldBindJSON E (raw_body c) = Inr req\<close> accepted_same_servers[of ?v w]
        by auto
    qed
  qed
qed

lemma sample_valid: "valid_request sample_request"
  by (simp add: valid_request_def sample_request_def)

lemma sample_dec2 [simp]:
  "dec_nat 2 = ''2''" "dec_nat (Suc (Suc 0)) = ''2''" "dec_nat 3 = ''3''" "dec_nat (Suc (Suc (Suc 0))) = ''3''"
  by code_simp+

lemma sample_bind [simp]: "ShouldBindJSON (sample_env_with f) ''R'' = Inr sample_request"
  by (simp add: ShouldBindJSON_def sample_valid)

lemma sample_cents: "numeric_18_2 (5 / 2) = Inr 250"
  using round_cents_int[of "5 / 2" 250] by (simp add: numeric_18_2_def fits_18_2_def)

theorem create_outcome_witness:
  "code (result (CreateTransaction sample_env sample_ctx) sample_world) = 202 \<and>
   (\<exists>row. accepted sample_env sample_request ''2'' sample_world
      (exec (CreateTransaction sample_env sample_ctx) sample_world) row \<and>
    enqueued sample_env sample_request ''2'' ''t'' sample_world
      (exec (CreateTransaction sample_env sample_ctx) sample_world)
      (field ''warning'' (result (CreateTransaction sample_env sample_ctx) sample_world) = None))"
proof -
  have f: "text_ok ''debit''" "text_ok ''REF-20260101-2''" "text_ok ''rent''" "type_check ''debit''"
    by (simp_all add: text_ok_def type_check_def char_of_def)
  have r: "code (result (CreateTransaction sample_env sample_ctx) sample_world) = 202 \<and>
    field ''id'' (result (CreateTransaction sample_env sample_ctx) sample_world) = Some (JStr ''2'')"
    using sample_cents f
    by (simp add: create_result create_check_def create_write_def create_insert_def Let_def running
        ExecuteWithCB_result create_finish_code create_finish_fields sample_rows sql_user_active_def
        sql_insert_transaction_def reference_id_def IdempotencyKey_def)
  then show ?thesis
    using create_outcome [of sample_env sample_ctx sample_world] by auto
qed

lemma create_write_redis:
  assumes "code (result (create_write E tr req k) w) = 202" and "k \<noteq> []"
    and "enc_id (codec E) (uuid_new E (n_uuid w)) = Inr data"
  shows "\<exists>n r. ticks w \<le> n \<and> n \<le> ticks (exec (create_write E tr req k) w) \<and>
    redis (exec (create_write E tr req k) w) = snd (rd_set (rds E) k data (24 * hour) (clock E n) r)"
proof -
  let ?w = "w\<lparr>n_uuid := Suc (n_uuid w), ticks := Suc (ticks w)\<rparr>"
  let ?tid = "uuid_new E (n_uuid w)"
  let ?ref = "reference_id E (clock E (ticks w)) ?tid"
  let ?i = "create_insert E req ?tid ?ref"
  from assms(1) obtain x where x: "result ?i ?w = Inr x"
    by (auto simp: create_write_def running Let_def split: sum.splits)
  have t: "ticks w \<le> ticks (exec ?i ?w)"
    by (simp add: create_insert_def ExecuteWithCB_exec running split: sum.split)
  have fin: "redis (exec (create_finish E tr req k ?tid ?ref) v) =
      snd (rd_set (rds E) k data (24 * hour) (clock E (ticks v)) (redis v)) \<and>
      ticks v \<le> ticks (exec (create_finish E tr req k ?tid ?ref) v)" for v
    using assms(2,3) by (simp add: create_finish_def running split: option.split sum.split)
  have "exec (create_write E tr req k) w = exec (create_finish E tr req k ?tid ?ref) (exec ?i ?w)"
    using x by (simp add: create_write_def running Let_def)
  then show ?thesis using t fin[of "exec ?i ?w"] by auto
qed

text \<open>
  C5: Idempotency, sequentially.  A retry with the same user and idempotency key, after a creation
  that was accepted and within 24 hours of it, is answered 200 with the id of the first
  transaction; it inserts no row and publishes no message.  This needs Redis to keep what it
  accepted until it expires, the lookup of the user to be answered, and a clock that does not run
  backwards.
\<close>

theorem idempotent_retry:
  assumes bound: "ShouldBindJSON E (raw_body c) = Inr req" "ShouldBindJSON E (raw_body d) = Inr req'"
    and key: "req_Idempotency req \<noteq> []" "req_Idempotency req' = req_Idempotency req"
      "req_UserID req' = req_UserID req"
    and first: "code (result (CreateTransaction E c) w) = 202"
    and remembers: "redis_remembers (rds E)" "\<And>k v t r. fst (rd_set (rds E) k v (24 * hour) t r) = None"
    and ids: "\<And>s. \<exists>data. enc_id (codec E) s = Inr data \<and> dec_id (codec E) data = Inr s"
    and clock: "\<And>m n. m \<le> n \<Longrightarrow> clock E m \<le> clock E n"
      "clock E (ticks (exec (CreateTransaction E c) w)) < clock E (ticks w) + sint (24 * hour)"
    and lookup: "pg_fate (pg E) (n_pg (exec (CreateTransaction E c) w)) = Answered"
  defines "w' \<equiv> exec (CreateTransaction E c) w"
  shows "code (result (CreateTransaction E d) w') = 200 \<and>
    field ''id'' (result (CreateTransaction E d) w') = field ''id'' (result (CreateTransaction E c) w) \<and>
    servers (exec (CreateTransaction E d) w') = servers w' \<and>
    broker (exec (CreateTransaction E d) w') = broker w'"
proof -
  let ?chk = "create_check E (trace_id c) req"
  let ?v = "exec ?chk w"
  let ?key = "IdempotencyKey (req_UserID req) (req_Idempotency req)"
  obtain k where k: "result ?chk w = Inr k"
    using first create_check_codes[of E "trace_id c" req w] bound(1)
    by (cases "result ?chk w") (auto simp: create_result)
  from create_check_Inr[OF k] key(1) have kk: "k = ?key"
    and active: "sql_user_active (pg E) (req_UserID req) (servers w (Read (DB E))) = Inr True" by auto
  let ?wr = "create_write E (trace_id c) req ?key"
  have run: "result (CreateTransaction E c) w = result ?wr ?v" "w' = exec ?wr ?v"
    using bound(1) k kk by (simp_all add: create_result create_exec w'_def)
  have c202: "code (result ?wr ?v) = 202" using first run by simp
  let ?tid = "uuid_new E (n_uuid ?v)"
  from create_write_202[OF c202] obtain row where
    acc: "accepted E req ?tid ?v w' row" and fid: "field ''id'' (result ?wr ?v) = Some (JStr ?tid)"
    using run by auto
  from ids obtain data where data: "enc_id (codec E) ?tid = Inr data" "dec_id (codec E) data = Inr ?tid"
    by blast
  from create_write_redis[OF c202 _ data(1)] obtain n r where
    n: "ticks ?v \<le> n" "n \<le> ticks w'" "redis w' = snd (rd_set (rds E) ?key data (24 * hour) (clock E n) r)"
    using run by auto
  have "ticks w \<le> ticks ?v"
    by (simp add: create_check_def running Let_def split: sum.split option.split)
  then have "clock E (ticks w') < clock E n + sint (24 * hour)" and "clock E n \<le> clock E (ticks w')"
    using clock(1)[of "ticks w" n] clock(1)[OF n(2)] n(1) clock(2) by (simp_all add: w'_def)
  then have got: "fst (rd_get (rds E) ?key (clock E (ticks w')) (redis w')) = RedisBytes data"
    using remembers unfolding redis_remembers_def n(3) by blast
  have "users (servers w' (Read (DB E))) = users (servers w (Read (DB E)))"
    using acc unchangedD[OF create_check_frame(1), of E "trace_id c" req w] by (auto simp: accepted_def)
  then have active': "sql_user_active (pg E) (req_UserID req) (servers w' (Read (DB E))) = Inr True"
    using active by (auto simp: sql_user_active_def split: option.splits)
  have chk: "result (create_check E (trace_id d) req') w' = Inl (json 200 [(''id'', JStr ?tid), (''status'', JStr ''already_processed''),
      (''message'', JStr ''Duplicate request detected, returning previous transaction ID''),
      (''trace_id'', JStr (trace_id d)), (''idempotent'', JBool True)])"
    using lookup active' got data(2) key by (simp add: create_check_def running Let_def w'_def [symmetric])
  then show ?thesis
    using bound(2) run fid unchangedD[OF create_check_frame(1), of E "trace_id d" req' w']
      unchangedD[OF create_check_frame(2), of E "trace_id d" req' w']
    by (simp add: create_result create_exec)
qed

theorem idempotent_retry_witness:
  "field ''id'' (result (CreateTransaction sample_env sample_ctx) (exec (CreateTransaction sample_env sample_ctx) sample_world))
    = field ''id'' (result (CreateTransaction sample_env sample_ctx) sample_world)"
proof -
  let ?w = "exec (CreateTransaction sample_env sample_ctx) sample_world"
  have f: "text_ok ''debit''" "text_ok ''REF-20260101-2''" "text_ok ''rent''" "type_check ''debit''"
    by (simp_all add: text_ok_def type_check_def char_of_def)
  have r: "code (result (CreateTransaction sample_env sample_ctx) sample_world) = 202"
    and t: "ticks ?w = 8"
    using sample_cents f
    by (simp_all add: create_result create_exec create_check_def create_write_def create_insert_def Let_def running
        ExecuteWithCB_result ExecuteWithCB_exec create_finish_code create_finish_def sample_rows sql_user_active_def
        sql_insert_transaction_def reference_id_def IdempotencyKey_def)
  have m: "redis_remembers (rds sample_env)"
    by (auto simp: redis_remembers_def)
  have "code (result (CreateTransaction sample_env sample_ctx) ?w) = 200 \<and>
    field ''id'' (result (CreateTransaction sample_env sample_ctx) ?w)
      = field ''id'' (result (CreateTransaction sample_env sample_ctx) sample_world) \<and>
    servers (exec (CreateTransaction sample_env sample_ctx) ?w) = servers ?w \<and>
    broker (exec (CreateTransaction sample_env sample_ctx) ?w) = broker ?w"
    using r t m
    by (intro idempotent_retry [of sample_env sample_ctx sample_request sample_ctx sample_request])
      (simp_all add: sample_request_def numeral_seconds)
  then show ?thesis by simp
qed

section \<open>Reading: the shared contract\<close>

lemma queryTransaction_run:
  "result (queryTransaction E tid) w =
     (case pg_fate (pg E) (n_pg w) of
        Answered \<Rightarrow>
          (case sql_select_transaction (pg E) tid (servers w (Read (DB E))) of
             Inl e \<Rightarrow> Inl e
           | Inr r \<Rightarrow> Inr (transaction_response (pg E) r))
      | RequestLost e \<Rightarrow> Inl (DriverError e)
      | ReplyLost e \<Rightarrow> Inl (DriverError e))"
  "exec (queryTransaction E tid) w = w\<lparr>n_pg := Suc (n_pg w)\<rparr>"
  by (simp_all add: queryTransaction_def running split: round_trip.split)

interpretation transaction_read: cached_read E "GetTransaction E" TransactionKey
    "enc_txn (codec E)" "dec_txn (codec E)" "queryTransaction E"
    "ret" TxnBody "''transaction''"
  for E :: "('r, 'q, 'b, 'l) env"
proof
  fix c :: gin_ctx and w :: "('r, 'q, 'b, 'l) world"
  assume "param_id c = []"
  then show "code (result (GetTransaction E c) w) = 400 \<and> exec (GetTransaction E c) w = w"
    by (simp add: GetTransaction_def Let_def)
next
  fix c :: gin_ctx and w :: "('r, 'q, 'b, 'l) world" and v
  assume "param_id c \<noteq> []"
    and "result (cache_Get E (dec_txn (codec E)) (TransactionKey (param_id c))) w = Inr (Some v)"
  then show "result (GetTransaction E c) w = answer ''HIT'' (TxnBody v) \<and>
      exec (GetTransaction E c) w = exec (count (CacheHitsTotal ''transaction''))
        (exec (cache_Get E (dec_txn (codec E)) (TransactionKey (param_id c))) w)"
    by (simp add: GetTransaction_def Let_def answer_def)
next
  fix c :: gin_ctx and w w' :: "('r, 'q, 'b, 'l) world" and got err
  assume id: "param_id c \<noteq> []"
    and got: "result (cache_Get E (dec_txn (codec E)) (TransactionKey (param_id c))) w = got"
    and miss: "\<And>v. got \<noteq> Inr (Some v)"
    and w': "w' = missed ''transaction'' (misses got)
      (exec (cache_Get E (dec_txn (codec E)) (TransactionKey (param_id c))) w)"
    and err: "result (ExecuteWithCB E (queryTransaction E (param_id c))) w' = Inl err"
  from miss have "(\<exists>e. got = Inl e) \<or> got = Inr None" by (metis option.exhaust sum.exhaust)
  then show "code (result (GetTransaction E c) w) = (if err = Failure ErrNoRows then 404 else 500) \<and>
      exec (GetTransaction E c) w = exec (ExecuteWithCB E (queryTransaction E (param_id c))) w'"
    using id got err unfolding w'
    by (auto simp: GetTransaction_def Let_def count_run missed_def misses_def numeral_2_eq_2)
next
  fix c :: gin_ctx and w w' w'' :: "('r, 'q, 'b, 'l) world" and got x v
  assume id: "param_id c \<noteq> []"
    and got: "result (cache_Get E (dec_txn (codec E)) (TransactionKey (param_id c))) w = got"
    and miss: "\<And>v. got \<noteq> Inr (Some v)"
    and w': "w' = missed ''transaction'' (misses got)
      (exec (cache_Get E (dec_txn (codec E)) (TransactionKey (param_id c))) w)"
    and ok: "result (ExecuteWithCB E (queryTransaction E (param_id c))) w' = Inr x"
    and w'': "w'' = exec (ret x)
      (exec (ExecuteWithCB E (queryTransaction E (param_id c))) w')"
    and v: "v = result (ret x)
      (exec (ExecuteWithCB E (queryTransaction E (param_id c))) w')"
  from miss have "(\<exists>e. got = Inl e) \<or> got = Inr None" by (metis option.exhaust sum.exhaust)
  then show "result (GetTransaction E c) w = answer ''MISS'' (TxnBody v) \<and>
      exec (GetTransaction E c) w =
        exec (cache_Set E (enc_txn (codec E)) (TransactionKey (param_id c)) v (DefaultTTL (getenv E))) w''"
    using id got ok unfolding w' w'' v
    by (auto simp: GetTransaction_def Let_def count_run missed_def misses_def answer_def numeral_2_eq_2)
qed (auto intro!: unchangedI simp: queryTransaction_run running stores_def)

section \<open>Properties of the transaction read\<close>

lemma transaction_miss_value:
  assumes "param_id c \<noteq> []"
    and "fst (rd_get (rds E) (TransactionKey (param_id c)) (clock E (ticks w)) (redis w)) = RedisNil"
    and "fst (cb_allow (cb E) (clock E (Suc (ticks w))) (dbCircuitBreaker w)) = Inr gen"
    and "pg_fate (pg E) (n_pg w) = Answered"
  shows "case sql_select_transaction (pg E) (param_id c) (servers w (Read (DB E))) of
      Inl e \<Rightarrow> code (result (GetTransaction E c) w) = (if e = ErrNoRows then 404 else 500)
    | Inr r \<Rightarrow> result (GetTransaction E c) w = answer ''MISS'' (TxnBody (transaction_response (pg E) r))"
proof -
  let ?w = "missed ''transaction'' (misses (Inr None :: cache_error + TransactionResponse option))
    (exec (cache_Get E (dec_txn (codec E)) (TransactionKey (param_id c))) w)"
  have miss: "result (cache_Get E (dec_txn (codec E)) (TransactionKey (param_id c))) w = Inr None"
    using assms(2) by (simp add: running)
  have q: "result (ExecuteWithCB E (queryTransaction E (param_id c))) ?w =
      (case sql_select_transaction (pg E) (param_id c) (servers w (Read (DB E))) of
         Inl e \<Rightarrow> Inl (Failure e)
       | Inr r \<Rightarrow> Inr (transaction_response (pg E) r))"
    using assms(3,4)
    by (simp add: ExecuteWithCB_result queryTransaction_run running split: sum.split)
  show ?thesis
  proof (cases "sql_select_transaction (pg E) (param_id c) (servers w (Read (DB E)))")
    case (Inl e)
    with q transaction_read.failed[OF assms(1) miss _ refl, of "Failure e"] show ?thesis by auto
  next
    case (Inr r)
    from Inr q transaction_read.found[OF assms(1) miss _ refl _ refl refl] show ?thesis by auto
  qed
qed

text \<open>
  C29: The transaction endpoint, when Redis has no entry, the breaker admits the call and the read
  server answers: a malformed id gives 500, an id of no row 404, and otherwise the answer is 200
  with \<open>X-Cache: MISS\<close> and the fields of the first stored row of that id, absent reference and
  description becoming empty strings.
\<close>

theorem transaction_miss_answer:
  assumes "param_id c \<noteq> []"
    and "fst (rd_get (rds E) (TransactionKey (param_id c)) (clock E (ticks w)) (redis w)) = RedisNil"
    and "fst (cb_allow (cb E) (clock E (Suc (ticks w))) (dbCircuitBreaker w)) = Inr gen"
    and "pg_fate (pg E) (n_pg w) = Answered"
  shows "case uuid_in (pg E) (param_id c) of
      None \<Rightarrow> code (result (GetTransaction E c) w) = 500
    | Some i \<Rightarrow>
        (case filter (\<lambda>r. row_id r = i) (transactions (servers w (Read (DB E)))) of
           [] \<Rightarrow> code (result (GetTransaction E c) w) = 404
         | r # _ \<Rightarrow> result (GetTransaction E c) w =
             answer ''MISS'' (TxnBody (transaction_response (pg E) r)))"
  using transaction_miss_value[OF assms]
  by (auto simp: sql_select_transaction_def find_filter split: option.splits list.splits)

theorem transaction_miss_answer_witness:
  "result (GetTransaction sample_env sample_ctx) sample_world =
     answer ''MISS'' (TxnBody sample_txn) \<and>
   code (result (GetTransaction sample_env (sample_ctx\<lparr>param_id := ''2''\<rparr>)) sample_world) = 404 \<and>
   code (result (GetTransaction sample_env (sample_ctx\<lparr>param_id := ''x''\<rparr>)) sample_world) = 500"
proof -
  have d: "dec_nat 7 = ''7''" "dec_nat 1 = ''1''" "dec_nat (Suc 0) = ''1''" by code_simp+
  show ?thesis
    using transaction_miss_answer [of sample_ctx sample_env sample_world 0]
      transaction_miss_answer [of "sample_ctx\<lparr>param_id := ''2''\<rparr>" sample_env sample_world 0]
      transaction_miss_answer [of "sample_ctx\<lparr>param_id := ''x''\<rparr>" sample_env sample_world 0]
    by (simp add: sample_rows d transaction_response_def sample_txn_def)
qed

text \<open>
  C28: Read-through: a transaction that was just read from the database is answered from the cache
  by the next read of it, with the same body, as long as the clock has not passed the lifetime of
  the entry and Redis keeps what it accepted.
\<close>

theorem transaction_served_again:
  assumes "result (GetTransaction E c) w = answer ''MISS'' (TxnBody v)"
    and "param_id d = param_id c"
    and "enc_txn (codec E) v = Inr s" and "dec_txn (codec E) s = Inr v"
    and "redis_remembers (rds E)"
    and "\<And>k s t r. fst (rd_set (rds E) k s (DefaultTTL (getenv E)) t r) = None"
    and "\<And>m n. m \<le> n \<Longrightarrow> clock E m \<le> clock E n"
    and "ticks (exec (GetTransaction E c) w) = Suc n"
    and "clock E (Suc n) < clock E n + sint (DefaultTTL (getenv E))"
  shows "result (GetTransaction E d) (exec (GetTransaction E c) w) = answer ''HIT'' (TxnBody v)"
  using transaction_read.served_again[OF assms(1) _ assms(2-9)] by (simp add: inj_def)

theorem transaction_served_again_witness:
  "result (GetTransaction sample_env sample_ctx) (exec (GetTransaction sample_env sample_ctx) sample_world)
     = answer ''HIT'' (TxnBody sample_txn)"
proof -
  have d: "dec_nat 7 = ''7''" "dec_nat 1 = ''1''" "dec_nat (Suc 0) = ''1''" by code_simp+
  have q: "transaction_response (sample_pg f) sample_row = sample_txn" for f
    by (simp add: transaction_response_def sample_txn_def sample_row_def d)
  have one: "row_id sample_row = Suc 0" by (simp add: sample_row_def)
  have a: "result (GetTransaction sample_env sample_ctx) sample_world = answer ''MISS'' (TxnBody sample_txn)"
    using transaction_miss_value [of sample_ctx sample_env sample_world 0]
    by (simp add: sql_select_transaction_def sample_tables_def q one)
  have n: "ticks (exec (GetTransaction sample_env sample_ctx) sample_world) = Suc 3"
    by (simp add: GetTransaction_def Let_def running ExecuteWithCB_result ExecuteWithCB_exec queryTransaction_run
        sql_select_transaction_def sample_tables_def sample_row_def)
  have ttl: "DefaultTTL sample_os = 30 * second"
    by (simp add: DefaultTTL_def cache_getEnv_def sample_os_def atoi_word_def Atoi_number)
  have "sint (30 * second) = 30000000000"
    by (simp add: second_def)
  moreover have "redis_remembers (rds sample_env)"
    by (auto simp: redis_remembers_def)
  ultimately show ?thesis
    using transaction_served_again [of sample_env sample_ctx sample_world sample_txn sample_ctx "''T''" 3] a n ttl
    by simp
qed

lemma create_202_write:
  assumes "code (result (CreateTransaction E c) w) = 202"
  obtains req k v where "ShouldBindJSON E (raw_body c) = Inr req"
    and "result (CreateTransaction E c) w = result (create_write E (trace_id c) req k) v"
    and "exec (CreateTransaction E c) w = exec (create_write E (trace_id c) req k) v"
    and "servers v = servers w" and "broker v = broker w" and "n_uuid v = n_uuid w"
    and "counter QueuePublishedTotal (mtrace v) = counter QueuePublishedTotal (mtrace w)"
proof -
  obtain req where req: "ShouldBindJSON E (raw_body c) = Inr req"
    using assms by (cases "ShouldBindJSON E (raw_body c)") (simp_all add: create_result)
  obtain k where k: "result (create_check E (trace_id c) req) w = Inr k"
    using assms req create_check_codes[of E "trace_id c" req w]
    by (cases "result (create_check E (trace_id c) req) w") (auto simp: create_result)
  show thesis
    by (rule that[OF req, where k = k and v = "exec (create_check E (trace_id c) req) w"])
      (simp_all add: req k create_result create_exec create_check_published
        unchangedD[OF create_check_frame(1)] unchangedD[OF create_check_frame(2)] unchangedD[OF create_check_frame(4)])
qed

text \<open>A creation answered 202 without a warning, at a broker that queues what it is sent.\<close>

lemma create_queued:
  assumes "code (result (CreateTransaction E c) w) = 202"
    and "field ''warning'' (result (CreateTransaction E c) w) = None"
    and "queues_published (mq E) (queue_name (getenv E)) queued" and "reads_back (codec E)"
  obtains req t row body msg where "ShouldBindJSON E (raw_body c) = Inr req"
    and "accepted E req (uuid_new E (n_uuid w)) w (exec (CreateTransaction E c) w) row"
    and "queued (broker (exec (CreateTransaction E c) w)) = queued (broker w) @ [body]"
    and "dec_msg (codec E) body = Inr msg"
    and "same_order (message_of req (uuid_new E (n_uuid w)) (trace_id c) t) msg"
proof -
  let ?w' = "exec (CreateTransaction E c) w" and ?tid = "uuid_new E (n_uuid w)"
  from create_202_write[OF assms(1)] obtain req k u where req: "ShouldBindJSON E (raw_body c) = Inr req"
    and run: "result (CreateTransaction E c) w = result (create_write E (trace_id c) req k) u"
      "?w' = exec (create_write E (trace_id c) req k) u"
    and u: "servers u = servers w" "broker u = broker w" "n_uuid u = n_uuid w"
    by metis
  have "code (result (create_write E (trace_id c) req k) u) = 202" using assms(1) run(1) by simp
  from create_write_202[OF this] obtain row where row: "accepted E req ?tid w ?w' row"
    and "enqueued E req ?tid (trace_id c) w ?w' True"
    using assms(2) unfolding run u(3) enqueued_same[OF u(2)] accepted_same_servers[OF u(1)] by auto
  from this(2) obtain t t' data where data: "enc_msg (codec E) (message_of req ?tid (trace_id c) t) = Inr data"
    and sent: "fst (mq_publish (mq E) [] (queue_name (getenv E)) True False (to_publish ?tid t' data) (broker w)) = None"
      "broker ?w' = snd (mq_publish (mq E) [] (queue_name (getenv E)) True False (to_publish ?tid t' data) (broker w))"
    by (rule enqueued_sent)
  have "queued (broker ?w') = queued (broker w) @ [data]"
    using assms(3) sent by (simp add: queues_published_def to_publish_def)
  moreover obtain msg where "dec_msg (codec E) data = Inr msg" "same_order (message_of req ?tid (trace_id c) t) msg"
    using assms(4) data unfolding reads_back_def by blast
  ultimately show thesis using that[OF req row] by blast
qed


lemma sample_create:
  "code (result (CreateTransaction sample_env sample_ctx) sample_world) = 202"
  "field ''id'' (result (CreateTransaction sample_env sample_ctx) sample_world) = Some (JStr ''2'')"
proof -
  have f: "text_ok ''debit''" "text_ok ''REF-20260101-2''" "text_ok ''rent''" "type_check ''debit''"
    by (simp_all add: text_ok_def type_check_def char_of_def)
  show "code (result (CreateTransaction sample_env sample_ctx) sample_world) = 202"
    "field ''id'' (result (CreateTransaction sample_env sample_ctx) sample_world) = Some (JStr ''2'')"
    using sample_cents f
    by (simp_all add: create_result create_check_def create_write_def create_insert_def Let_def running
        ExecuteWithCB_result create_finish_code create_finish_fields sample_rows sql_user_active_def
        sql_insert_transaction_def reference_id_def IdempotencyKey_def)
qed


section \<open>Two creations that overlap\<close>

lemma create_n_uuid_frame [framing]:
  "unchanged n_uuid (create_insert E req tid ref)" "unchanged n_uuid (create_finish E tr req k tid ref)"
  by (auto intro!: unchangedI simp: create_insert_def create_finish_def running ExecuteWithCB_exec
      split: sum.split option.split)

lemma create_write_n_uuid: "n_uuid (exec (create_write E tr req k) w) = Suc (n_uuid w)"
  by (simp add: create_write_def Let_def running unchangedD[OF create_n_uuid_frame(1)]
      unchangedD[OF create_n_uuid_frame(2)] split: sum.split)

text \<open>
  The stretches of two requests interleave: both look the key up before either records it.
\<close>

definition overlap ::
  "('r, 'q, 'b, 'l) env \<Rightarrow> CreateTransactionRequest \<Rightarrow> string \<Rightarrow> string \<Rightarrow> ('r, 'q, 'b, 'l, response list) act" where
  "overlap E req tr1 tr2 = do {
     x1 \<leftarrow> create_check E tr1 req;
     x2 \<leftarrow> create_check E tr2 req;
     r1 \<leftarrow> (case x1 of Inl early \<Rightarrow> ret early | Inr k \<Rightarrow> create_write E tr1 req k);
     r2 \<leftarrow> (case x2 of Inl early \<Rightarrow> ret early | Inr k \<Rightarrow> create_write E tr2 req k);
     ret [r1, r2]
   }"

text \<open>
  Documented behaviour of the breaker library: a closed breaker admits a call, and stays closed when
  the call succeeds.
\<close>

definition closed_admits :: "'b breaker_lib \<Rightarrow> ('b \<Rightarrow> bool) \<Rightarrow> bool" where
  "closed_admits B healthy \<longleftrightarrow>
     (\<forall>t b. healthy b \<longrightarrow> (\<exists>gen chs b'. cb_allow B t b = (Inr gen, chs, b') \<and>
        (\<forall>t'. healthy (snd (cb_done B t' gen True b')))))"

text \<open>Everything the schema asks of the row of a request under an id, whenever it is inserted.\<close>

definition storable :: "('r, 'q, 'b, 'l) env \<Rightarrow> CreateTransactionRequest \<Rightarrow> string \<Rightarrow> tables \<Rightarrow> bool" where
  "storable E req tid tb \<longleftrightarrow>
     (\<exists>i u c. uuid_in (pg E) tid = Some i \<and> uuid_in (pg E) (req_UserID req) = Some u \<and> users tb u \<noteq> None \<and>
        numeric_18_2 (pq_float (pg E) (req_Amount req)) = Inr c \<and> 0 < c) \<and>
     type_check (req_Type req) \<and> text_ok (req_Description req) \<and>
     (\<forall>t. text_ok (reference_id E t tid) \<and> length (reference_id E t tid) \<le> 100 \<and>
        (\<forall>r \<in> set (transactions tb). row_reference r \<noteq> Some (reference_id E t tid)))"

lemma storable_insert:
  assumes "storable E req tid tb"
  shows "\<exists>tb'. sql_insert_transaction (pg E) Pending tid (req_UserID req) (req_Type req) (req_Amount req)
    (reference_id E t tid) (req_Description req) t' tb = Inr tb'"
proof -
  have "text_ok (req_Type req) \<and> length (req_Type req) \<le> 20" if "type_check (req_Type req)"
    using that by (auto simp: type_check_def text_ok_def char_of_def)
  with assms show ?thesis
    by (auto simp: storable_def sql_insert_transaction_def simp flip: not_less)
qed

lemma create_check_unrecorded:
  assumes "req_Idempotency req \<noteq> []" and "pg_fate (pg E) (n_pg w) = Answered"
    and "sql_user_active (pg E) (req_UserID req) (servers w (Read (DB E))) = Inr True"
    and "rd_get (rds E) (IdempotencyKey (req_UserID req) (req_Idempotency req)) (clock E (ticks w)) (redis w) = (RedisNil, r)"
  shows "result (create_check E tr req) w = Inr (IdempotencyKey (req_UserID req) (req_Idempotency req)) \<and>
    exec (create_check E tr req) w = w\<lparr>n_pg := Suc (n_pg w), ticks := Suc (ticks w), redis := r\<rparr>"
  using assms by (simp add: create_check_def running Let_def)

lemma create_write_accepts:
  assumes "fst (cb_allow (cb E) (clock E (Suc (ticks w))) (dbCircuitBreaker w)) = Inr gen"
    and "pg_fate (pg E) (n_pg w) = Answered"
    and "sql_insert_transaction (pg E) Pending (uuid_new E (n_uuid w)) (req_UserID req) (req_Type req)
      (req_Amount req) (reference_id E (clock E (ticks w)) (uuid_new E (n_uuid w))) (req_Description req)
      (clock E (Suc (Suc (ticks w)))) (servers w (Write (DB E))) = Inr tb"
  shows "code (result (create_write E tr req k) w) = 202 \<and>
    servers (exec (create_write E tr req k) w) = (servers w)(Write (DB E) := tb) \<and>
    n_uuid (exec (create_write E tr req k) w) = Suc (n_uuid w) \<and>
    n_pg (exec (create_write E tr req k) w) = Suc (n_pg w) \<and>
    dbCircuitBreaker (exec (create_write E tr req k) w) =
      snd (cb_done (cb E) (clock E (Suc (Suc (Suc (ticks w))))) gen True
        (snd (snd (cb_allow (cb E) (clock E (Suc (ticks w))) (dbCircuitBreaker w)))))"
proof -
  have fin: "servers (exec (create_finish E tr req k tid ref) v) = servers v"
    "n_uuid (exec (create_finish E tr req k tid ref) v) = n_uuid v"
    "n_pg (exec (create_finish E tr req k tid ref) v) = n_pg v"
    "dbCircuitBreaker (exec (create_finish E tr req k tid ref) v) = dbCircuitBreaker v" for tid ref v
    by (simp_all add: create_finish_def running split: sum.split option.split)
  show ?thesis
    using assms
    by (simp add: create_write_def create_insert_def Let_def running ExecuteWithCB_result ExecuteWithCB_exec
        create_finish_code fin)
qed

lemma create_write_storable:
  assumes "closed_admits (cb E) healthy" and "healthy (dbCircuitBreaker w)" and "pg_fate (pg E) (n_pg w) = Answered"
    and "storable E req (uuid_new E (n_uuid w)) (servers w (Write (DB E)))"
  shows "code (result (create_write E tr req k) w) = 202 \<and>
    n_uuid (exec (create_write E tr req k) w) = Suc (n_uuid w) \<and> n_pg (exec (create_write E tr req k) w) = Suc (n_pg w) \<and>
    healthy (dbCircuitBreaker (exec (create_write E tr req k) w))"
proof -
  obtain gen chs b where a: "cb_allow (cb E) (clock E (Suc (ticks w))) (dbCircuitBreaker w) = (Inr gen, chs, b)"
    "\<And>t. healthy (snd (cb_done (cb E) t gen True b))"
    using assms(1,2) unfolding closed_admits_def by blast
  obtain tb where tb: "sql_insert_transaction (pg E) Pending (uuid_new E (n_uuid w)) (req_UserID req) (req_Type req)
      (req_Amount req) (reference_id E (clock E (ticks w)) (uuid_new E (n_uuid w))) (req_Description req)
      (clock E (Suc (Suc (ticks w)))) (servers w (Write (DB E))) = Inr tb"
    using storable_insert[OF assms(4)] by blast
  from create_write_accepts[OF _ assms(3) tb, of gen tr k] a show ?thesis by simp
qed

lemma storable_later:
  assumes "storable E req tid tb" and "accepted E req tid' w w' row" and "servers w (Write (DB E)) = tb"
    and "\<And>t t'. reference_id E t tid' \<noteq> reference_id E t' tid"
  shows "storable E req tid (servers w' (Write (DB E)))"
  using assms(1-3) assms(4)[symmetric] by (auto simp: storable_def accepted_def)

text \<open>
  C25: The idempotency key does not protect against overlapping retries.  Two requests with one
  user and one key, which both look the key up before either has recorded it, on a healthy
  server (round trips answered, breaker closed, a row the schema takes), are both answered 202
  with ids of their own, and two pending rows for the same user, type and amount are in the ledger.
\<close>

theorem overlapping_retries_duplicate:
  fixes E :: "('r, 'q, 'b, 'l) env" and w :: "('r, 'q, 'b, 'l) world" and req :: CreateTransactionRequest
    and tr1 tr2 :: string
  defines "key \<equiv> IdempotencyKey (req_UserID req) (req_Idempotency req)" and "w' \<equiv> exec (overlap E req tr1 tr2) w"
    and "rs \<equiv> result (overlap E req tr1 tr2) w"
    and "tid1 \<equiv> uuid_new E (n_uuid w)" and "tid2 \<equiv> uuid_new E (Suc (n_uuid w))"
  assumes "req_Idempotency req \<noteq> []"
    and active: "sql_user_active (pg E) (req_UserID req) (servers w (Read (DB E))) = Inr True"
    and up: "\<And>i. i < 4 \<Longrightarrow> pg_fate (pg E) (n_pg w + i) = Answered"
    and absent: "rd_get (rds E) key (clock E (ticks w)) (redis w) = (RedisNil, r)"
      "rd_get (rds E) key (clock E (Suc (ticks w))) r = (RedisNil, r')"
    and breaker: "closed_admits (cb E) healthy" "healthy (dbCircuitBreaker w)"
    and rows: "storable E req tid1 (servers w (Write (DB E)))" "storable E req tid2 (servers w (Write (DB E)))"
      "\<And>t t'. reference_id E t tid1 \<noteq> reference_id E t' tid2"
  shows "map code rs = [202, 202] \<and> map (field ''id'') rs = [Some (JStr tid1), Some (JStr tid2)] \<and>
    (\<exists>a b. transactions (servers w' (Write (DB E))) = transactions (servers w (Write (DB E))) @ [a, b] \<and>
       uuid_in (pg E) tid1 = Some (row_id a) \<and> uuid_in (pg E) tid2 = Some (row_id b) \<and>
       row_user a = row_user b \<and> row_type a = row_type b \<and> row_amount a = row_amount b \<and>
       row_status a = Pending \<and> row_status b = Pending)"
proof -
  have f: "pg_fate (pg E) (n_pg w) = Answered" "pg_fate (pg E) (Suc (n_pg w)) = Answered"
    "pg_fate (pg E) (Suc (Suc (n_pg w))) = Answered" "pg_fate (pg E) (Suc (Suc (Suc (n_pg w)))) = Answered"
    using up[of 0] up[of 1] up[of 2] up[of 3] by (simp_all add: numeral_eq_Suc)
  let ?w1 = "w\<lparr>n_pg := Suc (n_pg w), ticks := Suc (ticks w), redis := r\<rparr>"
  let ?w2 = "w\<lparr>n_pg := Suc (Suc (n_pg w)), ticks := Suc (Suc (ticks w)), redis := r'\<rparr>"
  have one: "result (create_check E tr1 req) w = Inr key" "exec (create_check E tr1 req) w = ?w1"
    using create_check_unrecorded[OF assms(6) f(1) active, of r tr1] absent(1) by (simp_all add: key_def)
  have two: "result (create_check E tr2 req) ?w1 = Inr key" "exec (create_check E tr2 req) ?w1 = ?w2"
    using create_check_unrecorded[OF assms(6), of E ?w1 r' tr2] f(2) active absent(2) by (simp_all add: key_def)
  let ?w3 = "exec (create_write E tr1 req key) ?w2"
  have first: "code (result (create_write E tr1 req key) ?w2) = 202" "n_uuid ?w3 = Suc (n_uuid w)"
    "n_pg ?w3 = Suc (Suc (Suc (n_pg w)))" "healthy (dbCircuitBreaker ?w3)"
    using create_write_storable[OF breaker(1), of ?w2 req tr1 key] breaker(2) f(3) rows(1) by (simp_all add: tid1_def)
  from create_write_202[OF first(1)] obtain a where a: "accepted E req tid1 ?w2 ?w3 a"
    "field ''id'' (result (create_write E tr1 req key) ?w2) = Some (JStr tid1)"
    by (auto simp: tid1_def)
  have "storable E req tid2 (servers ?w3 (Write (DB E)))"
    by (rule storable_later[OF rows(2) a(1) _ rows(3)]) simp
  then have second: "code (result (create_write E tr2 req key) ?w3) = 202"
    using create_write_storable[OF breaker(1), of ?w3 req tr2 key] first f(4) by (simp add: tid2_def)
  from create_write_202[OF second] obtain b where b: "accepted E req tid2 ?w3 (exec (create_write E tr2 req key) ?w3) b"
    "field ''id'' (result (create_write E tr2 req key) ?w3) = Some (JStr tid2)"
    by (auto simp: tid2_def first(2))
  have run: "rs = [result (create_write E tr1 req key) ?w2, result (create_write E tr2 req key) ?w3]"
    "w' = exec (create_write E tr2 req key) ?w3"
    by (simp_all add: rs_def w'_def overlap_def one two)
  show ?thesis
    unfolding run using first(1) second a b
    by (intro conjI exI[of _ a] exI[of _ b]) (auto simp: accepted_def)
qed

lemma sample_texts: "text_ok ''debit''" "text_ok ''rent''" "type_check ''debit''"
  "text_ok ''REF-20260101-2''" "text_ok ''REF-20260101-3''"
  by (simp_all add: text_ok_def type_check_def char_of_def)

lemma sample_request_sel [simp]:
  "req_UserID sample_request = ''7''" "req_Type sample_request = ''debit''" "req_Amount sample_request = 5 / 2"
  "req_Description sample_request = ''rent''" "req_Idempotency sample_request = ''k''"
  by (simp_all add: sample_request_def)

theorem overlapping_retries_duplicate_witness:
  "map code (result (overlap sample_env sample_request ''t'' ''u'') sample_world) = [202, 202] \<and>
   (\<exists>a b. transactions (servers (exec (overlap sample_env sample_request ''t'' ''u'') sample_world) (''postgres'', ''5432''))
      = [sample_row, a, b] \<and> row_user a = row_user b \<and> row_amount a = row_amount b)"
proof -
  have breaker: "closed_admits (cb sample_env) (\<lambda>b. sb_open_until b = None)"
    by (simp add: closed_admits_def)
  have rows: "storable sample_env sample_request s sample_tables" if "s \<in> {''2'', ''3''}" for s
    using that by (auto simp: storable_def reference_id_def sample_cents sample_texts sample_tables_def sample_row_def)
  have two: "uuid_new sample_env 0 = ''2''" "uuid_new sample_env (Suc 0) = ''3''" by simp_all
  show ?thesis
    using overlapping_retries_duplicate [of sample_request sample_env sample_world "\<lambda>_. None" "\<lambda>_. None"
        "\<lambda>b. sb_open_until b = None" "''t''" "''u''"] breaker rows two
    by (simp add: reference_id_def sql_user_active_def sample_tables_def sample_user_def) blast
qed

end
