(* ===== verification/Consumer.thy ===== *)
theory Consumer
  imports Transactions
begin

text \<open>
  The asynchronous half of the write path, \<open>processTransaction\<close> of api/main.go: it marks the
  transaction as processing, then completes it and moves the user's balance in one serializable
  database transaction, and last drops the two cache entries.  An error makes the queue loop
  requeue the message.
\<close>

definition balance_query :: "string \<Rightarrow> direction option" where
  "balance_query ty =
     (if ty = ''credit'' then Some Plus
      else if ty \<in> {''debit'', ''transfer''} then Some Minus
      else None)"

text \<open>The database transaction, from \<open>BeginTx\<close> to \<open>Commit\<close>.\<close>

definition complete_and_move ::
  "('r, 'q, 'b, 'l) env \<Rightarrow> TransactionMessage \<Rightarrow> ('r, 'q, 'b, 'l, sql_error option) act" where
  "complete_and_move E msg = do {
     b \<leftarrow> begin_tx E (Write (DB E));
     (case b of
        Inl err \<Rightarrow> ret (Some err)
      | Inr tx \<Rightarrow> do {
          x \<leftarrow> exec_tx E tx (sql_set_status (pg E) Completed (msg_TransactionID msg));
          (case x of
             Inl err \<Rightarrow> do { rollback_tx tx; ret (Some err) }
           | Inr tx \<Rightarrow> do {
               y \<leftarrow> (case balance_query (msg_Type msg) of
                       None \<Rightarrow> ret (Inr tx)
                     | Some dir \<Rightarrow> exec_tx E tx
                         (sql_move_balance (pg E) dir (msg_Amount msg) (msg_UserID msg)));
               (case y of
                  Inl err \<Rightarrow> do { rollback_tx tx; ret (Some err) }
                | Inr tx \<Rightarrow> do {
                    err \<leftarrow> commit_tx E tx;
                    rollback_tx tx;
                    ret err
                  })
             })
        })
   }"

definition processTransaction ::
  "('r, 'q, 'b, 'l) env \<Rightarrow> TransactionMessage \<Rightarrow> ('r, 'q, 'b, 'l, sql_error option) act" where
  "processTransaction E msg = do {
     err \<leftarrow> exec_statement E (Write (DB E)) (sql_set_status (pg E) Processing (msg_TransactionID msg));
     (case err of
        Some e \<Rightarrow> ret (Some e)
      | None \<Rightarrow> do {
          err \<leftarrow> complete_and_move E msg;
          (case err of
             Some e \<Rightarrow> ret (Some e)
           | None \<Rightarrow> do {
               cache_Delete E (UserBalanceKey (msg_UserID msg));
               cache_Delete E (TransactionKey (msg_TransactionID msg));
               count (QueueProcessedTotal ''success'');
               count (TransactionsCreatedTotal (msg_Type msg) ''completed'');
               ret None
             })
        })
   }"

text \<open>The consumer main starts: the queue loop with \<open>processTransaction\<close> as its callback.\<close>

definition consumer ::
  "('r, 'q, 'b, 'l) env \<Rightarrow> delivery list \<Rightarrow> ('r, 'q, 'b, 'l, settlement list) act" where
  "consumer E msgs = consume_loop E (processTransaction E) msgs"

section \<open>The abstract posting of a message\<close>

text \<open>
  What a message asks for, as one step on the tables: its transaction completed and its amount
  moved.  \<open>post\<close> is the specification the database transaction implements.
\<close>

definition post :: "pg_lib \<Rightarrow> TransactionMessage \<Rightarrow> statement" where
  "post P msg t tb =
     (case sql_set_status P Completed (msg_TransactionID msg) t tb of
        Inl e \<Rightarrow> Inl e
      | Inr tb1 \<Rightarrow>
          (case balance_query (msg_Type msg) of
             None \<Rightarrow> Inr tb1
           | Some dir \<Rightarrow> sql_move_balance P dir (msg_Amount msg) (msg_UserID msg) t tb1))"

definition balance_at :: "tables \<Rightarrow> uuid \<Rightarrow> cents option" where
  "balance_at tb u = map_option balance (users tb u)"

text \<open>
  The change of balance a message stands for, in cents, as the API means it: a credit adds its
  amount, a debit and a transfer take it.  It is stated on its own, not through the statement the
  consumer chooses.  \<open>whole_cents\<close> are the amounts for which the column arithmetic is exact.
\<close>

definition delta :: "pg_lib \<Rightarrow> string \<Rightarrow> float64 \<Rightarrow> cents" where
  "delta P ty amt =
     (if ty = ''credit'' then round_cents (pq_float P amt)
      else if ty = ''debit'' \<or> ty = ''transfer'' then - round_cents (pq_float P amt)
      else 0)"

lemma delta_query:
  "delta P ty amt =
     (case balance_query ty of
        None \<Rightarrow> 0
      | Some Plus \<Rightarrow> round_cents (pq_float P amt)
      | Some Minus \<Rightarrow> - round_cents (pq_float P amt))"
  by (simp add: delta_def balance_query_def)

definition whole_cents :: "pg_lib \<Rightarrow> float64 \<Rightarrow> bool" where
  "whole_cents P amt \<longleftrightarrow> 100 * pq_float P amt = of_int (round_cents (pq_float P amt))"

text \<open>The part of a transaction row that no update of the program writes.\<close>

definition row_core :: "txn_row \<Rightarrow> uuid \<times> uuid \<times> string \<times> cents \<times> string option \<times> string option \<times> time" where
  "row_core r = (row_id r, row_user r, row_type r, row_amount r, row_reference r, row_description r, row_created r)"

lemma row_core_mark [simp]: "row_core (mark st t r) = row_core r"
  by (simp add: row_core_def mark_def)

interpretation status_core: sql_statement "sql_set_status P st tid"
    "\<lambda>tb. map row_core (transactions tb) = rs"
  for P st tid rs
  by unfold_locales (auto elim!: set_status_Inr simp: comp_def if_distrib cong: if_cong)

interpretation move_core: sql_statement "sql_move_balance P dir amt uid"
    "\<lambda>tb. map row_core (transactions tb) = rs"
  for P dir amt uid rs
  by unfold_locales (auto dest: move_rows.keeps[OF refl])

lemma move_balance_exact:
  assumes "sql_move_balance P dir amt uid t tb = Inr tb'" and "whole_cents P amt"
  shows "balance_at tb' v = (if uuid_in P uid = Some v
    then map_option (\<lambda>b. b + (case dir of Plus \<Rightarrow> round_cents (pq_float P amt) | Minus \<Rightarrow> - round_cents (pq_float P amt)))
      (balance_at tb v)
    else balance_at tb v)"
  using assms(1)
proof (cases rule: move_balance_Inr)
  case (absent u)
  then show ?thesis by (auto simp: balance_at_def)
next
  case (present u r c)
  let ?d = "case dir of Plus \<Rightarrow> round_cents (pq_float P amt) | Minus \<Rightarrow> - round_cents (pq_float P amt)"
  have "100 * apply_direction dir (pq_float P amt) = of_int ?d"
    using assms(2) by (cases dir) (simp_all add: whole_cents_def)
  then have "c = balance r + ?d"
    using round_cents_shift present(3) by blast
  with present show ?thesis by (auto simp: balance_at_def)
qed

lemma post_exact:
  assumes "post P msg t tb = Inr tb'" and "whole_cents P (msg_Amount msg)"
  shows "balance_at tb' v = (if uuid_in P (msg_UserID msg) = Some v
    then map_option (\<lambda>b. b + delta P (msg_Type msg) (msg_Amount msg)) (balance_at tb v)
    else balance_at tb v)"
proof -
  from assms(1) obtain tb1 where tb1: "sql_set_status P Completed (msg_TransactionID msg) t tb = Inr tb1"
    by (auto simp: post_def split: sum.splits)
  then have same: "balance_at tb1 v = balance_at tb v"
    by (auto simp: balance_at_def elim!: set_status_Inr)
  show ?thesis
  proof (cases "balance_query (msg_Type msg)")
    case None
    then have "tb' = tb1" using assms(1) tb1 by (simp add: post_def)
    then show ?thesis using same None by (simp add: delta_query option.map_ident)
  next
    case (Some dir)
    then have "sql_move_balance P dir (msg_Amount msg) (msg_UserID msg) t tb1 = Inr tb'"
      using assms(1) tb1 by (simp add: post_def)
    from move_balance_exact[OF this assms(2)] show ?thesis
      using same Some by (simp add: delta_query)
  qed
qed

section \<open>Outcomes of the database transaction\<close>

lemma complete_None:
  assumes "result (complete_and_move E msg) w = None"
  shows "\<exists>tb. post (pg E) msg (clock E (ticks w)) (servers w (Write (DB E))) = Inr tb \<and>
    servers (exec (complete_and_move E msg) w) = (servers w)(Write (DB E) := tb)"
  using assms
  by (auto simp: complete_and_move_def running post_def split: round_trip.splits sum.splits option.splits)

lemma complete_Some:
  assumes "result (complete_and_move E msg) w = Some e"
  shows "servers (exec (complete_and_move E msg) w) = servers w \<or>
    (\<exists>tb m. post (pg E) msg (clock E (ticks w)) (servers w (Write (DB E))) = Inr tb \<and>
       servers (exec (complete_and_move E msg) w) = (servers w)(Write (DB E) := tb) \<and>
       n_pg w < n_pg (exec (complete_and_move E msg) w) \<and>
       pg_fate (pg E) (n_pg (exec (complete_and_move E msg) w) - 1) = ReplyLost m)"
  using assms
  by (auto simp: complete_and_move_def running post_def split: round_trip.splits sum.splits option.splits)

lemma complete_frame [framing]:
  "unchanged redis (complete_and_move E msg)" "unchanged broker (complete_and_move E msg)"
  "unchanged mtrace (complete_and_move E msg)" "unchanged gates (complete_and_move E msg)"
  by (auto intro!: unchangedI simp: complete_and_move_def running gates_def
      split: round_trip.splits sum.splits option.splits)

text \<open>The first statement, which runs outside the database transaction.\<close>

abbreviation mark_processing ::
  "('r, 'q, 'b, 'l) env \<Rightarrow> TransactionMessage \<Rightarrow> ('r, 'q, 'b, 'l, sql_error option) act" where
  "mark_processing E msg \<equiv>
     exec_statement E (Write (DB E)) (sql_set_status (pg E) Processing (msg_TransactionID msg))"

lemma mark_processing_users: "users (servers (exec (mark_processing E msg) w) ep) = users (servers w ep)"
  by (rule status_users.exec_keeps[OF refl])

lemma process_result:
  "result (processTransaction E msg) w =
     (case result (mark_processing E msg) w of
        Some e \<Rightarrow> Some e
      | None \<Rightarrow> result (complete_and_move E msg) (exec (mark_processing E msg) w))"
  by (simp add: processTransaction_def split: option.split)

lemma process_servers:
  "servers (exec (processTransaction E msg) w) =
     (case result (mark_processing E msg) w of
        Some e \<Rightarrow> servers (exec (mark_processing E msg) w)
      | None \<Rightarrow> servers (exec (complete_and_move E msg) (exec (mark_processing E msg) w)))"
  by (simp add: processTransaction_def running split: option.split)

text \<open>A processing that reports success moved the balance; one that reports an error did not,
  unless the answer to its last round trip was lost after the server had committed.\<close>

lemma process_None_balance:
  assumes "result (processTransaction E msg) w = None" and "whole_cents (pg E) (msg_Amount msg)"
  shows "balance_at (servers (exec (processTransaction E msg) w) ep) v =
    (if ep = Write (DB E) \<and> uuid_in (pg E) (msg_UserID msg) = Some v
     then map_option (\<lambda>b. b + delta (pg E) (msg_Type msg) (msg_Amount msg)) (balance_at (servers w ep) v)
     else balance_at (servers w ep) v)"
proof -
  let ?w = "exec (mark_processing E msg) w"
  have "result (mark_processing E msg) w = None" and "result (complete_and_move E msg) ?w = None"
    using assms(1) by (auto simp: process_result split: option.splits)
  with complete_None[OF this(2)] obtain tb where
    tb: "post (pg E) msg (clock E (ticks ?w)) (servers ?w (Write (DB E))) = Inr tb"
      "servers (exec (processTransaction E msg) w) = (servers ?w)(Write (DB E) := tb)"
    by (auto simp: process_servers)
  have same: "balance_at (servers ?w ep') v = balance_at (servers w ep') v" for ep'
    by (simp only: balance_at_def mark_processing_users)
  show ?thesis
    using post_exact[OF tb(1) assms(2), of v] tb(2) same by simp
qed

lemma process_Some_balance:
  assumes "result (processTransaction E msg) w = Some e"
    and "\<And>n m. pg_fate (pg E) n \<noteq> ReplyLost m"
  shows "users (servers (exec (processTransaction E msg) w) ep) = users (servers w ep)"
proof (cases "result (mark_processing E msg) w")
  case None
  let ?w = "exec (mark_processing E msg) w"
  have "result (complete_and_move E msg) ?w = Some e"
    using assms(1) None by (simp add: process_result)
  with complete_Some assms(2) have "servers (exec (complete_and_move E msg) ?w) = servers ?w"
    by blast
  then show ?thesis
    using None by (simp add: process_servers mark_processing_users)
next
  case (Some e')
  then show ?thesis by (simp add: process_servers mark_processing_users)
qed

section \<open>The consumer as a ledger\<close>

text \<open>What one settled delivery contributed to a user's balance.\<close>

definition contribution ::
  "('r, 'q, 'b, 'l) env \<Rightarrow> uuid \<Rightarrow> delivery \<times> settlement \<Rightarrow> cents" where
  "contribution E u ds =
     (case dec_msg (codec E) (dl_body (fst ds)) of
        Inl _ \<Rightarrow> 0
      | Inr msg \<Rightarrow>
          if snd ds = Ack \<and> uuid_in (pg E) (msg_UserID msg) = Some u
          then delta (pg E) (msg_Type msg) (msg_Amount msg) else 0)"

lemma consume_one_balance:
  assumes "\<And>n m. pg_fate (pg E) n \<noteq> ReplyLost m"
    and "\<And>msg. dec_msg (codec E) (dl_body d) = Inr msg \<Longrightarrow> whole_cents (pg E) (msg_Amount msg)"
  shows "balance_at (servers (exec (consume_one E (processTransaction E) d) w) (Write (DB E))) u =
    map_option (\<lambda>b. b + contribution E u (d, result (consume_one E (processTransaction E) d) w))
      (balance_at (servers w (Write (DB E))) u)"
proof (cases "dec_msg (codec E) (dl_body d)")
  case (Inl e)
  then show ?thesis
    by (simp add: consume_one_servers contribution_def option.map_ident)
next
  case (Inr msg)
  show ?thesis
  proof (cases "result (processTransaction E msg) w")
    case None
    show ?thesis
      using process_None_balance[OF None assms(2)[OF Inr], of "Write (DB E)" u] Inr None
      by (simp add: consume_one_servers consume_one_result contribution_def option.map_ident)
  next
    case (Some e)
    show ?thesis
      using process_Some_balance[OF Some assms(1), of "Write (DB E)"] Inr Some
      by (simp add: consume_one_servers consume_one_result contribution_def balance_at_def option.map_ident)
  qed
qed

lemma consumer_balance:
  assumes "\<And>n m. pg_fate (pg E) n \<noteq> ReplyLost m"
    and "\<And>d msg. d \<in> set ds \<Longrightarrow> dec_msg (codec E) (dl_body d) = Inr msg \<Longrightarrow>
      whole_cents (pg E) (msg_Amount msg)"
  shows "balance_at (servers (exec (consumer E ds) w) (Write (DB E))) u =
    map_option (\<lambda>b. b + sum_list (map (contribution E u) (zip ds (result (consumer E ds) w))))
      (balance_at (servers w (Write (DB E))) u)"
  using assms(2)
proof (induction ds arbitrary: w)
  case Nil
  then show ?case by (simp add: consumer_def consume_loop_def option.map_ident)
next
  case (Cons d ds)
  let ?w = "exec (consume_one E (processTransaction E) d) w"
  have d: "\<And>msg. dec_msg (codec E) (dl_body d) = Inr msg \<Longrightarrow> whole_cents (pg E) (msg_Amount msg)"
    by (rule Cons.prems) auto
  have ih: "balance_at (servers (exec (consumer E ds) ?w) (Write (DB E))) u =
    map_option (\<lambda>b. b + sum_list (map (contribution E u) (zip ds (result (consumer E ds) ?w))))
      (balance_at (servers ?w (Write (DB E))) u)"
    using Cons.IH[of ?w] Cons.prems by auto
  show ?case
    using ih consume_one_balance[where w = w and u = u, OF assms(1) d]
    by (simp add: consumer_def consume_loop_def option.map_comp comp_def algebra_simps)
qed

lemma post_core:
  assumes "post P msg t tb = Inr tb'"
  shows "map row_core (transactions tb') = map row_core (transactions tb)"
proof -
  from assms obtain tb1 where tb1: "sql_set_status P Completed (msg_TransactionID msg) t tb = Inr tb1"
    by (auto simp: post_def split: sum.splits)
  note status_core.keeps[OF refl this]
  moreover have "map row_core (transactions tb') = map row_core (transactions tb1)"
  proof (cases "balance_query (msg_Type msg)")
    case None
    then show ?thesis using assms tb1 by (simp add: post_def)
  next
    case (Some dir)
    then have "sql_move_balance P dir (msg_Amount msg) (msg_UserID msg) t tb1 = Inr tb'"
      using assms tb1 by (simp add: post_def)
    from move_core.keeps[OF refl this] show ?thesis .
  qed
  ultimately show ?thesis by simp
qed

lemma process_answered:
  assumes fates: "\<And>i. i < 5 \<Longrightarrow> pg_fate (pg E) (n_pg w + i) = Answered"
    and ids: "uuid_in (pg E) (msg_TransactionID msg) = Some i" "uuid_in (pg E) (msg_UserID msg) = Some u"
    and ty: "msg_Type msg \<in> {''credit'', ''debit'', ''transfer''}"
    and user: "users (servers w (Write (DB E))) u = Some r"
    and amt: "whole_cents (pg E) (msg_Amount msg)"
    and room: "fits_18_2 (balance r + delta (pg E) (msg_Type msg) (msg_Amount msg))"
  shows "result (processTransaction E msg) w = None \<and>
    balance_at (servers (exec (processTransaction E msg) w) (Write (DB E))) u
      = Some (balance r + delta (pg E) (msg_Type msg) (msg_Amount msg)) \<and>
    (\<forall>v. v \<noteq> u \<longrightarrow> users (servers (exec (processTransaction E msg) w) (Write (DB E))) v = users (servers w (Write (DB E))) v) \<and>
    (\<forall>ep. ep \<noteq> Write (DB E) \<longrightarrow> servers (exec (processTransaction E msg) w) ep = servers w ep) \<and>
    (\<exists>t. transactions (servers (exec (processTransaction E msg) w) (Write (DB E))) =
      map (\<lambda>x. if row_id x = i then mark Completed t x else x) (transactions (servers w (Write (DB E)))))"
proof -
  have f: "pg_fate (pg E) (n_pg w) = Answered" "pg_fate (pg E) (Suc (n_pg w)) = Answered"
    "pg_fate (pg E) (Suc (Suc (n_pg w))) = Answered" "pg_fate (pg E) (Suc (Suc (Suc (n_pg w)))) = Answered"
    "pg_fate (pg E) (Suc (Suc (Suc (Suc (n_pg w))))) = Answered"
    using fates[of 0] fates[of 1] fates[of 2] fates[of 3] fates[of 4] by (simp_all add: numeral_eq_Suc)
  obtain dir where dir: "balance_query (msg_Type msg) = Some dir"
    using ty by (auto simp: balance_query_def)
  have "100 * apply_direction dir (pq_float (pg E) (msg_Amount msg))
      = of_int (delta (pg E) (msg_Type msg) (msg_Amount msg))"
    using amt dir by (cases dir) (simp_all add: whole_cents_def delta_query)
  then have num: "numeric_18_2 (of_int (balance r) / 100 + apply_direction dir (pq_float (pg E) (msg_Amount msg)))
      = Inr (balance r + delta (pg E) (msg_Type msg) (msg_Amount msg))"
    using room by (simp add: numeric_18_2_def round_cents_shift)
  have marks: "map (\<lambda>x. if row_id x = i then mark Completed t x else x)
      (map (\<lambda>x. if row_id x = i then mark Processing t' x else x) rows) =
    map (\<lambda>x. if row_id x = i then mark Completed t x else x) rows" for t t' rows
    by (auto simp: mark_def)
  show ?thesis
    unfolding processTransaction_def complete_and_move_def
    by (simp add: running f ids dir user num sql_set_status_def sql_move_balance_def balance_at_def
        marks del: map_map) blast
qed

section \<open>Properties\<close>

text \<open>
  C12: A message whose five round trips are answered is processed successfully: the user's
  balance moves by exactly the signed amount (to the cent; a credit adds, a debit and a transfer
  take), every other balance and every other server is untouched, the rows of the transaction are completed and nothing else about the
  rows changes.
\<close>

theorem process_success:
  assumes fates: "\<And>i. i < 5 \<Longrightarrow> pg_fate (pg E) (n_pg w + i) = Answered"
    and ids: "uuid_in (pg E) (msg_TransactionID msg) = Some i" "uuid_in (pg E) (msg_UserID msg) = Some u"
    and ty: "msg_Type msg \<in> {''credit'', ''debit'', ''transfer''}"
    and user: "users (servers w (Write (DB E))) u = Some r"
    and amt: "whole_cents (pg E) (msg_Amount msg)"
    and room: "fits_18_2 (balance r + delta (pg E) (msg_Type msg) (msg_Amount msg))"
  defines "w' \<equiv> exec (processTransaction E msg) w"
  shows "result (processTransaction E msg) w = None \<and>
    balance_at (servers w' (Write (DB E))) u
      = Some (balance r + delta (pg E) (msg_Type msg) (msg_Amount msg)) \<and>
    (\<forall>v. v \<noteq> u \<longrightarrow> users (servers w' (Write (DB E))) v = users (servers w (Write (DB E))) v) \<and>
    (\<forall>ep. ep \<noteq> Write (DB E) \<longrightarrow> servers w' ep = servers w ep) \<and>
    (\<exists>t. transactions (servers w' (Write (DB E))) =
      map (\<lambda>x. if row_id x = i then mark Completed t x else x) (transactions (servers w (Write (DB E)))))"
  unfolding w'_def by (rule process_answered [OF fates ids ty user amt room])

theorem process_success_witness:
  "result (processTransaction sample_env sample_msg) sample_world = None \<and>
    balance_at (servers (exec (processTransaction sample_env sample_msg) sample_world) (''postgres'', ''5432'')) 7
      = Some 750"
proof -
  have "round_cents (5 / 2) = 250" by (rule round_cents_int) simp
  then show ?thesis
    using process_success [of sample_env sample_world sample_msg 1 7 sample_user]
    by (simp add: sample_rows whole_cents_def delta_def balance_query_def fits_18_2_def)
qed

text \<open>
  C1: The consumer is a ledger.  In a run in which no answer of the database is lost after it took
  effect, whatever the deliveries and whichever of them fail and are requeued or discarded, the
  balance of every user at the end is the balance at the start plus the amounts of exactly the
  acknowledged credits of that user minus those of the acknowledged debits and transfers, for
  amounts of whole cents.
\<close>

theorem consumer_conserves_balances:
  assumes "\<And>n m. pg_fate (pg E) n \<noteq> ReplyLost m"
    and "\<And>d msg. d \<in> set ds \<Longrightarrow> dec_msg (codec E) (dl_body d) = Inr msg \<Longrightarrow>
      whole_cents (pg E) (msg_Amount msg)"
  shows "balance_at (servers (exec (consumer E ds) w) (Write (DB E))) u =
    map_option (\<lambda>b. b + sum_list (map (contribution E u) (zip ds (result (consumer E ds) w))))
      (balance_at (servers w (Write (DB E))) u)"
  using assms by (rule consumer_balance)

theorem consumer_conserves_balances_witness:
  "balance_at (servers (exec (consumer sample_env
      [\<lparr>dl_tag = 1, dl_body = ''M''\<rparr>, \<lparr>dl_tag = 2, dl_body = ''junk''\<rparr>]) sample_world) (''postgres'', ''5432'')) 7
    = Some 750"
proof -
  let ?ds = "[\<lparr>dl_tag = 1, dl_body = ''M''\<rparr>, \<lparr>dl_tag = 2, dl_body = ''junk''\<rparr>]"
  have c: "round_cents (5 / 2) = 250" by (rule round_cents_int) simp
  have "result (processTransaction sample_env sample_msg) sample_world = None"
    using process_answered [of sample_env sample_world sample_msg 1 7 sample_user] c
    by (simp add: sample_rows whole_cents_def delta_def balance_query_def fits_18_2_def)
  then have "result (consumer sample_env ?ds) sample_world = [Ack, Nack False]"
    by (simp add: consumer_def consume_loop_def consume_one_result)
  moreover have "whole_cents (pg sample_env) (msg_Amount msg)"
    if "d \<in> set ?ds" "dec_msg (codec sample_env) (dl_body d) = Inr msg" for d msg
    using that c by (auto simp: whole_cents_def sample_msg_def)
  ultimately show ?thesis
    using consumer_conserves_balances [where E = sample_env and ds = ?ds and w = sample_world and u = 7] c
    by (simp add: sample_rows contribution_def delta_def balance_query_def balance_at_def)
qed

text \<open>
  C24: Delivery is at least once but processing is not idempotent.  If the commit of a message
  takes effect and only its answer is lost, the loop requeues the message, and the redelivery
  moves the balance a second time: two deliveries of one message, settled with a requeue and an
  acknowledgement, change the balance by twice the amount.
\<close>

theorem redelivery_moves_twice:
  assumes body: "dec_msg (codec E) (dl_body d) = Inr msg"
    and fates: "\<And>i. i < 4 \<Longrightarrow> pg_fate (pg E) (n_pg w + i) = Answered"
      "pg_fate (pg E) (n_pg w + 4) = ReplyLost m"
      "\<And>i. 5 \<le> i \<Longrightarrow> i < 10 \<Longrightarrow> pg_fate (pg E) (n_pg w + i) = Answered"
    and ids: "uuid_in (pg E) (msg_TransactionID msg) = Some i" "uuid_in (pg E) (msg_UserID msg) = Some u"
    and ty: "msg_Type msg \<in> {''credit'', ''debit'', ''transfer''}"
    and user: "users (servers w (Write (DB E))) u = Some r"
    and amt: "whole_cents (pg E) (msg_Amount msg)"
    and room: "fits_18_2 (balance r + delta (pg E) (msg_Type msg) (msg_Amount msg))"
      "fits_18_2 (balance r + 2 * delta (pg E) (msg_Type msg) (msg_Amount msg))"
  shows "result (consumer E [d, d]) w = [Nack True, Ack] \<and>
    balance_at (servers (exec (consumer E [d, d]) w) (Write (DB E))) u
      = Some (balance r + 2 * delta (pg E) (msg_Type msg) (msg_Amount msg))"
proof -
  let ?c = "delta (pg E) (msg_Type msg) (msg_Amount msg)"
  let ?w = "exec (consume_one E (processTransaction E) d) w"
  have f: "pg_fate (pg E) (n_pg w) = Answered" "pg_fate (pg E) (Suc (n_pg w)) = Answered"
    "pg_fate (pg E) (Suc (Suc (n_pg w))) = Answered" "pg_fate (pg E) (Suc (Suc (Suc (n_pg w)))) = Answered"
    "pg_fate (pg E) (Suc (Suc (Suc (Suc (n_pg w))))) = ReplyLost m"
    using fates(1)[of 0] fates(1)[of 1] fates(1)[of 2] fates(1)[of 3] fates(2) by (simp_all add: numeral_eq_Suc)
  obtain dir where dir: "balance_query (msg_Type msg) = Some dir"
    using ty by (auto simp: balance_query_def)
  have "100 * apply_direction dir (pq_float (pg E) (msg_Amount msg)) = of_int ?c"
    using amt dir by (cases dir) (simp_all add: whole_cents_def delta_query)
  then have num: "numeric_18_2 (of_int (balance r) / 100 + apply_direction dir (pq_float (pg E) (msg_Amount msg)))
      = Inr (balance r + ?c)"
    using room by (simp add: numeric_18_2_def round_cents_shift)
  obtain t where first: "result (consume_one E (processTransaction E) d) w = Nack True"
    "n_pg ?w = n_pg w + 5"
    "users (servers ?w (Write (DB E))) u = Some (r\<lparr>balance := balance r + ?c, user_updated := t\<rparr>)"
    unfolding consume_one_def processTransaction_def complete_and_move_def
    by (simp add: body running f ids dir user num sql_set_status_def sql_move_balance_def)
  have "pg_fate (pg E) (n_pg ?w + j) = Answered" if "j < 5" for j
    using fates(3)[of "j + 5"] that first(2) by (simp add: add.commute add.left_commute)
  from process_answered[OF this ids ty first(3) amt] room
  have "result (processTransaction E msg) ?w = None \<and>
    balance_at (servers (exec (processTransaction E msg) ?w) (Write (DB E))) u = Some (balance r + 2 * ?c)"
    by (simp add: algebra_simps)
  with first(1) show ?thesis
    by (simp add: consumer_def consume_loop_def consume_one_result consume_one_servers body)
qed

theorem redelivery_moves_twice_witness:
  "balance_at (servers (exec (consumer (sample_env_with (\<lambda>n. if n = 4 then ReplyLost ''x'' else Answered))
      [\<lparr>dl_tag = 1, dl_body = ''M''\<rparr>, \<lparr>dl_tag = 1, dl_body = ''M''\<rparr>]) sample_world) (''postgres'', ''5432'')) 7
    = Some 500"
proof -
  have "round_cents (5 / 2) = 250" by (rule round_cents_int) simp
  then show ?thesis
    using redelivery_moves_twice [of "sample_env_with (\<lambda>n. if n = 4 then ReplyLost ''x'' else Answered)"
        "\<lparr>dl_tag = 1, dl_body = ''M''\<rparr>" sample_msg sample_world "''x''" 1 7 sample_user]
    by (simp add: sample_rows whole_cents_def delta_def balance_query_def fits_18_2_def)
qed

text \<open>
  C27: Processing is no guard against regress: whatever status the rows of a transaction had, a
  redelivery whose first statement is answered and whose database transaction cannot begin
  leaves all of them in status processing, completed ones included, which is earlier in their
  life cycle.
\<close>

theorem failed_redelivery_regresses:
  assumes "pg_fate (pg E) (n_pg w) = Answered" and "pg_fate (pg E) (Suc (n_pg w)) = RequestLost m"
    and "uuid_in (pg E) (msg_TransactionID msg) = Some i"
    and "r \<in> set (transactions (servers w (Write (DB E))))" and "row_id r = i"
    and "row_status r = Completed"
  shows "result (processTransaction E msg) w = Some (DriverError m) \<and>
    (\<exists>r' \<in> set (transactions (servers (exec (processTransaction E msg) w) (Write (DB E)))).
       row_core r' = row_core r \<and> row_status r' = Processing \<and> row_status r' < row_status r)"
proof
  show "result (processTransaction E msg) w = Some (DriverError m)"
    using assms by (simp add: processTransaction_def complete_and_move_def running sql_set_status_def)
  let ?t = "clock E (ticks w)"
  have "transactions (servers (exec (processTransaction E msg) w) (Write (DB E))) =
      map (\<lambda>x. if row_id x = i then mark Processing ?t x else x) (transactions (servers w (Write (DB E))))"
    using assms by (simp add: processTransaction_def complete_and_move_def running sql_set_status_def)
  then have "mark Processing ?t r \<in> set (transactions (servers (exec (processTransaction E msg) w) (Write (DB E))))"
    using assms(4,5) by force
  moreover have "row_status (mark Processing ?t r) = Processing"
    by (simp add: mark_def)
  ultimately show "\<exists>r' \<in> set (transactions (servers (exec (processTransaction E msg) w) (Write (DB E)))).
       row_core r' = row_core r \<and> row_status r' = Processing \<and> row_status r' < row_status r"
    using assms(6) by (intro bexI [of _ "mark Processing ?t r"]) (simp_all add: less_txn_status_def)
qed

theorem failed_redelivery_regresses_witness:
  "let w = sample_world\<lparr>servers := (\<lambda>_. sample_tables\<lparr>transactions := [sample_row\<lparr>row_status := Completed\<rparr>]\<rparr>)\<rparr>;
       E = sample_env_with (\<lambda>n. if n = 1 then RequestLost ''x'' else Answered)
   in result (processTransaction E sample_msg) w = Some (DriverError ''x'')"
  using failed_redelivery_regresses [of
      "sample_env_with (\<lambda>n. if n = 1 then RequestLost ''x'' else Answered)"
      "sample_world\<lparr>servers := (\<lambda>_. sample_tables\<lparr>transactions := [sample_row\<lparr>row_status := Completed\<rparr>]\<rparr>)\<rparr>"
      "''x''" sample_msg 1 "sample_row\<lparr>row_status := Completed\<rparr>"]
  by (simp add: sample_msg_def sample_tables_def sample_row_def)

end
