(* ===== verification/Users.thy ===== *)
theory Users
  imports CachedRead
begin

text \<open>api/handler/user.go: the cached balance read.\<close>

definition queryUserBalance ::
  "('r, 'q, 'b, 'l) env \<Rightarrow> string \<Rightarrow> ('r, 'q, 'b, 'l, sql_error + UserBalanceResponse) act" where
  "queryUserBalance E uid = do {
     x \<leftarrow> query_row E (Read (DB E)) (sql_select_user (pg E) uid);
     ret (case x of
            Inl e \<Rightarrow> Inl e
          | Inr (i, r) \<Rightarrow> Inr \<lparr>ub_UserID = uuid_out (pg E) i, ub_Username = username r,
              ub_Balance = scan_float (pg E) (balance r), ub_Status = user_status r,
              ub_FetchedAt = zero_time\<rparr>)
   }"

definition GetUserBalance :: "('r, 'q, 'b, 'l) env \<Rightarrow> ('r, 'q, 'b, 'l) handler" where
  "GetUserBalance E c =
     (let traceID = trace_id c; userID = param_id c in
      if userID = [] then
        ret (json 400 [(''error'', JStr ''missing user id''), (''trace_id'', JStr traceID)])
      else do {
        let cacheKey = UserBalanceKey userID;
        got \<leftarrow> cache_Get E (dec_balance (codec E)) cacheKey;
        (case got of
           Inr (Some resp) \<Rightarrow> do {
             count (CacheHitsTotal ''user_balance'');
             ret \<lparr>code = 200, headers = [(''X-Cache'', ''HIT'')], body = BalanceBody resp\<rparr>
           }
         | _ \<Rightarrow> do {
             (case got of Inl _ \<Rightarrow> count (CacheMissesTotal ''user_balance'') | _ \<Rightarrow> ret ());
             count (CacheMissesTotal ''user_balance'');
             res \<leftarrow> ExecuteWithCB E (queryUserBalance E userID);
             (case res of
                Inl err \<Rightarrow>
                  if err = Failure ErrNoRows then
                    ret (json 404 [(''error'', JStr ''user not found''), (''trace_id'', JStr traceID)])
                  else
                    ret (json 500 [(''error'', JStr ''failed to fetch user balance''), (''trace_id'', JStr traceID)])
              | Inr resp \<Rightarrow> do {
                  t \<leftarrow> now E;
                  let resp = resp\<lparr>ub_FetchedAt := t\<rparr>;
                  cache_Set E (enc_balance (codec E)) cacheKey resp (DefaultTTL (getenv E));
                  ret \<lparr>code = 200, headers = [(''X-Cache'', ''MISS'')], body = BalanceBody resp\<rparr>
                })
           })
      })"

section \<open>The shared contract\<close>

lemma queryUserBalance_run:
  "result (queryUserBalance E uid) w =
     (case pg_fate (pg E) (n_pg w) of
        Answered \<Rightarrow>
          (case sql_select_user (pg E) uid (servers w (Read (DB E))) of
             Inl e \<Rightarrow> Inl e
           | Inr (i, r) \<Rightarrow> Inr \<lparr>ub_UserID = uuid_out (pg E) i, ub_Username = username r,
               ub_Balance = scan_float (pg E) (balance r), ub_Status = user_status r,
               ub_FetchedAt = zero_time\<rparr>)
      | RequestLost e \<Rightarrow> Inl (DriverError e)
      | ReplyLost e \<Rightarrow> Inl (DriverError e))"
  "exec (queryUserBalance E uid) w = w\<lparr>n_pg := Suc (n_pg w)\<rparr>"
  by (simp_all add: queryUserBalance_def running split: round_trip.split)

interpretation balance_read: cached_read E "GetUserBalance E" UserBalanceKey
    "enc_balance (codec E)" "dec_balance (codec E)" "queryUserBalance E"
    "\<lambda>x. do { t \<leftarrow> now E; ret (x\<lparr>ub_FetchedAt := t\<rparr>) }" BalanceBody "''user_balance''"
  for E :: "('r, 'q, 'b, 'l) env"
proof
  fix c :: gin_ctx and w :: "('r, 'q, 'b, 'l) world"
  assume "param_id c = []"
  then show "code (result (GetUserBalance E c) w) = 400 \<and> exec (GetUserBalance E c) w = w"
    by (simp add: GetUserBalance_def Let_def)
next
  fix c :: gin_ctx and w :: "('r, 'q, 'b, 'l) world" and v
  assume "param_id c \<noteq> []"
    and "result (cache_Get E (dec_balance (codec E)) (UserBalanceKey (param_id c))) w = Inr (Some v)"
  then show "result (GetUserBalance E c) w = answer ''HIT'' (BalanceBody v) \<and>
      exec (GetUserBalance E c) w = exec (count (CacheHitsTotal ''user_balance''))
        (exec (cache_Get E (dec_balance (codec E)) (UserBalanceKey (param_id c))) w)"
    by (simp add: GetUserBalance_def Let_def answer_def)
next
  fix c :: gin_ctx and w w' :: "('r, 'q, 'b, 'l) world" and got err
  assume id: "param_id c \<noteq> []"
    and got: "result (cache_Get E (dec_balance (codec E)) (UserBalanceKey (param_id c))) w = got"
    and miss: "\<And>v. got \<noteq> Inr (Some v)"
    and w': "w' = missed ''user_balance'' (misses got)
      (exec (cache_Get E (dec_balance (codec E)) (UserBalanceKey (param_id c))) w)"
    and err: "result (ExecuteWithCB E (queryUserBalance E (param_id c))) w' = Inl err"
  from miss have "(\<exists>e. got = Inl e) \<or> got = Inr None" by (metis option.exhaust sum.exhaust)
  then show "code (result (GetUserBalance E c) w) = (if err = Failure ErrNoRows then 404 else 500) \<and>
      exec (GetUserBalance E c) w = exec (ExecuteWithCB E (queryUserBalance E (param_id c))) w'"
    using id got err unfolding w'
    by (auto simp: GetUserBalance_def Let_def count_run missed_def misses_def numeral_2_eq_2)
next
  fix c :: gin_ctx and w w' w'' :: "('r, 'q, 'b, 'l) world" and got x v
  assume id: "param_id c \<noteq> []"
    and got: "result (cache_Get E (dec_balance (codec E)) (UserBalanceKey (param_id c))) w = got"
    and miss: "\<And>v. got \<noteq> Inr (Some v)"
    and w': "w' = missed ''user_balance'' (misses got)
      (exec (cache_Get E (dec_balance (codec E)) (UserBalanceKey (param_id c))) w)"
    and ok: "result (ExecuteWithCB E (queryUserBalance E (param_id c))) w' = Inr x"
    and w'': "w'' = exec (do { t \<leftarrow> now E; ret (x\<lparr>ub_FetchedAt := t\<rparr>) })
      (exec (ExecuteWithCB E (queryUserBalance E (param_id c))) w')"
    and v: "v = result (do { t \<leftarrow> now E; ret (x\<lparr>ub_FetchedAt := t\<rparr>) })
      (exec (ExecuteWithCB E (queryUserBalance E (param_id c))) w')"
  from miss have "(\<exists>e. got = Inl e) \<or> got = Inr None" by (metis option.exhaust sum.exhaust)
  then show "result (GetUserBalance E c) w = answer ''MISS'' (BalanceBody v) \<and>
      exec (GetUserBalance E c) w =
        exec (cache_Set E (enc_balance (codec E)) (UserBalanceKey (param_id c)) v (DefaultTTL (getenv E))) w''"
    using id got ok unfolding w' w'' v
    by (auto simp: GetUserBalance_def Let_def count_run missed_def misses_def answer_def numeral_2_eq_2)
qed (auto intro!: unchangedI simp: queryUserBalance_run running stores_def)

section \<open>Properties of the balance read\<close>

lemma balance_fallback:
  assumes "param_id c \<noteq> []"
    and "\<And>s. fst (rd_get (rds E) (UserBalanceKey (param_id c)) (clock E (ticks w)) (redis w)) \<noteq> RedisBytes s"
  shows "case fst (cb_allow (cb E) (clock E (Suc (ticks w))) (dbCircuitBreaker w)) of
      Inl _ \<Rightarrow> code (result (GetUserBalance E c) w) = 500
    | Inr _ \<Rightarrow>
        (case pg_fate (pg E) (n_pg w) of
           Answered \<Rightarrow>
             (case sql_select_user (pg E) (param_id c) (servers w (Read (DB E))) of
                Inl e \<Rightarrow> code (result (GetUserBalance E c) w) = (if e = ErrNoRows then 404 else 500)
              | Inr (i, r) \<Rightarrow> \<exists>t. result (GetUserBalance E c) w = answer ''MISS'' (BalanceBody
                  \<lparr>ub_UserID = uuid_out (pg E) i, ub_Username = username r,
                   ub_Balance = scan_float (pg E) (balance r), ub_Status = user_status r, ub_FetchedAt = t\<rparr>))
         | _ \<Rightarrow> code (result (GetUserBalance E c) w) = 500)"
proof -
  obtain got where miss: "result (cache_Get E (dec_balance (codec E)) (UserBalanceKey (param_id c))) w = got"
    "\<And>v. got \<noteq> Inr (Some v)"
    using assms(2) by (auto simp: running split: redis_reply.split)
  let ?w = "missed ''user_balance'' (misses got)
    (exec (cache_Get E (dec_balance (codec E)) (UserBalanceKey (param_id c))) w)"
  let ?allow = "fst (cb_allow (cb E) (clock E (Suc (ticks w))) (dbCircuitBreaker w))"
  have q: "result (ExecuteWithCB E (queryUserBalance E (param_id c))) ?w =
      (case ?allow of
         Inl r \<Rightarrow> Inl (Refused r)
       | Inr gen \<Rightarrow> (case result (queryUserBalance E (param_id c)) (exec (breaker_Allow E) ?w) of
           Inl e \<Rightarrow> Inl (Failure e) | Inr v \<Rightarrow> Inr v))"
  proof -
    have "result (breaker_Allow E) ?w = ?allow" by (simp add: running)
    then show ?thesis by (simp only: ExecuteWithCB_result)
  qed
  have query: "result (queryUserBalance E (param_id c)) (exec (breaker_Allow E) ?w) =
      result (queryUserBalance E (param_id c)) w"
  proof -
    have "servers (exec (breaker_Allow E) ?w) = servers w" "n_pg (exec (breaker_Allow E) ?w) = n_pg w"
      by (simp_all add: running)
    then show ?thesis by (simp only: queryUserBalance_run)
  qed
  note bad = balance_read.failed[OF assms(1) miss refl] and good = balance_read.found[OF assms(1) miss refl _ refl refl]
  show ?thesis
  proof (cases ?allow)
    case (Inl r)
    then show ?thesis using bad[of "Refused r"] q by simp
  next
    case (Inr gen)
    show ?thesis
    proof (cases "result (queryUserBalance E (param_id c)) w")
      case (Inl e)
      then have "code (result (GetUserBalance E c) w) = (if e = ErrNoRows then 404 else 500)"
        using bad[of "Failure e"] q Inr query by simp
      then show ?thesis
        using Inl Inr by (auto simp: queryUserBalance_run split: round_trip.splits sum.splits prod.splits)
    next
      case (Inr v)
      then have "\<exists>t. result (GetUserBalance E c) w = answer ''MISS'' (BalanceBody (v\<lparr>ub_FetchedAt := t\<rparr>))"
        using good q \<open>?allow = Inr gen\<close> query by (auto simp: running)
      then show ?thesis
        using Inr \<open>?allow = Inr gen\<close>
        by (auto simp: queryUserBalance_run split: round_trip.splits sum.splits prod.splits)
    qed
  qed
qed

lemma balance_miss_value:
  assumes "param_id c \<noteq> []"
    and "fst (rd_get (rds E) (UserBalanceKey (param_id c)) (clock E (ticks w)) (redis w)) = RedisNil"
    and "fst (cb_allow (cb E) (clock E (Suc (ticks w))) (dbCircuitBreaker w)) = Inr gen"
    and "pg_fate (pg E) (n_pg w) = Answered"
  shows "case sql_select_user (pg E) (param_id c) (servers w (Read (DB E))) of
      Inl e \<Rightarrow> code (result (GetUserBalance E c) w) = (if e = ErrNoRows then 404 else 500)
    | Inr (i, r) \<Rightarrow> \<exists>t. result (GetUserBalance E c) w = answer ''MISS'' (BalanceBody
        \<lparr>ub_UserID = uuid_out (pg E) i, ub_Username = username r,
         ub_Balance = scan_float (pg E) (balance r), ub_Status = user_status r, ub_FetchedAt = t\<rparr>)"
  using balance_fallback[of c E w] assms by (simp split: sum.splits prod.splits)

text \<open>
  C30: The balance endpoint, when Redis has no entry, the breaker admits the call and the read
  server answers: a malformed id gives 500, an unknown user 404, and a known user 200 with
  \<open>X-Cache: MISS\<close> and exactly the id, name, balance and status of the user's row on the read
  server.
\<close>

theorem balance_miss_answer:
  assumes "param_id c \<noteq> []"
    and "fst (rd_get (rds E) (UserBalanceKey (param_id c)) (clock E (ticks w)) (redis w)) = RedisNil"
    and "fst (cb_allow (cb E) (clock E (Suc (ticks w))) (dbCircuitBreaker w)) = Inr gen"
    and "pg_fate (pg E) (n_pg w) = Answered"
  shows "case uuid_in (pg E) (param_id c) of
      None \<Rightarrow> code (result (GetUserBalance E c) w) = 500
    | Some u \<Rightarrow>
        (case users (servers w (Read (DB E))) u of
           None \<Rightarrow> code (result (GetUserBalance E c) w) = 404
         | Some r \<Rightarrow> \<exists>t. result (GetUserBalance E c) w = answer ''MISS'' (BalanceBody
             \<lparr>ub_UserID = uuid_out (pg E) u, ub_Username = username r,
              ub_Balance = scan_float (pg E) (balance r), ub_Status = user_status r, ub_FetchedAt = t\<rparr>))"
  using balance_miss_value[OF assms] by (auto simp: sql_select_user_def split: option.splits)

theorem balance_miss_answer_witness:
  "(\<exists>t. result (GetUserBalance sample_env (sample_ctx\<lparr>param_id := ''7''\<rparr>)) sample_world =
     answer ''MISS'' (BalanceBody \<lparr>ub_UserID = ''7'', ub_Username = ''ana'', ub_Balance = 10,
       ub_Status = ''active'', ub_FetchedAt = t\<rparr>)) \<and>
   code (result (GetUserBalance sample_env (sample_ctx\<lparr>param_id := ''2''\<rparr>)) sample_world) = 404 \<and>
   code (result (GetUserBalance sample_env (sample_ctx\<lparr>param_id := ''x''\<rparr>)) sample_world) = 500"
proof -
  have seven: "dec_nat 7 = ''7''" by code_simp
  show ?thesis
    using balance_miss_answer [of "sample_ctx\<lparr>param_id := ''7''\<rparr>" sample_env sample_world 0]
      balance_miss_answer [of "sample_ctx\<lparr>param_id := ''2''\<rparr>" sample_env sample_world 0]
      balance_miss_answer [of "sample_ctx\<lparr>param_id := ''x''\<rparr>" sample_env sample_world 0]
    by (simp add: sample_rows seven)
qed

text \<open>
  C40: When the cache fails, as opposed to having no entry, the balance handler counts the request
  as two cache misses (the branch for the error counts one and falls through to the statement that
  counts misses) and falls back to the database: if the breaker admits the query and the read
  server answers it, the answer is 200 with the user's row, 404 for an unknown user, 500 for a
  malformed id; it is 500 if the breaker refuses or the round trip is lost.
\<close>

theorem cache_failure_counts_two_misses:
  assumes "param_id c \<noteq> []"
    and "fst (rd_get (rds E) (UserBalanceKey (param_id c)) (clock E (ticks w)) (redis w)) = RedisError e"
  shows "counter (CacheMissesTotal ''user_balance'') (mtrace (exec (GetUserBalance E c) w)) =
    2 + counter (CacheMissesTotal ''user_balance'') (mtrace w) \<and>
    counter (CacheHitsTotal ''user_balance'') (mtrace (exec (GetUserBalance E c) w)) =
    counter (CacheHitsTotal ''user_balance'') (mtrace w) \<and>
    (case fst (cb_allow (cb E) (clock E (Suc (ticks w))) (dbCircuitBreaker w)) of
       Inl _ \<Rightarrow> code (result (GetUserBalance E c) w) = 500
     | Inr _ \<Rightarrow>
         (case pg_fate (pg E) (n_pg w) of
            Answered \<Rightarrow>
              (case sql_select_user (pg E) (param_id c) (servers w (Read (DB E))) of
                 Inl e \<Rightarrow> code (result (GetUserBalance E c) w) = (if e = ErrNoRows then 404 else 500)
               | Inr (i, r) \<Rightarrow> \<exists>t. result (GetUserBalance E c) w = answer ''MISS'' (BalanceBody
                   \<lparr>ub_UserID = uuid_out (pg E) i, ub_Username = username r,
                    ub_Balance = scan_float (pg E) (balance r), ub_Status = user_status r, ub_FetchedAt = t\<rparr>))
          | _ \<Rightarrow> code (result (GetUserBalance E c) w) = 500))"
proof -
  have no_gauge: "counter (CacheMissesTotal l) (gauge_calls n chs) = 0" "counter (CacheHitsTotal l) (gauge_calls n chs) = 0"
    for l n chs by (induction chs) (auto simp: gauge_calls_def)
  have got: "fst (rd_get (rds E) (UserBalanceKey (param_id c)) (clock E (ticks w)) (redis w)) = RedisError e"
    by (rule assms(2))
  then have "fst (rd_get (rds E) (UserBalanceKey (param_id c)) (clock E (ticks w)) (redis w)) \<noteq> RedisBytes s" for s
    by simp
  note fallback = balance_fallback[OF assms(1) this]
  have "counter (CacheMissesTotal ''user_balance'') (mtrace (exec (GetUserBalance E c) w)) =
      2 + counter (CacheMissesTotal ''user_balance'') (mtrace w)"
    and "counter (CacheHitsTotal ''user_balance'') (mtrace (exec (GetUserBalance E c) w)) =
      counter (CacheHitsTotal ''user_balance'') (mtrace w)"
    using assms(1)
    by (auto simp: GetUserBalance_def Let_def running got ExecuteWithCB_exec queryUserBalance_run no_gauge
        split: sum.split)
  with fallback show ?thesis by blast
qed

theorem cache_failure_counts_two_misses_witness:
  "let E = sample_env\<lparr>rds := sample_redis_lib\<lparr>rd_get := \<lambda>k t m. (RedisError ''down'', m)\<rparr>\<rparr>; c = sample_ctx\<lparr>param_id := ''7''\<rparr>
   in counter (CacheMissesTotal ''user_balance'') (mtrace (exec (GetUserBalance E c) sample_world)) = 2 \<and>
     code (result (GetUserBalance E c) sample_world) = 200"
  using cache_failure_counts_two_misses [of "sample_ctx\<lparr>param_id := ''7''\<rparr>"
      "sample_env\<lparr>rds := sample_redis_lib\<lparr>rd_get := \<lambda>k t m. (RedisError ''down'', m)\<rparr>\<rparr>" sample_world "''down''"]
  by (auto simp: Let_def sql_select_user_def sample_rows)

end
