(* ===== verification/Baseline.thy ===== *)
theory Baseline
  imports Consumer Users
begin

text \<open>
  api/handler/v0_transaction.go: the same three endpoints without cache, queue and breaker, kept
  for comparison.  A creation inserts the completed transaction and moves the balance in one
  serializable database transaction.
\<close>

definition v0_error :: "nat \<Rightarrow> string \<Rightarrow> string \<Rightarrow> response" where
  "v0_error n err traceID = json n
     [(''error'', JStr err), (''trace_id'', JStr traceID), (''version'', JStr ''v0-no-optimization'')]"

text \<open>The \<open>switch\<close> on the type: no statement for an unknown type.\<close>

definition v0_balance_query :: "string \<Rightarrow> direction option" where
  "v0_balance_query ty =
     (if ty = ''credit'' then Some Plus
      else if ty \<in> {''debit'', ''transfer''} then Some Minus
      else None)"

text \<open>From \<open>BeginTx\<close> to \<open>Commit\<close>.\<close>

definition v0_write ::
  "('r, 'q, 'b, 'l) env \<Rightarrow> string \<Rightarrow> CreateTransactionRequest \<Rightarrow> ('r, 'q, 'b, 'l, response) act" where
  "v0_write E traceID req = do {
     txnID \<leftarrow> new_uuid E;
     t \<leftarrow> now E;
     let refID = reference_id E t txnID;
     b \<leftarrow> begin_tx E (Write (DB E));
     (case b of
        Inl _ \<Rightarrow> ret (v0_error 500 ''failed to begin transaction'' traceID)
      | Inr tx \<Rightarrow> do {
          x \<leftarrow> exec_tx E tx (sql_insert_transaction (pg E) Completed txnID (req_UserID req)
                 (req_Type req) (req_Amount req) refID (req_Description req));
          (case x of
             Inl _ \<Rightarrow> do { rollback_tx tx; ret (v0_error 500 ''failed to insert transaction'' traceID) }
           | Inr tx \<Rightarrow> do {
               y \<leftarrow> (case v0_balance_query (req_Type req) of
                       None \<Rightarrow> ret (Inr tx)
                     | Some dir \<Rightarrow> exec_tx E tx
                         (sql_move_balance (pg E) dir (req_Amount req) (req_UserID req)));
               (case y of
                  Inl _ \<Rightarrow> do { rollback_tx tx; ret (v0_error 500 ''failed to update balance'' traceID) }
                | Inr tx \<Rightarrow> do {
                    err \<leftarrow> commit_tx E tx;
                    rollback_tx tx;
                    (case err of
                       Some _ \<Rightarrow> ret (v0_error 500 ''failed to commit transaction'' traceID)
                     | None \<Rightarrow>
                         ret (json 200 [(''id'', JStr txnID), (''status'', JStr ''completed''),
                           (''reference_id'', JStr refID),
                           (''message'', JStr ''Transaction processed synchronously''),
                           (''trace_id'', JStr traceID), (''version'', JStr ''v0-no-optimization'')]))
                  })
             })
        })
   }"

definition CreateTransactionV0 :: "('r, 'q, 'b, 'l) env \<Rightarrow> ('r, 'q, 'b, 'l) handler" where
  "CreateTransactionV0 E c =
     (let traceID = trace_id c in
      case ShouldBindJSON E (raw_body c) of
        Inl msg \<Rightarrow>
          ret (json 400 [(''error'', JStr ''invalid request''), (''message'', JStr msg),
            (''trace_id'', JStr traceID), (''version'', JStr ''v0-no-optimization'')])
      | Inr req \<Rightarrow> do {
          ex \<leftarrow> query_row E (Write (DB E)) (sql_user_active (pg E) (req_UserID req));
          if ex \<noteq> Inr True then
            ret (json 422 [(''error'', JStr ''invalid user''),
              (''message'', JStr ''User not found or inactive''), (''trace_id'', JStr traceID),
              (''version'', JStr ''v0-no-optimization'')])
          else v0_write E traceID req
        })"

definition v0_headers :: "(string \<times> string) list" where
  "v0_headers = [(''X-Cache'', ''DISABLED''), (''X-Version'', ''v0-no-optimization'')]"

definition GetTransactionV0 :: "('r, 'q, 'b, 'l) env \<Rightarrow> ('r, 'q, 'b, 'l) handler" where
  "GetTransactionV0 E c =
     (let traceID = trace_id c; txnID = param_id c in
      if txnID = [] then ret (v0_error 400 ''missing transaction id'' traceID)
      else do {
        x \<leftarrow> queryTransaction E txnID;
        (case x of
           Inl err \<Rightarrow>
             if err = ErrNoRows then ret (v0_error 404 ''transaction not found'' traceID)
             else ret (v0_error 500 ''failed to fetch transaction'' traceID)
         | Inr txn \<Rightarrow> ret \<lparr>code = 200, headers = v0_headers, body = TxnBody txn\<rparr>)
      })"

definition GetUserBalanceV0 :: "('r, 'q, 'b, 'l) env \<Rightarrow> ('r, 'q, 'b, 'l) handler" where
  "GetUserBalanceV0 E c =
     (let traceID = trace_id c; userID = param_id c in
      if userID = [] then ret (v0_error 400 ''missing user id'' traceID)
      else do {
        x \<leftarrow> queryUserBalance E userID;
        (case x of
           Inl err \<Rightarrow>
             if err = ErrNoRows then ret (v0_error 404 ''user not found'' traceID)
             else ret (v0_error 500 ''failed to fetch user balance'' traceID)
         | Inr resp \<Rightarrow> do {
             t \<leftarrow> now E;
             ret \<lparr>code = 200, headers = v0_headers, body = BalanceBody (resp\<lparr>ub_FetchedAt := t\<rparr>)\<rparr>
           })
      })"

section \<open>The synchronous write, step by step\<close>

text \<open>
  What the database transaction of the baseline does when it commits: the completed row and the
  move of the balance, as one step on the tables.
\<close>

definition v0_post ::
  "pg_lib \<Rightarrow> CreateTransactionRequest \<Rightarrow> string \<Rightarrow> string \<Rightarrow> statement" where
  "v0_post P req txnID refID t tb =
     (case sql_insert_transaction P Completed txnID (req_UserID req) (req_Type req) (req_Amount req)
        refID (req_Description req) t tb of
        Inl e \<Rightarrow> Inl e
      | Inr tb1 \<Rightarrow>
          (case v0_balance_query (req_Type req) of
             None \<Rightarrow> Inr tb1
           | Some dir \<Rightarrow> sql_move_balance P dir (req_Amount req) (req_UserID req) t tb1))"

lemma v0_write_cases:
  fixes E :: "('r, 'q, 'b, 'l) env" and w :: "('r, 'q, 'b, 'l) world" and req :: CreateTransactionRequest
    and tr :: string
  defines "tid \<equiv> uuid_new E (n_uuid w)" and "ref \<equiv> reference_id E (clock E (ticks w)) (uuid_new E (n_uuid w))"
    and "t \<equiv> clock E (Suc (ticks w))" and "w' \<equiv> exec (v0_write E tr req) w"
    and "r \<equiv> result (v0_write E tr req) w"
  shows "(code r = 200 \<and> field ''id'' r = Some (JStr tid) \<and>
      (\<exists>tb. v0_post (pg E) req tid ref t (servers w (Write (DB E))) = Inr tb \<and>
        servers w' = (servers w)(Write (DB E) := tb))) \<or>
    (code r = 500 \<and> (servers w' = servers w \<or>
      (\<exists>tb m. v0_post (pg E) req tid ref t (servers w (Write (DB E))) = Inr tb \<and>
        servers w' = (servers w)(Write (DB E) := tb) \<and> n_pg w < n_pg w' \<and>
        pg_fate (pg E) (n_pg w' - 1) = ReplyLost m)))"
  unfolding w'_def r_def tid_def ref_def t_def
  by (auto simp: v0_write_def running Let_def v0_post_def v0_error_def
      split: round_trip.splits sum.splits option.splits)

lemma v0_write_frame [framing]:
  "unchanged broker (v0_write E tr req)" "unchanged redis (v0_write E tr req)"
  "unchanged mtrace (v0_write E tr req)" "unchanged gates (v0_write E tr req)"
  by (auto intro!: unchangedI simp: v0_write_def running Let_def gates_def
      split: round_trip.splits sum.splits option.splits)

lemma v0_result:
  "result (CreateTransactionV0 E c) w =
     (case ShouldBindJSON E (raw_body c) of
        Inl msg \<Rightarrow> json 400 [(''error'', JStr ''invalid request''), (''message'', JStr msg),
          (''trace_id'', JStr (trace_id c)), (''version'', JStr ''v0-no-optimization'')]
      | Inr req \<Rightarrow>
          if result (query_row E (Write (DB E)) (sql_user_active (pg E) (req_UserID req))) w \<noteq> Inr True
          then json 422 [(''error'', JStr ''invalid user''), (''message'', JStr ''User not found or inactive''),
            (''trace_id'', JStr (trace_id c)), (''version'', JStr ''v0-no-optimization'')]
          else result (v0_write E (trace_id c) req) (w\<lparr>n_pg := Suc (n_pg w)\<rparr>))"
  by (simp add: CreateTransactionV0_def Let_def query_row_run(2) split: sum.split)

lemma v0_exec:
  "exec (CreateTransactionV0 E c) w =
     (case ShouldBindJSON E (raw_body c) of
        Inl msg \<Rightarrow> w
      | Inr req \<Rightarrow>
          if result (query_row E (Write (DB E)) (sql_user_active (pg E) (req_UserID req))) w \<noteq> Inr True
          then w\<lparr>n_pg := Suc (n_pg w)\<rparr>
          else exec (v0_write E (trace_id c) req) (w\<lparr>n_pg := Suc (n_pg w)\<rparr>))"
  by (simp add: CreateTransactionV0_def Let_def query_row_run(2) split: sum.split)

section \<open>Properties\<close>

text \<open>
  C13: The baseline write is atomic.  The answer 200 means that the completed row and the move of
  the balance were both applied to the write server, in one step, and the answer carries the
  row's id; any other answer means that nothing was applied, unless it is a 500 for a commit
  whose answer was lost, which applied both.  Cache, queue and breaker are never touched.
\<close>

theorem baseline_write_atomic:
  fixes E :: "('r, 'q, 'b, 'l) env" and w :: "('r, 'q, 'b, 'l) world" and c :: gin_ctx
  defines "r \<equiv> result (CreateTransactionV0 E c) w" and "w' \<equiv> exec (CreateTransactionV0 E c) w"
    and "tid \<equiv> uuid_new E (n_uuid w)" and "ref \<equiv> reference_id E (clock E (ticks w)) (uuid_new E (n_uuid w))"
  shows "code r \<in> {200, 400, 422, 500} \<and> redis w' = redis w \<and> broker w' = broker w \<and> gates w' = gates w \<and>
    (servers w' = servers w \<and> code r \<noteq> 200 \<or>
     (\<exists>req tb. ShouldBindJSON E (raw_body c) = Inr req \<and> valid_request req \<and>
       v0_post (pg E) req tid ref (clock E (Suc (ticks w))) (servers w (Write (DB E))) = Inr tb \<and>
       servers w' = (servers w)(Write (DB E) := tb) \<and>
       (code r = 200 \<and> field ''id'' r = Some (JStr tid) \<or>
        code r = 500 \<and> (\<exists>m. pg_fate (pg E) (n_pg w' - 1) = ReplyLost m))))"
proof (cases "ShouldBindJSON E (raw_body c)")
  case (Inl msg)
  then show ?thesis by (simp add: r_def w'_def v0_result v0_exec)
next
  case (Inr req)
  let ?w = "w\<lparr>n_pg := Suc (n_pg w)\<rparr>"
  show ?thesis
  proof (cases "result (query_row E (Write (DB E)) (sql_user_active (pg E) (req_UserID req))) w = Inr True")
    case False
    then show ?thesis using Inr by (simp add: r_def w'_def v0_result v0_exec gates_def)
  next
    case True
    then have run: "r = result (v0_write E (trace_id c) req) ?w" "w' = exec (v0_write E (trace_id c) req) ?w"
      using Inr by (simp_all add: r_def w'_def v0_result v0_exec)
    have frame: "redis w' = redis w" "broker w' = broker w" "gates w' = gates w"
      using unchangedD[OF v0_write_frame(1), of E "trace_id c" req ?w] unchangedD[OF v0_write_frame(2), of E "trace_id c" req ?w]
        unchangedD[OF v0_write_frame(4), of E "trace_id c" req ?w] run by (simp_all add: gates_def)
    from v0_write_cases[of E "trace_id c" req ?w] show ?thesis
      using Inr bind_valid[OF Inr] frame unfolding run[symmetric] tid_def ref_def by auto
  qed
qed

lemma sample_v0: "code (result (CreateTransactionV0 sample_env sample_ctx) sample_world) = 200"
proof -
  have n: "numeric_18_2 (10 + - (5 / 2)) = Inr 750"
    using round_cents_int[of "15 / 2" 750] by (simp add: numeric_18_2_def fits_18_2_def)
  have d: "dec_nat 2 = ''2''" by simp
  show ?thesis
    using n
    by (simp add: v0_result v0_write_def Let_def running sample_tables_def sample_user_def sample_row_def
        sql_user_active_def sql_insert_transaction_def sample_texts sample_cents reference_id_def
        v0_balance_query_def sql_move_balance_def)
qed

theorem baseline_write_atomic_witness:
  "\<exists>tb. v0_post (pg sample_env) sample_request ''2'' ''REF-20260101-2'' 1000000000 sample_tables = Inr tb \<and>
     servers (exec (CreateTransactionV0 sample_env sample_ctx) sample_world) = (\<lambda>_. sample_tables)((''postgres'', ''5432'') := tb)"
  using baseline_write_atomic [of sample_env sample_ctx sample_world] sample_v0
  by (auto simp: reference_id_def)

section \<open>The baseline and the asynchronous path agree\<close>

text \<open>What a settled transaction is in the ledger: its row without reference and times.\<close>

definition ledger_row :: "txn_row \<Rightarrow> uuid \<times> uuid \<times> string \<times> cents \<times> txn_status \<times> string option" where
  "ledger_row r = (row_id r, row_user r, row_type r, row_amount r, row_status r, row_description r)"

definition same_ledger :: "tables \<Rightarrow> tables \<Rightarrow> bool" where
  "same_ledger tb tb' \<longleftrightarrow>
     balance_at tb = balance_at tb' \<and> map ledger_row (transactions tb) = map ledger_row (transactions tb')"

lemma move_balance_same:
  assumes "sql_move_balance P dir amt uid t tb = Inr tb1" and "sql_move_balance P dir amt uid t' tb' = Inr tb1'"
    and "users tb = users tb'"
  shows "balance_at tb1 = balance_at tb1'"
proof -
  obtain u where u: "uuid_in P uid = Some u"
    using assms(1) by (cases "uuid_in P uid") (simp_all add: sql_move_balance_def)
  show ?thesis
  proof (cases "users tb' u")
    case None
    then show ?thesis
      using assms u by (auto simp: sql_move_balance_def balance_at_def)
  next
    case (Some r)
    then show ?thesis
      using assms u by (auto simp: sql_move_balance_def balance_at_def split: sum.splits)
  qed
qed

lemma posted_same_ledger:
  assumes pend: "sql_insert_transaction P Pending tid (req_UserID req) (req_Type req) (req_Amount req) ref1
      (req_Description req) t1 tb = Inr tb1"
    and proc: "sql_set_status P Processing tid t2 tb1 = Inr tb2" "post P msg t3 tb2 = Inr tb3"
    and msg: "same_order (message_of req tid tr tm) msg"
    and sync: "v0_post P req tid ref0 t0 tb = Inr tb0"
    and fresh: "\<And>r. r \<in> set (transactions tb) \<Longrightarrow> uuid_in P tid \<noteq> Some (row_id r)"
  shows "same_ledger tb3 tb0"
proof -
  note same = msg[unfolded same_order_def message_of_def, simplified]
  from sync obtain tb0' where ins0: "sql_insert_transaction P Completed tid (req_UserID req) (req_Type req)
      (req_Amount req) ref0 (req_Description req) t0 tb = Inr tb0'"
    by (auto simp: v0_post_def split: sum.splits)
  from pend obtain i u c where i: "uuid_in P tid = Some i" and u: "uuid_in P (req_UserID req) = Some u"
    and c: "round_cents (pq_float P (req_Amount req)) = c"
    and tb1: "tb1 = tb\<lparr>transactions := transactions tb @
          [\<lparr>row_id = i, row_user = u, row_type = req_Type req, row_amount = c, row_status = Pending,
            row_reference = Some ref1, row_description = Some (req_Description req),
            row_created = timestamptz t1, row_updated = timestamptz t1\<rparr>]\<rparr>"
    by (rule insert_Inr) blast
  from ins0 i u c have tb0': "tb0' = tb\<lparr>transactions := transactions tb @
          [\<lparr>row_id = i, row_user = u, row_type = req_Type req, row_amount = c, row_status = Completed,
            row_reference = Some ref0, row_description = Some (req_Description req),
            row_created = timestamptz t0, row_updated = timestamptz t0\<rparr>]\<rparr>"
    by (elim insert_Inr) simp
  have old: "map (\<lambda>r. if row_id r = i then mark st t r else r) (transactions tb) = transactions tb" for st t
    using fresh i by (intro map_idI) auto
  from proc(1) i have tb2: "tb2 = tb1\<lparr>transactions :=
      map (\<lambda>r. if row_id r = i then mark Processing t2 r else r) (transactions tb1)\<rparr>"
    by (simp add: sql_set_status_def)
  define tb2' where "tb2' = tb2\<lparr>transactions :=
      map (\<lambda>r. if row_id r = i then mark Completed t3 r else r) (transactions tb2)\<rparr>"
  have completed: "sql_set_status P Completed tid t3 tb2 = Inr tb2'"
    using i by (simp add: sql_set_status_def tb2'_def)
  have rows: "map ledger_row (transactions tb2') = map ledger_row (transactions tb0')"
    unfolding tb2'_def tb2 tb1 tb0' by (simp add: old mark_def ledger_row_def del: map_map)
  have users: "users tb2' = users tb0'"
    unfolding tb2'_def tb2 tb1 tb0' by simp
  have q: "v0_balance_query ty = balance_query ty" for ty
    by (simp add: v0_balance_query_def balance_query_def)
  show ?thesis
  proof (cases "balance_query (req_Type req)")
    case None
    then have "tb3 = tb2'" "tb0 = tb0'"
      using proc(2) completed sync ins0 by (simp_all add: post_def same v0_post_def q)
    then show ?thesis using rows users by (simp add: same_ledger_def balance_at_def fun_eq_iff)
  next
    case (Some dir)
    then have mv: "sql_move_balance P dir (req_Amount req) (req_UserID req) t3 tb2' = Inr tb3"
      "sql_move_balance P dir (req_Amount req) (req_UserID req) t0 tb0' = Inr tb0"
      using proc(2) completed sync ins0 by (simp_all add: post_def same v0_post_def q)
    from move_balance_same[OF mv users] move_rows.keeps[OF refl mv(1)] move_rows.keeps[OF refl mv(2)] rows
    show ?thesis by (simp add: same_ledger_def)
  qed
qed

lemma process_None_post:
  assumes "result (processTransaction E msg) w = None"
  shows "\<exists>t t' tb1 tb2. sql_set_status (pg E) Processing (msg_TransactionID msg) t (servers w (Write (DB E))) = Inr tb1 \<and>
    post (pg E) msg t' tb1 = Inr tb2 \<and>
    servers (exec (processTransaction E msg) w) = (servers w)(Write (DB E) := tb2)"
proof -
  let ?w = "exec (mark_processing E msg) w"
  have m: "result (mark_processing E msg) w = None" and c: "result (complete_and_move E msg) ?w = None"
    using assms by (auto simp: process_result split: option.splits)
  obtain t tb1 where tb1: "sql_set_status (pg E) Processing (msg_TransactionID msg) t (servers w (Write (DB E))) = Inr tb1"
    "servers ?w = (servers w)(Write (DB E) := tb1)"
    using m by (auto simp: exec_statement_run split: round_trip.splits sum.splits)
  from complete_None[OF c] obtain t' tb2 where "post (pg E) msg t' tb1 = Inr tb2"
    "servers (exec (complete_and_move E msg) ?w) = (servers w)(Write (DB E) := tb2)"
    using tb1(2) by auto
  then show ?thesis using tb1(1) m by (auto simp: process_servers)
qed

lemma create_write_202_insert:
  assumes "code (result (create_write E tr req k) w) = 202"
  shows "\<exists>ref t tb. sql_insert_transaction (pg E) Pending (uuid_new E (n_uuid w)) (req_UserID req) (req_Type req)
      (req_Amount req) ref (req_Description req) t (servers w (Write (DB E))) = Inr tb \<and>
    servers (exec (create_write E tr req k) w) = (servers w)(Write (DB E) := tb)"
proof -
  let ?tid = "uuid_new E (n_uuid w)"
  let ?w = "w\<lparr>n_uuid := Suc (n_uuid w), ticks := Suc (ticks w)\<rparr>"
  let ?ref = "reference_id E (clock E (ticks w)) ?tid"
  from assms obtain x where x: "result (create_insert E req ?tid ?ref) ?w = Inr x"
    by (auto simp: create_write_def running Let_def split: sum.splits)
  from create_insert_Inr[OF x] show ?thesis
    using x by (auto simp: create_write_def running Let_def unchangedD[OF create_finish_frame])
qed

lemma create_202_insert:
  assumes "code (result (CreateTransaction E c) w) = 202" and "ShouldBindJSON E (raw_body c) = Inr req"
  shows "\<exists>ref t tb. sql_insert_transaction (pg E) Pending (uuid_new E (n_uuid w)) (req_UserID req) (req_Type req)
      (req_Amount req) ref (req_Description req) t (servers w (Write (DB E))) = Inr tb \<and>
    servers (exec (CreateTransaction E c) w) = (servers w)(Write (DB E) := tb)"
proof -
  let ?chk = "create_check E (trace_id c) req"
  obtain k where k: "result ?chk w = Inr k"
    using assms create_check_codes[of E "trace_id c" req w]
    by (cases "result ?chk w") (auto simp: create_result)
  then have "code (result (create_write E (trace_id c) req k) (exec ?chk w)) = 202"
    using assms by (simp add: create_result)
  from create_write_202_insert[OF this] show ?thesis
    using assms(2) k
    by (simp add: create_exec unchangedD[OF create_check_frame(1)] unchangedD[OF create_check_frame(4)])
qed

text \<open>
  C2: The asynchronous path computes what the synchronous baseline computes.  If one request is
  accepted with 202 and no warning, by a broker that queues what it is sent, then exactly one
  message is new on the queue; and if that message is later delivered and acknowledged, on
  databases that are still as the creation left them, while the same request sent to the baseline
  is answered 200, then both end with the same balances of all users and the same ledger rows, the
  new one being completed (references and times differ), provided the drawn id was not in use.
\<close>

theorem async_agrees_with_baseline:
  fixes E :: "('r, 'q, 'b, 'l) env" and w :: "('r, 'q, 'b, 'l) world" and c :: gin_ctx
  defines "w' \<equiv> exec (CreateTransaction E c) w"
  assumes async: "code (result (CreateTransaction E c) w) = 202"
      "field ''warning'' (result (CreateTransaction E c) w) = None"
    and broker: "queues_published (mq E) (queue_name (getenv E)) queued" "reads_back (codec E)"
    and sync: "code (result (CreateTransactionV0 E c) w) = 200"
    and fresh: "\<And>r. r \<in> set (transactions (servers w (Write (DB E)))) \<Longrightarrow>
      uuid_in (pg E) (uuid_new E (n_uuid w)) \<noteq> Some (row_id r)"
  shows "\<exists>body. queued (broker w') = queued (broker w) @ [body] \<and>
    (\<forall>d v. dl_body d = body \<and> servers v = servers w' \<and>
       result (consume_one E (processTransaction E) d) v = Ack \<longrightarrow>
         same_ledger (servers (exec (consume_one E (processTransaction E) d) v) (Write (DB E)))
           (servers (exec (CreateTransactionV0 E c) w) (Write (DB E))))"
proof -
  let ?tid = "uuid_new E (n_uuid w)" and ?W = "Write (DB E)"
  from create_queued[OF async broker] obtain req t data m where req: "ShouldBindJSON E (raw_body c) = Inr req"
    and queue: "queued (broker w') = queued (broker w) @ [data]"
    and m: "dec_msg (codec E) data = Inr m" "same_order (message_of req ?tid (trace_id c) t) m"
    unfolding w'_def by metis
  from create_202_insert[OF async(1) req] obtain ref1 t1 tb1 where pend:
    "sql_insert_transaction (pg E) Pending ?tid (req_UserID req) (req_Type req) (req_Amount req) ref1
      (req_Description req) t1 (servers w ?W) = Inr tb1" and w': "servers w' ?W = tb1"
    by (auto simp: w'_def)
  obtain ref0 t0 tb0 where base: "v0_post (pg E) req ?tid ref0 t0 (servers w ?W) = Inr tb0"
    and s: "servers (exec (CreateTransactionV0 E c) w) ?W = tb0"
    using sync req v0_write_cases[of E "trace_id c" req "w\<lparr>n_pg := Suc (n_pg w)\<rparr>"]
    by (auto simp: v0_result v0_exec split: if_splits)
  have agree: "same_ledger (servers (exec (consume_one E (processTransaction E) d) v) ?W) tb0"
    if d: "dl_body d = data" and v: "servers v = servers w'" and ack: "result (consume_one E (processTransaction E) d) v = Ack"
    for d v
  proof -
    have "result (processTransaction E m) v = None"
      using ack by (simp add: consume_one_result d m(1) split: option.splits)
    from process_None_post[OF this] obtain t2 t3 tb2 tb3 where
      "sql_set_status (pg E) Processing ?tid t2 tb1 = Inr tb2" "post (pg E) m t3 tb2 = Inr tb3"
      "servers (exec (processTransaction E m) v) ?W = tb3"
      using m(2) v w' by (auto simp: same_order_def message_of_def)
    then show ?thesis
      using posted_same_ledger[OF pend _ _ m(2) base fresh] by (simp add: consume_one_servers d m(1))
  qed
  show ?thesis unfolding s using queue agree by blast
qed

lemma sample_accepted: "servers (exec (CreateTransaction sample_env sample_ctx) sample_world) (''postgres'', ''5432'') =
    sample_tables\<lparr>transactions := [sample_row, \<lparr>row_id = 2, row_user = 7, row_type = ''debit'', row_amount = 250,
      row_status = Pending, row_reference = Some ''REF-20260101-2'', row_description = Some ''rent'',
      row_created = 3000000000, row_updated = 3000000000\<rparr>]\<rparr>"
  by (simp add: create_exec create_check_def create_write_def create_insert_def create_finish_def Let_def running
      ExecuteWithCB_result ExecuteWithCB_exec sql_user_active_def sample_tables_def sample_user_def sample_row_def
      sql_insert_transaction_def sample_texts sample_cents reference_id_def IdempotencyKey_def timestamptz_def)

theorem async_agrees_with_baseline_witness:
  "let w' = exec (CreateTransaction sample_env sample_ctx) sample_world; d = \<lparr>dl_tag = 1, dl_body = ''M2''\<rparr>
   in map (pub_Body \<circ> snd) (broker w') = [''M2''] \<and>
     same_ledger (servers (exec (consume_one sample_env (processTransaction sample_env) d) w') (''postgres'', ''5432''))
       (servers (exec (CreateTransactionV0 sample_env sample_ctx) sample_world) (''postgres'', ''5432''))"
proof -
  let ?v = "exec (CreateTransaction sample_env sample_ctx) sample_world" and ?d = "\<lparr>dl_tag = 1, dl_body = ''M2''\<rparr>"
  have b: "users (servers ?v (''postgres'', ''5432'')) 7 = Some sample_user"
    by (simp add: sample_accepted sample_tables_def)
  have "result (processTransaction sample_env (sample_msg\<lparr>msg_TransactionID := ''2''\<rparr>)) ?v = None"
    using process_answered [of sample_env ?v "sample_msg\<lparr>msg_TransactionID := ''2''\<rparr>" 2 7 sample_user] b
      round_cents_int[of "5 / 2" 250]
    by (simp add: sample_msg_def sample_user_def whole_cents_def delta_def fits_18_2_def)
  then have ack: "result (consume_one sample_env (processTransaction sample_env) ?d) ?v = Ack"
    by (simp add: consume_one_result)
  have q: "map (pub_Body \<circ> snd) (broker ?v) = [''M2'']" and warn: "field ''warning'' (result (CreateTransaction sample_env sample_ctx) sample_world) = None"
    by (simp_all add: create_result create_exec create_check_def create_write_def create_insert_def create_finish_def Let_def running
      ExecuteWithCB_result ExecuteWithCB_exec sql_user_active_def sample_tables_def sample_user_def sample_row_def
      sql_insert_transaction_def sample_texts sample_cents reference_id_def IdempotencyKey_def)
  have law: "queues_published (mq sample_env) (queue_name (getenv sample_env)) (map (pub_Body \<circ> snd))"
    by (simp add: queues_published_def)
  have codec: "reads_back (codec sample_env)" by (simp add: sample_reads_back)
  show ?thesis
    using async_agrees_with_baseline [OF sample_create(1) warn law codec sample_v0] q ack
    by (auto simp: Let_def sample_tables_def sample_row_def)
qed

end
