(* ===== verification/RateLimit.thy ===== *)
theory RateLimit
  imports Gates
begin

text \<open>
  api/middleware/ratelimit.go: one token bucket per client address, created at the first
  request, dropped by a background sweep when the address has been silent for ten minutes.
  Handlers run \<open>getLimiter\<close> and \<open>Allow\<close> back to back; the sweep runs between requests.
\<close>

definition getLimiter :: "('r, 'q, 'b, 'l) env \<Rightarrow> string \<Rightarrow> ('r, 'q, 'b, 'l, 'l) act" where
  "getLimiter E ip = do {
     tab \<leftarrow> reads limiters;
     (case tab ip of
        Some l \<Rightarrow> do {
          t \<leftarrow> now E;
          modify (\<lambda>w. w\<lparr>limiters := (limiters w)(ip \<mapsto> l\<lparr>lastSeen := t\<rparr>)\<rparr>);
          ret (limiter l)
        }
      | None \<Rightarrow> do {
          t \<leftarrow> now E;
          let l = lim_new (lim E) (rate_limit_rps (getenv E)) (rate_limit_burst (getenv E));
          modify (\<lambda>w. w\<lparr>limiters := (limiters w)(ip \<mapsto> \<lparr>limiter = l, lastSeen = t\<rparr>)\<rparr>);
          ret l
        })
   }"

text \<open>\<open>limiter.Allow()\<close> on the bucket the table holds for the address, through its pointer.\<close>

definition limiter_Allow :: "('r, 'q, 'b, 'l) env \<Rightarrow> string \<Rightarrow> 'l \<Rightarrow> ('r, 'q, 'b, 'l, bool) act" where
  "limiter_Allow E ip l = do {
     t \<leftarrow> now E;
     modify (\<lambda>w. w\<lparr>limiters := (limiters w)(ip :=
       map_option (\<lambda>e. e\<lparr>limiter := snd (lim_allow (lim E) t l)\<rparr>) (limiters w ip))\<rparr>);
     ret (fst (lim_allow (lim E) t l))
   }"

definition stale :: "time \<Rightarrow> 'l ipLimiter \<Rightarrow> bool" where
  "stale t l \<longleftrightarrow> sint (10 * minute) < t - lastSeen l"

definition cleanupLimiters :: "('r, 'q, 'b, 'l) env \<Rightarrow> ('r, 'q, 'b, 'l, unit) act" where
  "cleanupLimiters E = do {
     t \<leftarrow> now E;
     modify (\<lambda>w. w\<lparr>limiters := (\<lambda>ip.
       case limiters w ip of None \<Rightarrow> None | Some l \<Rightarrow> if stale t l then None else Some l)\<rparr>)
   }"

definition rate_limit_response :: "string \<Rightarrow> response" where
  "rate_limit_response tid = json 429
     [(''error'', JStr ''rate limit exceeded''),
      (''message'', JStr ''Too many requests. Please slow down.''),
      (''retry_after'', JStr ''1s''),
      (''trace_id'', JStr tid)]"

definition RateLimit :: "('r, 'q, 'b, 'l) env \<Rightarrow> ('r, 'q, 'b, 'l) handler \<Rightarrow> ('r, 'q, 'b, 'l) handler" where
  "RateLimit E next c = do {
     l \<leftarrow> getLimiter E (client_ip c);
     ok \<leftarrow> limiter_Allow E (client_ip c) l;
     if \<not> ok then do {
       count RateLimitRejectedTotal;
       ret (rate_limit_response (trace_id c))
     } else next c
   }"

section \<open>The middleware as a gate\<close>

definition bucket :: "('r, 'q, 'b, 'l) env \<Rightarrow> string \<Rightarrow> ('r, 'q, 'b, 'l) world \<Rightarrow> 'l" where
  "bucket E ip w =
     (case limiters w ip of
        Some l \<Rightarrow> limiter l
      | None \<Rightarrow> lim_new (lim E) (rate_limit_rps (getenv E)) (rate_limit_burst (getenv E)))"

definition take_token :: "('r, 'q, 'b, 'l) env \<Rightarrow> string \<Rightarrow> ('r, 'q, 'b, 'l, bool) act" where
  "take_token E ip = do { l \<leftarrow> getLimiter E ip; limiter_Allow E ip l }"

lemma ipLimiter_fields: "e\<lparr>lastSeen := t, limiter := l\<rparr> = \<lparr>limiter = l, lastSeen = t\<rparr>"
  by (cases e) simp

lemma take_token_run [running]:
  "result (take_token E ip) w = fst (lim_allow (lim E) (clock E (Suc (ticks w))) (bucket E ip w))"
  "exec (take_token E ip) w = w\<lparr>ticks := Suc (Suc (ticks w)),
     limiters := (limiters w)(ip \<mapsto>
       \<lparr>limiter = snd (lim_allow (lim E) (clock E (Suc (ticks w))) (bucket E ip w)),
        lastSeen = clock E (ticks w)\<rparr>)\<rparr>"
  by (simp_all add: take_token_def getLimiter_def limiter_Allow_def bucket_def running ipLimiter_fields split: option.split)

lemma cleanup_run [running]:
  "exec (cleanupLimiters E) w = w\<lparr>ticks := Suc (ticks w), limiters := (\<lambda>ip.
     case limiters w ip of None \<Rightarrow> None | Some l \<Rightarrow> if stale (clock E (ticks w)) l then None else Some l)\<rparr>"
  by (simp add: cleanupLimiters_def running cong: option.case_cong)

lemma RateLimit_take:
  "RateLimit E h c = do {
     ok \<leftarrow> take_token E (client_ip c);
     if \<not> ok then do { count RateLimitRejectedTotal; ret (rate_limit_response (trace_id c)) } else h c }"
  by (simp add: RateLimit_def take_token_def)

interpretation limit_gate: gate "RateLimit E"
    "\<lambda>c. result (take_token E (client_ip c))" "\<lambda>c. do { take_token E (client_ip c); ret () }"
    "\<lambda>c. do { count RateLimitRejectedTotal; ret (rate_limit_response (trace_id c)) }"
  for E :: "('r, 'q, 'b, 'l) env"
  by unfold_locales (auto intro!: unchangedI simp: RateLimit_take running stores_def)

section \<open>The rate a client gets\<close>

text \<open>
  Documented behaviour of \<open>rate.Limiter\<close>: a bucket made for a rate and a burst holds at most the
  burst, refills at the rate, and a call of \<open>Allow\<close> succeeds only when a whole token is there,
  which it takes.  \<open>tok l t\<close> is the content at time t of a bucket, \<open>made\<close> the buckets that stem
  from \<open>NewLimiter\<close> with these settings.  Times are nanoseconds.
\<close>

definition refill :: "goint \<Rightarrow> int \<Rightarrow> rat" where
  "refill rps d = of_int (sint rps * d) / 1000000000"

definition token_bucket ::
  "'l limiter_lib \<Rightarrow> goint \<Rightarrow> goint \<Rightarrow> ('l \<Rightarrow> bool) \<Rightarrow> ('l \<Rightarrow> time \<Rightarrow> rat) \<Rightarrow> bool" where
  "token_bucket L rps burst made tok \<longleftrightarrow>
     made (lim_new L rps burst) \<and>
     (\<forall>t. tok (lim_new L rps burst) t \<le> of_int (sint burst)) \<and>
     (\<forall>l t t'. made l \<and> t \<le> t' \<longrightarrow> tok l t' \<le> tok l t + refill rps (t' - t)) \<and>
     (\<forall>l t. made l \<longrightarrow> made (snd (lim_allow L t l)) \<and>
        (if fst (lim_allow L t l) then 1 \<le> tok l t \<and> tok (snd (lim_allow L t l)) t \<le> tok l t - 1
         else tok (snd (lim_allow L t l)) t \<le> tok l t))"

lemma refill_add: "refill rps (a + b) = refill rps a + refill rps b"
  by (simp only: refill_def distrib_left of_int_add add_divide_distrib)

lemma refill_split: "refill rps (c - a) = refill rps (c - b) + refill rps (b - a)"
  using refill_add[of rps "c - b" "b - a"] by simp

lemma refill_mono: "0 \<le> sint rps \<Longrightarrow> a \<le> b \<Longrightarrow> refill rps a \<le> refill rps b"
  by (simp only: refill_def) (intro divide_right_mono, simp_all only: of_int_le_iff, simp_all add: mult_left_mono)

text \<open>
  The life of one client's entry.  A state is the world and the number of requests of the client
  admitted so far; requests of the client, of other clients, the sweep and any other work
  interleave freely.  The two clock readings of one request lie within a second.
\<close>

inductive limiter_step ::
  "('r, 'q, 'b, 'l) env \<Rightarrow> string \<Rightarrow> ('r, 'q, 'b, 'l) world \<times> nat \<Rightarrow> ('r, 'q, 'b, 'l) world \<times> nat \<Rightarrow> bool"
  for E :: "('r, 'q, 'b, 'l) env" and ip :: string where
  Request: "clock E (Suc (ticks w)) \<le> clock E (ticks w) + 1000000000 \<Longrightarrow>
    limiter_step E ip (w, n) (exec (take_token E ip) w, n + (if result (take_token E ip) w then 1 else 0))"
| Other_client: "other \<noteq> ip \<Longrightarrow> limiter_step E ip (w, n) (exec (take_token E other) w, n)"
| Sweep: "limiter_step E ip (w, n) (exec (cleanupLimiters E) w, n)"
| Elsewhere: "limiters w' = limiters w \<Longrightarrow> ticks w \<le> ticks w' \<Longrightarrow> limiter_step E ip (w, n) (w', n)"

definition within_rate ::
  "('r, 'q, 'b, 'l) env \<Rightarrow> string \<Rightarrow> ('l \<Rightarrow> bool) \<Rightarrow> ('l \<Rightarrow> time \<Rightarrow> rat) \<Rightarrow> time \<Rightarrow>
     ('r, 'q, 'b, 'l) world \<times> nat \<Rightarrow> bool" where
  "within_rate E ip made tok t0 s \<longleftrightarrow>
     (let rps = rate_limit_rps (getenv E); burst = of_int (sint (rate_limit_burst (getenv E)));
          T = clock E (ticks (fst s)); n = of_nat (snd s)
      in t0 \<le> T \<and> n \<le> burst + refill rps (T - t0) \<and>
         (case limiters (fst s) ip of
            None \<Rightarrow> n \<le> refill rps (T - t0)
          | Some e \<Rightarrow> made (limiter e) \<and> lastSeen e \<le> T \<and>
              n + tok (limiter e) T \<le> burst + refill rps (T - t0) \<and>
              n \<le> burst + refill rps (lastSeen e + 1000000000 - t0)))"

definition limiter_setting ::
  "('r, 'q, 'b, 'l) env \<Rightarrow> ('l \<Rightarrow> bool) \<Rightarrow> ('l \<Rightarrow> time \<Rightarrow> rat) \<Rightarrow> bool" where
  "limiter_setting E made tok \<longleftrightarrow>
     token_bucket (lim E) (rate_limit_rps (getenv E)) (rate_limit_burst (getenv E)) made tok \<and>
     0 \<le> sint (rate_limit_rps (getenv E)) \<and> 0 \<le> sint (rate_limit_burst (getenv E)) \<and>
     sint (rate_limit_burst (getenv E)) \<le> 599 * sint (rate_limit_rps (getenv E)) \<and>
     (\<forall>m n. m \<le> n \<longrightarrow> clock E m \<le> clock E n)"

text \<open>Letting time pass keeps the bound.\<close>

lemma within_rate_later:
  assumes set: "limiter_setting E made tok" and J: "within_rate E ip made tok t0 (w, n)"
    and "limiters w' = limiters w" and "ticks w \<le> ticks w'"
  shows "within_rate E ip made tok t0 (w', n)"
proof -
  let ?T = "clock E (ticks w)" and ?T' = "clock E (ticks w')"
  let ?rps = "rate_limit_rps (getenv E)"
  have T: "?T \<le> ?T'" and nn: "0 \<le> sint ?rps"
    using set assms(4) by (auto simp: limiter_setting_def)
  have r: "refill ?rps (?T' - t0) = refill ?rps (?T' - ?T) + refill ?rps (?T - t0)"
    by (rule refill_split)
  have p: "0 \<le> refill ?rps (?T' - ?T)"
    using refill_mono[OF nn, of 0 "?T' - ?T"] T by (simp add: refill_def)
  show ?thesis
  proof (cases "limiters w ip")
    case None
    then show ?thesis using J assms(3) T r p by (auto simp: within_rate_def Let_def)
  next
    case (Some e)
    then have "tok (limiter e) ?T' \<le> tok (limiter e) ?T + refill ?rps (?T' - ?T)"
      using set J T by (auto simp: within_rate_def Let_def limiter_setting_def token_bucket_def)
    then show ?thesis using J Some assms(3) T r p by (auto simp: within_rate_def Let_def)
  qed
qed

lemma within_rate_request:
  assumes set: "limiter_setting E made tok" and J: "within_rate E ip made tok t0 (w, n)"
    and quick: "clock E (Suc (ticks w)) \<le> clock E (ticks w) + 1000000000"
  shows "within_rate E ip made tok t0
    (exec (take_token E ip) w, n + (if result (take_token E ip) w then 1 else 0))"
proof -
  let ?rps = "rate_limit_rps (getenv E)" and ?burst = "of_int (sint (rate_limit_burst (getenv E))) :: rat"
  let ?T = "clock E (ticks w)" and ?T1 = "clock E (Suc (ticks w))" and ?T2 = "clock E (Suc (Suc (ticks w)))"
  let ?l = "bucket E ip w"
  let ?l' = "snd (lim_allow (lim E) ?T1 ?l)"
  note lib = set[unfolded limiter_setting_def token_bucket_def]
  have T: "?T \<le> ?T1" "?T1 \<le> ?T2" and nn: "0 \<le> sint ?rps" using lib by auto
  have before: "made ?l \<and> of_nat n + tok ?l ?T \<le> ?burst + refill ?rps (?T - t0)"
  proof (cases "limiters w ip")
    case None
    then have l: "?l = lim_new (lim E) ?rps (rate_limit_burst (getenv E))"
      and n: "of_nat n \<le> refill ?rps (?T - t0)"
      using J by (simp_all add: within_rate_def Let_def bucket_def)
    have "tok ?l ?T \<le> ?burst" and "made ?l" using lib unfolding l by blast+
    then show ?thesis using n by linarith
  next
    case (Some e)
    then show ?thesis using J by (auto simp: within_rate_def Let_def bucket_def)
  qed
  have tok1: "tok ?l ?T1 \<le> tok ?l ?T + refill ?rps (?T1 - ?T)" and made': "made ?l'"
    and take: "if fst (lim_allow (lim E) ?T1 ?l) then 1 \<le> tok ?l ?T1 \<and> tok ?l' ?T1 \<le> tok ?l ?T1 - 1
      else tok ?l' ?T1 \<le> tok ?l ?T1"
    using lib before T by blast+
  have tok2: "tok ?l' ?T2 \<le> tok ?l' ?T1 + refill ?rps (?T2 - ?T1)"
    using lib made' T by blast
  have r: "refill ?rps (?T1 - t0) = refill ?rps (?T1 - ?T) + refill ?rps (?T - t0)"
    "refill ?rps (?T2 - t0) = refill ?rps (?T2 - ?T1) + refill ?rps (?T1 - t0)"
    by (rule refill_split)+
  have late: "refill ?rps (?T1 - t0) \<le> refill ?rps (?T + 1000000000 - t0)"
    "0 \<le> refill ?rps (?T2 - ?T1)" "0 \<le> refill ?rps (?T1 - ?T)"
    using refill_mono[OF nn, of "?T1 - t0" "?T + 1000000000 - t0"] refill_mono[OF nn, of 0 "?T2 - ?T1"]
      refill_mono[OF nn, of 0 "?T1 - ?T"] quick T by (simp_all add: refill_def)
  have count: "of_nat n \<le> ?burst + refill ?rps (?T - t0)" and t0: "t0 \<le> ?T"
    using J by (simp_all add: within_rate_def Let_def)
  let ?n = "n + (if result (take_token E ip) w then 1 else 0)"
  have bound: "of_nat ?n \<le> ?burst + refill ?rps (?T1 - t0)"
    and full: "of_nat ?n + tok ?l' ?T2 \<le> ?burst + refill ?rps (?T2 - t0)"
    using before tok1 take tok2 r late(3) count by (auto simp: take_token_run split: if_splits)
  show ?thesis
    using bound full late r made' T t0
    by (auto simp: within_rate_def Let_def take_token_run simp del: of_nat_add)
qed

lemma within_rate_sweep:
  assumes set: "limiter_setting E made tok" and J: "within_rate E ip made tok t0 (w, n)"
  shows "within_rate E ip made tok t0 (exec (cleanupLimiters E) w, n)"
proof -
  let ?rps = "rate_limit_rps (getenv E)" and ?burst = "sint (rate_limit_burst (getenv E))"
  let ?T = "clock E (ticks w)"
  let ?w = "w\<lparr>ticks := Suc (ticks w)\<rparr>"
  note lib = set[unfolded limiter_setting_def]
  have later: "within_rate E ip made tok t0 (?w, n)"
    by (rule within_rate_later[OF set J]) simp_all
  show ?thesis
  proof (cases "\<exists>e. limiters w ip = Some e \<and> stale ?T e")
    case True
    then obtain e where e: "limiters w ip = Some e" "stale ?T e" by blast
    have n: "of_nat n \<le> of_int ?burst + refill ?rps (lastSeen e + 1000000000 - t0)"
      using J e by (simp add: within_rate_def Let_def)
    have "(of_int ?burst :: rat) \<le> of_int (599 * sint ?rps)"
      using lib by (simp only: of_int_le_iff)
    also have "\<dots> = refill ?rps 599000000000"
      by (simp add: refill_def)
    finally have "of_nat n \<le> refill ?rps (599000000000 + (lastSeen e + 1000000000 - t0))"
      using n refill_add[of ?rps 599000000000 "lastSeen e + 1000000000 - t0"] by linarith
    also have "\<dots> \<le> refill ?rps (clock E (Suc (ticks w)) - t0)"
    proof (rule refill_mono)
      have "?T \<le> clock E (Suc (ticks w))" using lib by simp
      then show "599000000000 + (lastSeen e + 1000000000 - t0) \<le> clock E (Suc (ticks w)) - t0"
        using e(2) by (simp add: stale_def minute_def second_def)
    qed (use lib in blast)
    finally show ?thesis
      using later e by (simp add: within_rate_def Let_def cleanup_run)
  next
    case False
    then have same: "limiters (exec (cleanupLimiters E) w) ip = limiters w ip"
      by (auto simp: cleanup_run split: option.split)
    have "within_rate E ip made tok t0 (exec (cleanupLimiters E) w, n) = within_rate E ip made tok t0 (?w, n)"
      using same by (simp add: within_rate_def Let_def cleanup_run)
    then show ?thesis using later by simp
  qed
qed

lemma within_rate_other:
  assumes set: "limiter_setting E made tok" and J: "within_rate E ip made tok t0 (w, n)" and "other \<noteq> ip"
  shows "within_rate E ip made tok t0 (exec (take_token E other) w, n)"
proof -
  have "within_rate E ip made tok t0 (w\<lparr>ticks := Suc (Suc (ticks w))\<rparr>, n)"
    by (rule within_rate_later[OF set J]) simp_all
  then show ?thesis
    using assms(3) by (simp add: within_rate_def Let_def take_token_run)
qed

interpretation limiter_system: step_system
    "\<lambda>s. limiter_setting E made tok \<and> limiters (fst s) ip = None \<and> snd s = 0 \<and> t0 = clock E (ticks (fst s))"
    "limiter_step E ip"
    "\<lambda>s. limiter_setting E made tok \<longrightarrow> within_rate E ip made tok t0 s"
  for E :: "('r, 'q, 'b, 'l) env" and ip made tok t0
proof
  fix s :: "('r, 'q, 'b, 'l) world \<times> nat"
  assume "limiter_setting E made tok \<and> limiters (fst s) ip = None \<and> snd s = 0 \<and> t0 = clock E (ticks (fst s))"
  moreover from this have "(0 :: rat) \<le> of_int (sint (rate_limit_burst (getenv E)))"
    by (simp only: limiter_setting_def of_int_0_le_iff)
  ultimately show "limiter_setting E made tok \<longrightarrow> within_rate E ip made tok t0 s"
    by (simp add: within_rate_def Let_def refill_def)
next
  fix s s' :: "('r, 'q, 'b, 'l) world \<times> nat"
  assume J: "limiter_setting E made tok \<longrightarrow> within_rate E ip made tok t0 s" and "limiter_step E ip s s'"
  from this(2) show "limiter_setting E made tok \<longrightarrow> within_rate E ip made tok t0 s'"
  proof cases
    case (Request w n)
    then show ?thesis using J within_rate_request by blast
  next
    case (Other_client other w n)
    then show ?thesis using J within_rate_other by blast
  next
    case (Sweep w n)
    then show ?thesis using J within_rate_sweep by blast
  next
    case (Elsewhere w' w n)
    then show ?thesis using J within_rate_later by blast
  qed
qed

text \<open>
  C4: No client exceeds its rate, sweeps included.  From the moment an unknown address is first
  served, at time t0, the requests of it that are admitted up to any later time T number at most
  the burst plus the rate times the elapsed seconds, however its requests interleave with other
  clients, with the sweep that forgets idle addresses, and with the rest of the server.  It needs
  the documented behaviour of the bucket, a clock that does not run backwards, and settings for
  which ten minutes refill a bucket (the defaults, 100 and 500 a second, are far inside).
\<close>

theorem client_never_exceeds_rate:
  assumes "limiter_setting E made tok"
    and "limiters w0 ip = None"
    and "(limiter_step E ip)\<^sup>*\<^sup>* (w0, 0) (w, n)"
  shows "of_nat n \<le> of_int (sint (rate_limit_burst (getenv E))) +
    refill (rate_limit_rps (getenv E)) (clock E (ticks w) - clock E (ticks w0))"
proof -
  have "limiter_setting E made tok \<longrightarrow> within_rate E ip made tok (clock E (ticks w0)) (w, n)"
    using assms(1,2) by (intro limiter_system.reachable_inv[OF _ assms(3)]) simp
  then show ?thesis using assms(1) by (simp add: within_rate_def Let_def)
qed

lemma sample_limits: "sint (rate_limit_rps sample_os) = 500" "sint (rate_limit_burst sample_os) = 100"
  by (simp_all add: rate_limit_rps_def rate_limit_burst_def middleware_getEnv_def sample_os_def sint_atoi_word Atoi_number)

lemma sample_limiter_setting: "limiter_setting sample_env (\<lambda>_. True) (\<lambda>l t. of_int l)"
proof -
  have tb: "token_bucket sample_limiter_lib (rate_limit_rps sample_os) (rate_limit_burst sample_os) (\<lambda>_. True) (\<lambda>l t. of_int l)"
    unfolding token_bucket_def refill_def sample_limits
    by (auto simp: sample_limiter_lib_def sample_limits)
  show ?thesis
    unfolding limiter_setting_def using tb by (simp add: sample_limits)
qed

theorem client_never_exceeds_rate_witness:
  "(limiter_step sample_env ''10.0.0.1'')\<^sup>*\<^sup>* (sample_world, 0)
      (exec (take_token sample_env ''10.0.0.1'') sample_world, 1) \<and>
   (1 :: rat) \<le> of_int (sint (rate_limit_burst sample_os)) + refill (rate_limit_rps sample_os) 2000000000"
proof -
  let ?w = "exec (take_token sample_env ''10.0.0.1'') sample_world"
  have ok: "result (take_token sample_env ''10.0.0.1'') sample_world"
    by (simp add: take_token_run bucket_def sample_limiter_lib_def sample_limits)
  have "limiter_step sample_env ''10.0.0.1'' (sample_world, 0) (?w, 0 + (if result (take_token sample_env ''10.0.0.1'') sample_world then 1 else 0))"
    by (rule limiter_step.Request) simp
  then have step: "(limiter_step sample_env ''10.0.0.1'')\<^sup>*\<^sup>* (sample_world, 0) (?w, 1)"
    using ok by auto
  show ?thesis
    using client_never_exceeds_rate [OF sample_limiter_setting _ step] step
    by (simp add: take_token_run)
qed

end
