(* ===== verification/Requests.thy ===== *)
theory Requests
  imports Sample
begin

text \<open>
  api/middleware/timeout.go and logger.go: the trace identifier and deadline every request
  gets, and the access log with its two metrics.
\<close>

definition generateTraceID :: "('r, 'q, 'b, 'l) env \<Rightarrow> ('r, 'q, 'b, 'l, string) act" where
  "generateTraceID E = do {
     t \<leftarrow> now E;
     r \<leftarrow> new_rand E;
     ret (dec_int t @ ''-'' @ hex_nat r)
   }"

definition with_header :: "string \<Rightarrow> string \<Rightarrow> response \<Rightarrow> response" where
  "with_header k v r = r\<lparr>headers := (k, v) # headers r\<rparr>"

text \<open>\<open>context.WithTimeout\<close> keeps the earlier of the parent's deadline and its own.\<close>

definition earlier :: "time option \<Rightarrow> time \<Rightarrow> time option" where
  "earlier d t = Some (case d of None \<Rightarrow> t | Some t' \<Rightarrow> min t' t)"

definition defaultTimeout :: goint where
  "defaultTimeout = 5 * second"

definition RequestContext :: "('r, 'q, 'b, 'l) env \<Rightarrow> ('r, 'q, 'b, 'l) handler \<Rightarrow> ('r, 'q, 'b, 'l) handler" where
  "RequestContext E next c = do {
     traceID \<leftarrow> (if header_trace c = [] then generateTraceID E else ret (header_trace c));
     t \<leftarrow> now E;
     t' \<leftarrow> now E;
     r \<leftarrow> next (c\<lparr>trace_id := traceID, deadline := earlier (deadline c) (t + sint defaultTimeout),
                   start_time := t'\<rparr>);
     ret (with_header ''X-Trace-ID'' traceID r)
   }"

text \<open>\<open>Duration.Milliseconds\<close> divides by a million, towards zero.\<close>

definition milliseconds :: "int \<Rightarrow> int" where
  "milliseconds d = sgn d * (\<bar>d\<bar> div 1000000)"

definition Logger :: "('r, 'q, 'b, 'l) env \<Rightarrow> ('r, 'q, 'b, 'l) handler \<Rightarrow> ('r, 'q, 'b, 'l) handler" where
  "Logger E next c = do {
     start \<leftarrow> now E;
     r \<leftarrow> next c;
     stop \<leftarrow> now E;
     let latencyMs = milliseconds (stop - start);
     let status = dec_nat (code r);
     let path = (if full_path c = [] then url_path c else full_path c);
     count (HttpRequestsTotal (req_method c) path status);
     count (HttpRequestDuration (req_method c) path latencyMs);
     ts \<leftarrow> now E;
     write_log \<lparr>log_Timestamp = ts, log_TraceID = trace_id c, log_Method = req_method c,
       log_Path = path, log_StatusCode = code r, log_LatencyMs = latencyMs,
       log_ClientIP = client_ip c, log_UserAgent = user_agent c, log_Error = errors c\<rparr>;
     ret r
   }"

section \<open>Properties\<close>

text \<open>What \<open>RequestContext\<close> changes in the context a request carries.\<close>

definition traced :: "gin_ctx \<Rightarrow> string \<Rightarrow> time \<Rightarrow> time \<Rightarrow> gin_ctx" where
  "traced c tid t t' = c\<lparr>trace_id := tid, deadline := earlier (deadline c) (t + sint defaultTimeout), start_time := t'\<rparr>"

text \<open>
  C35: Every request runs with a trace id and a deadline.  The handlers see the client's
  \<open>X-Trace-ID\<close>, or a generated one that is never empty, and the response carries the same id in
  its first header; their deadline is at most five seconds after a reading of the clock and never
  later than one the request already had; nothing else of the context and no store changes.
\<close>

theorem request_context_traces:
  "\<exists>c' w' t. headers (result (RequestContext E h c) w) = (''X-Trace-ID'', trace_id c') # headers (result (h c') w') \<and>
     code (result (RequestContext E h c) w) = code (result (h c') w') \<and>
     body (result (RequestContext E h c) w) = body (result (h c') w') \<and>
     exec (RequestContext E h c) w = exec (h c') w' \<and> stores w' = stores w \<and>
     trace_id c' \<noteq> [] \<and> (header_trace c \<noteq> [] \<longrightarrow> trace_id c' = header_trace c) \<and>
     deadline c' = Some (case deadline c of None \<Rightarrow> clock E t + 5000000000 | Some d \<Rightarrow> min d (clock E t + 5000000000)) \<and>
     ticks w \<le> t \<and> t < ticks w' \<and>
     c'\<lparr>trace_id := trace_id c, deadline := deadline c, start_time := start_time c\<rparr> = c"
proof -
  have s: "sint defaultTimeout = 5000000000"
    by (simp add: defaultTimeout_def second_def)
  show ?thesis
  proof (cases "header_trace c = []")
    case True
    let ?tid = "dec_int (clock E (ticks w)) @ ''-'' @ hex_nat (rand_int63 E (n_rand w))"
    show ?thesis
      by (rule exI[of _ "traced c ?tid (clock E (Suc (ticks w))) (clock E (Suc (Suc (ticks w))))"],
          rule exI[of _ "w\<lparr>n_rand := Suc (n_rand w), ticks := Suc (Suc (Suc (ticks w)))\<rparr>"], rule exI[of _ "Suc (ticks w)"])
        (simp add: RequestContext_def generateTraceID_def running True traced_def stores_def with_header_def earlier_def s cong: option.case_cong)
  next
    case False
    show ?thesis
      by (rule exI[of _ "traced c (header_trace c) (clock E (ticks w)) (clock E (Suc (ticks w)))"],
          rule exI[of _ "w\<lparr>ticks := Suc (Suc (ticks w))\<rparr>"], rule exI[of _ "ticks w"])
        (simp add: RequestContext_def running False traced_def stores_def with_header_def earlier_def s cong: option.case_cong)
  qed
qed

theorem request_context_traces_witness:
  "headers (result (RequestContext sample_env (\<lambda>_. ret (json 200 [])) (sample_ctx\<lparr>header_trace := ''abc''\<rparr>)) sample_world)
     = [(''X-Trace-ID'', ''abc'')]"
proof -
  let ?c = "sample_ctx\<lparr>header_trace := ''abc''\<rparr>"
  have "header_trace ?c \<noteq> []" by simp
  then show ?thesis
    using request_context_traces [of sample_env "\<lambda>_. ret (json 200 [])" ?c sample_world] by auto
qed

lemma milliseconds_nonneg: "0 \<le> d \<Longrightarrow> milliseconds d = d div 1000000"
  by (cases "d = 0") (simp_all add: milliseconds_def)

lemma Logger_run:
  "result (Logger E h c) w = result (h c) (w\<lparr>ticks := Suc (ticks w)\<rparr>)"
  "exec (Logger E h c) w =
     (let w1 = exec (h c) (w\<lparr>ticks := Suc (ticks w)\<rparr>);
          r = result (h c) (w\<lparr>ticks := Suc (ticks w)\<rparr>);
          path = (if full_path c = [] then url_path c else full_path c);
          ms = milliseconds (clock E (ticks w1) - clock E (ticks w))
      in w1\<lparr>ticks := Suc (Suc (ticks w1)),
            mtrace := mtrace w1 @ [HttpRequestsTotal (req_method c) path (dec_nat (code r)),
                                   HttpRequestDuration (req_method c) path ms],
            logs := logs w1 @ [\<lparr>log_Timestamp = clock E (Suc (ticks w1)), log_TraceID = trace_id c,
              log_Method = req_method c, log_Path = path, log_StatusCode = code r, log_LatencyMs = ms,
              log_ClientIP = client_ip c, log_UserAgent = user_agent c, log_Error = errors c\<rparr>]\<rparr>)"
  by (simp_all add: Logger_def Let_def running)

text \<open>
  C36: Every request that reaches the logger is accounted for exactly once and is otherwise
  unaffected.  The answer is the handler's, and stores, limiter and breaker are as the handler left
  them.  After the handler exactly two metrics are touched, the request counter under the method,
  path and status of the request and the duration under its method and path, and exactly one log
  line is written, with every field stated here.  The path is the route's pattern, or the raw path
  when no route matched; the latency, in both the metric and the line, is the time from before the
  handler to after it in whole milliseconds.
\<close>

theorem logger_accounts_once:
  fixes E :: "('r, 'q, 'b, 'l) env" and w :: "('r, 'q, 'b, 'l) world" and h :: "('r, 'q, 'b, 'l) handler"
    and c :: gin_ctx
  defines "w0 \<equiv> w\<lparr>ticks := Suc (ticks w)\<rparr>"
  defines "w1 \<equiv> exec (h c) w0" and "r \<equiv> result (h c) w0" and "w2 \<equiv> exec (Logger E h c) w"
    and "path \<equiv> (if full_path c = [] then url_path c else full_path c)"
  defines "ms \<equiv> (clock E (ticks w1) - clock E (ticks w)) div 1000000"
  assumes "clock E (ticks w) \<le> clock E (ticks w1)"
  shows "result (Logger E h c) w = r \<and> stores w2 = stores w1 \<and> gates w2 = gates w1 \<and>
    mtrace w2 = mtrace w1 @
      [HttpRequestsTotal (req_method c) path (dec_nat (code r)), HttpRequestDuration (req_method c) path ms] \<and>
    logs w2 = logs w1 @
      [\<lparr>log_Timestamp = clock E (Suc (ticks w1)), log_TraceID = trace_id c, log_Method = req_method c,
        log_Path = path, log_StatusCode = code r, log_LatencyMs = ms, log_ClientIP = client_ip c,
        log_UserAgent = user_agent c, log_Error = errors c\<rparr>]"
proof -
  have "milliseconds (clock E (ticks w1) - clock E (ticks w)) = ms"
    using assms(7) by (simp add: ms_def milliseconds_nonneg)
  then show ?thesis
    by (simp add: Logger_run Let_def r_def w2_def path_def stores_def gates_def flip: w0_def w1_def)
qed

theorem logger_accounts_once_witness:
  "let w = exec (Logger sample_env (\<lambda>_. ret (json 404 [])) sample_ctx) sample_world
   in mtrace w = [HttpRequestsTotal ''POST'' ''/transactions'' ''404'', HttpRequestDuration ''POST'' ''/transactions'' 1000] \<and>
     length (logs w) = 1"
proof -
  have "logs sample_world = []" "mtrace sample_world = []" by (simp_all add: sample_world_def)
  moreover have "dec_nat 404 = ''404''" by code_simp
  ultimately show ?thesis
    using logger_accounts_once [of sample_env sample_world "\<lambda>_. ret (json 404 [])" sample_ctx]
    by (simp add: Let_def running sample_ctx_def)
qed

end
