(* ===== verification/Server.thy ===== *)
theory Server
  imports Baseline RateLimit Requests
begin

text \<open>
  The rest of api/main.go: the middleware chain and the routes, the health check, one round of
  the metrics collector, and the order of start-up.  The router and \<open>gin.Recovery\<close> are the web
  framework's: the router is represented by the pattern it matched (\<open>full_path\<close>, empty when none
  did) and Recovery and the answer to an unknown path are parameters.
\<close>

section \<open>Health check\<close>

definition ping_server :: "('r, 'q, 'b, 'l) env \<Rightarrow> endpoint \<Rightarrow> ('r, 'q, 'b, 'l, sql_error option) act" where
  "ping_server E ep = do {
     x \<leftarrow> query_row E ep (\<lambda>tb. Inr ());
     ret (case x of Inl e \<Rightarrow> Some e | Inr _ \<Rightarrow> None)
   }"

definition ping_cache :: "('r, 'q, 'b, 'l) env \<Rightarrow> ('r, 'q, 'b, 'l, string option) act" where
  "ping_cache E = do {
     t \<leftarrow> now E;
     p \<leftarrow> reads (\<lambda>w. rd_ping (rds E) t (redis w));
     modify (\<lambda>w. w\<lparr>redis := snd p\<rparr>);
     ret (fst p)
   }"

definition healthCheck :: "('r, 'q, 'b, 'l) env \<Rightarrow> ('r, 'q, 'b, 'l) handler" where
  "healthCheck E c = do {
     d \<leftarrow> ping_server E (Write (DB E));
     let dbStatus = (case d of None \<Rightarrow> ''ok'' | Some e \<Rightarrow> ''error: '' @ pg_message (pg E) e);
     k \<leftarrow> ping_cache E;
     let cacheStatus = (case k of None \<Rightarrow> ''ok'' | Some e \<Rightarrow> ''error: '' @ e);
     q \<leftarrow> QueueDepth E;
     let queueDepth = (case q of Inl _ \<Rightarrow> 0 | Inr n \<Rightarrow> n);
     let status = (if dbStatus \<noteq> ''ok'' \<or> cacheStatus \<noteq> ''ok'' then 503 else 200);
     t \<leftarrow> now E;
     ret (json status [(''status'', JStr ''ok''), (''timestamp'', JTime t),
       (''trace_id'', JStr (trace_id c)), (''db_write'', JStr dbStatus),
       (''cache'', JStr cacheStatus), (''queue_depth'', JInt (int queueDepth))])
   }"

section \<open>Routes\<close>

definition routes ::
  "('r, 'q, 'b, 'l) env \<Rightarrow> ('r, 'q, 'b, 'l) handler \<Rightarrow> ((string \<times> string) \<times> ('r, 'q, 'b, 'l) handler) list" where
  "routes E metrics_page =
     [((''GET'', ''/health''), healthCheck E),
      ((''GET'', ''/metrics''), metrics_page),
      ((''POST'', ''/transactions''), CircuitBreakerMiddleware E (CreateTransaction E)),
      ((''GET'', ''/transactions/:id''), CircuitBreakerMiddleware E (GetTransaction E)),
      ((''GET'', ''/users/:id/balance''), CircuitBreakerMiddleware E (GetUserBalance E)),
      ((''POST'', ''/v0/transactions''), CreateTransactionV0 E),
      ((''GET'', ''/v0/transactions/:id''), GetTransactionV0 E),
      ((''GET'', ''/v0/users/:id/balance''), GetUserBalanceV0 E)]"

definition dispatch ::
  "('r, 'q, 'b, 'l) env \<Rightarrow> ('r, 'q, 'b, 'l) handler \<Rightarrow> ('r, 'q, 'b, 'l) handler \<Rightarrow> ('r, 'q, 'b, 'l) handler" where
  "dispatch E metrics_page not_found c =
     (case map_of (routes E metrics_page) (req_method c, full_path c) of
        None \<Rightarrow> not_found c
      | Some h \<Rightarrow> h c)"

text \<open>\<open>r.Use\<close> in order: RequestContext, Logger, RateLimit, Recovery.\<close>

definition serve ::
  "('r, 'q, 'b, 'l) env \<Rightarrow> (('r, 'q, 'b, 'l) handler \<Rightarrow> ('r, 'q, 'b, 'l) handler) \<Rightarrow>
     ('r, 'q, 'b, 'l) handler \<Rightarrow> ('r, 'q, 'b, 'l) handler \<Rightarrow> ('r, 'q, 'b, 'l) handler" where
  "serve E recovery metrics_page not_found =
     RequestContext E (Logger E (RateLimit E (recovery (dispatch E metrics_page not_found))))"

section \<open>Metrics collector\<close>

definition collectMetrics_tick ::
  "('r, 'q, 'b, 'l) env \<Rightarrow> int \<Rightarrow> int \<Rightarrow> ('r, 'q, 'b, 'l, unit) act" where
  "collectMetrics_tick E write_in_use read_in_use = do {
     count (DbConnectionsActive ''write'' write_in_use);
     count (DbConnectionsActive ''read'' read_in_use);
     d \<leftarrow> QueueDepth E;
     (case d of Inl _ \<Rightarrow> ret () | Inr n \<Rightarrow> count (QueueMessagesPending (int n)))
   }"

text \<open>The loop over the ticks of a fifteen-second timer, with the statistics of the two pools at each.\<close>

definition collectMetrics ::
  "('r, 'q, 'b, 'l) env \<Rightarrow> (int \<times> int) list \<Rightarrow> ('r, 'q, 'b, 'l, unit list) act" where
  "collectMetrics E stats = each (\<lambda>(write_in_use, read_in_use). collectMetrics_tick E write_in_use read_in_use) stats"

section \<open>Listening address\<close>

definition listen_address :: "osenv \<Rightarrow> string" where
  "listen_address os = '':'' @ (if os ''PORT'' = [] then ''8080'' else os ''PORT'')"

section \<open>Properties\<close>

text \<open>
  C37: The health check answers 503 exactly when the write database or Redis does not answer its
  ping, and names the failure in the field of that dependency; the queue's state never affects
  the code (an unreachable broker reads as depth zero), and the field \<open>status\<close> says \<open>ok\<close> even in
  a 503.  No database is written.
\<close>

theorem health_check_reports:
  "code (result (healthCheck E c) w) =
     (if pg_fate (pg E) (n_pg w) = Answered \<and> fst (rd_ping (rds E) (clock E (ticks w)) (redis w)) = None then 200 else 503) \<and>
   (field ''db_write'' (result (healthCheck E c) w) = Some (JStr ''ok'') \<longleftrightarrow> pg_fate (pg E) (n_pg w) = Answered) \<and>
   (field ''cache'' (result (healthCheck E c) w) = Some (JStr ''ok'') \<longleftrightarrow>
      fst (rd_ping (rds E) (clock E (ticks w)) (redis w)) = None) \<and>
   field ''status'' (result (healthCheck E c) w) = Some (JStr ''ok'') \<and>
   field ''trace_id'' (result (healthCheck E c) w) = Some (JStr (trace_id c)) \<and>
   servers (exec (healthCheck E c) w) = servers w"
  by (simp add: healthCheck_def ping_server_def ping_cache_def Let_def running split: round_trip.split option.split)

lemma serve_as_gate:
  "\<exists>c' w'. result (serve E recovery mp nf c) w =
      with_header ''X-Trace-ID'' (trace_id c') (result (RateLimit E (recovery (dispatch E mp nf)) c') w') \<and>
     servers (exec (serve E recovery mp nf c) w) = servers (exec (RateLimit E (recovery (dispatch E mp nf)) c') w') \<and>
     stores (exec (serve E recovery mp nf c) w) = stores (exec (RateLimit E (recovery (dispatch E mp nf)) c') w') \<and>
     client_ip c' = client_ip c \<and> req_method c' = req_method c \<and> full_path c' = full_path c \<and>
     limiters w' = limiters w \<and> stores w' = stores w \<and> ticks w' = ticks w + (if header_trace c = [] then 4 else 3)"
proof (cases "header_trace c = []")
  case True
  let ?tid = "dec_int (clock E (ticks w)) @ ''-'' @ hex_nat (rand_int63 E (n_rand w))"
  show ?thesis
    by (rule exI[of _ "traced c ?tid (clock E (Suc (ticks w))) (clock E (Suc (Suc (ticks w))))"],
        rule exI[of _ "w\<lparr>n_rand := Suc (n_rand w), ticks := Suc (Suc (Suc (Suc (ticks w))))\<rparr>"])
      (simp add: serve_def RequestContext_def generateTraceID_def Logger_run Let_def running True traced_def stores_def)
next
  case False
  show ?thesis
    by (rule exI[of _ "traced c (header_trace c) (clock E (ticks w)) (clock E (Suc (ticks w)))"],
        rule exI[of _ "w\<lparr>ticks := Suc (Suc (Suc (ticks w)))\<rparr>"])
      (simp add: serve_def RequestContext_def Logger_run Let_def running False traced_def stores_def)
qed

text \<open>
  C33: The limiter stands in front of every route, \<open>/health\<close>, \<open>/metrics\<close> and the \<open>/v0\<close> routes
  included.  The chain asks the client's bucket once, after the four readings of the clock by the
  middleware before it (five when it makes a trace id) and its own; if the bucket has no token
  then, the client is answered 429 whatever it asked for, and no database, cache or queue is
  touched.
\<close>

theorem limiter_covers_every_route:
  assumes "\<not> fst (lim_allow (lim E) (clock E (ticks w + (if header_trace c = [] then 5 else 4))) (bucket E (client_ip c) w))"
  shows "code (result (serve E recovery metrics_page not_found c) w) = 429 \<and>
    stores (exec (serve E recovery metrics_page not_found c) w) = stores w"
proof -
  obtain c' w' where s: "result (serve E recovery metrics_page not_found c) w =
      with_header ''X-Trace-ID'' (trace_id c') (result (RateLimit E (recovery (dispatch E metrics_page not_found)) c') w')"
    "stores (exec (serve E recovery metrics_page not_found c) w) =
      stores (exec (RateLimit E (recovery (dispatch E metrics_page not_found)) c') w')"
    and same: "client_ip c' = client_ip c" "limiters w' = limiters w" "stores w' = stores w"
      "ticks w' = ticks w + (if header_trace c = [] then 4 else 3)"
    using serve_as_gate by blast
  have asked: "Suc (ticks w') = ticks w + (if header_trace c = [] then 5 else 4)"
    by (simp add: same(4))
  have "bucket E (client_ip c') w' = bucket E (client_ip c) w"
    by (simp add: bucket_def same(1,2))
  then have empty: "\<not> result (take_token E (client_ip c')) w'"
    using assms by (simp only: take_token_run asked not_False_eq_True)
  then have "code (result (RateLimit E (recovery (dispatch E metrics_page not_found)) c') w') = 429"
    by (simp add: RateLimit_take rate_limit_response_def)
  then show ?thesis
    using s same limit_gate.refusal_stores[OF empty] by (simp add: with_header_def)
qed

text \<open>A bucket of one token that is refilled ten seconds after it was taken.\<close>

theorem limiter_covers_every_route_witness:
  "let E = sample_env\<lparr>lim := \<lparr>lim_new = \<lambda>r b. 0, lim_allow = \<lambda>t n. if n \<le> t then (True, t + 10000000000) else (False, n)\<rparr>\<rparr>
   in code (result (serve E (\<lambda>h. h) (\<lambda>_. ret (json 200 [])) (\<lambda>_. ret (json 404 []))
     (sample_ctx\<lparr>req_method := ''GET'', full_path := ''/health''\<rparr>))
     (sample_world\<lparr>limiters := [''10.0.0.1'' \<mapsto> \<lparr>limiter = 10000000000, lastSeen = 0\<rparr>]\<rparr>)) = 429"
  using limiter_covers_every_route [of
      "sample_env\<lparr>lim := \<lparr>lim_new = \<lambda>r b. 0, lim_allow = \<lambda>t n. if n \<le> t then (True, t + 10000000000) else (False, n)\<rparr>\<rparr>"
      "sample_world\<lparr>limiters := [''10.0.0.1'' \<mapsto> \<lparr>limiter = 10000000000, lastSeen = 0\<rparr>]\<rparr>"
      "sample_ctx\<lparr>req_method := ''GET'', full_path := ''/health''\<rparr>" "\<lambda>h. h"
      "\<lambda>_. ret (json 200 [])" "\<lambda>_. ret (json 404 [])"]
  by (simp add: bucket_def Let_def)

interpretation chain: two_gates "RateLimit E" "\<lambda>c. result (take_token E (client_ip c))"
    "\<lambda>c. do { take_token E (client_ip c); ret () }"
    "\<lambda>c. do { count RateLimitRejectedTotal; ret (rate_limit_response (trace_id c)) }"
    "CircuitBreakerMiddleware E" "breaker_passes E" "breaker_entry E" "breaker_refuse E"
  for E :: "('r, 'q, 'b, 'l) env"
  by unfold_locales

lemma unguarded_breaker:
  "dbCircuitBreaker (exec (CreateTransactionV0 E c) w) = dbCircuitBreaker w"
  "dbCircuitBreaker (exec (GetTransactionV0 E c) w) = dbCircuitBreaker w"
  "dbCircuitBreaker (exec (GetUserBalanceV0 E c) w) = dbCircuitBreaker w"
  "dbCircuitBreaker (exec (healthCheck E c) w) = dbCircuitBreaker w"
proof -
  have g: "gates (w\<lparr>n_pg := n\<rparr>) = gates w" for n by (simp add: gates_def)
  have "gates (exec (CreateTransactionV0 E c) w) = gates w"
    by (simp add: v0_exec g unchangedD[OF v0_write_frame(4)] split: sum.split)
  then show "dbCircuitBreaker (exec (CreateTransactionV0 E c) w) = dbCircuitBreaker w"
    by (simp add: gates_def)
qed (simp_all add: GetTransactionV0_def GetUserBalanceV0_def healthCheck_def ping_server_def ping_cache_def Let_def
    running queryTransaction_run queryUserBalance_run split: sum.split)

text \<open>
  C32: Only the three API routes are behind the breaker.  While it is open, a creation, a
  transaction read and a balance read are answered 503 with no store touched; the same three
  operations under \<open>/v0\<close> and the health check run as if there were no breaker and leave it alone.
\<close>

theorem breaker_guards_api_routes:
  assumes "getenv E ''ENV'' \<noteq> ''test''"
    and "fst (cb_state (cb E) (clock E (ticks w)) (dbCircuitBreaker w)) = StateOpen"
  shows "((req_method c, full_path c) \<in> {(''POST'', ''/transactions''), (''GET'', ''/transactions/:id''),
        (''GET'', ''/users/:id/balance'')} \<longrightarrow>
      code (result (dispatch E metrics_page not_found c) w) = 503 \<and>
      stores (exec (dispatch E metrics_page not_found c) w) = stores w) \<and>
    ((req_method c, full_path c) \<in> {(''POST'', ''/v0/transactions''), (''GET'', ''/v0/transactions/:id''),
        (''GET'', ''/v0/users/:id/balance''), (''GET'', ''/health'')} \<longrightarrow>
      dbCircuitBreaker (exec (dispatch E metrics_page not_found c) w) = dbCircuitBreaker w)"
proof (intro conjI impI)
  have b: "\<not> breaker_passes E c w" using assms by (simp add: breaker_passes_def)
  have refused: "code (result (CircuitBreakerMiddleware E h c) w) = 503 \<and>
      stores (exec (CircuitBreakerMiddleware E h c) w) = stores w" for h
    using breaker_gate.blocked[OF b, of h] breaker_gate.refusal_stores[OF b, of h]
    by (simp add: breaker_refuse_def breaker_refusal_response_def)
  show "code (result (dispatch E metrics_page not_found c) w) = 503"
    and "stores (exec (dispatch E metrics_page not_found c) w) = stores w"
    if "(req_method c, full_path c) \<in> {(''POST'', ''/transactions''), (''GET'', ''/transactions/:id''),
        (''GET'', ''/users/:id/balance'')}"
    using that refused by (auto simp: dispatch_def routes_def)
  show "dbCircuitBreaker (exec (dispatch E metrics_page not_found c) w) = dbCircuitBreaker w"
    if "(req_method c, full_path c) \<in> {(''POST'', ''/v0/transactions''), (''GET'', ''/v0/transactions/:id''),
        (''GET'', ''/v0/users/:id/balance''), (''GET'', ''/health'')}"
    using that unguarded_breaker[of _ c w] by (auto simp: dispatch_def routes_def)
qed

theorem breaker_guards_api_routes_witness:
  "code (result (dispatch sample_env (\<lambda>_. ret (json 200 [])) (\<lambda>_. ret (json 404 [])) sample_ctx)
     (sample_world\<lparr>dbCircuitBreaker := sample_breaker_closed\<lparr>sb_open_until := Some 5\<rparr>\<rparr>)) = 503"
  using breaker_guards_api_routes [of sample_env
      "sample_world\<lparr>dbCircuitBreaker := sample_breaker_closed\<lparr>sb_open_until := Some 5\<rparr>\<rparr>" sample_ctx
      "\<lambda>_. ret (json 200 [])" "\<lambda>_. ret (json 404 [])"]
  by (simp add: sample_breaker_lib_def sample_os_def sample_ctx_def)

end
