(* ===== verification/Ledger.thy ===== *)
theory Ledger
  imports Server
begin

text \<open>
  Invariants under everything the server does.  \<open>store_invariant\<close> carries what the handlers keep of
  the stores through the middleware and the routes to whole requests.  \<open>request_invariant\<close> does the
  same for a property of the tables that the two kinds of writes of a creation keep, and
  \<open>message_invariant\<close> for one that the two kinds of writes of the consumer keep, perhaps only for
  messages of which something is known.  The interpretations are the schema's checks and the
  append-only ledger (System), given statement by statement through the sublocale at the end, the
  rows behind the messages (Flow), and the refinement of the abstract ledger (Machine).
\<close>

section \<open>From the handlers to whole requests\<close>

lemma stores_frame: "unchanged stores m \<Longrightarrow> preserves (\<lambda>w. P (stores w)) m"
  by (simp add: preserves_def unchanged_def)

lemma preserves_given: "(A \<Longrightarrow> preserves I m) \<Longrightarrow> preserves (\<lambda>w. A \<longrightarrow> I w) m"
  by (auto simp: preserves_def)

locale store_invariant =
  fixes E :: "('r, 'q, 'b, 'l) env" and P :: "(endpoint \<Rightarrow> tables) \<times> 'r \<times> 'q \<Rightarrow> bool"
  assumes create_keeps: "preserves (\<lambda>w :: ('r, 'q, 'b, 'l) world. P (stores w)) (CreateTransaction E c)"
    and transaction_keeps: "preserves (\<lambda>w :: ('r, 'q, 'b, 'l) world. P (stores w)) (GetTransaction E c)"
    and balance_keeps: "preserves (\<lambda>w :: ('r, 'q, 'b, 'l) world. P (stores w)) (GetUserBalance E c)"
    and v0_create_keeps: "preserves (\<lambda>w :: ('r, 'q, 'b, 'l) world. P (stores w)) (CreateTransactionV0 E c)"
    and health_keeps: "preserves (\<lambda>w :: ('r, 'q, 'b, 'l) world. P (stores w)) (healthCheck E c)"
begin

lemma gated_keeps:
  assumes "\<And>c. preserves (\<lambda>w. P (stores w)) (h c)"
  shows "preserves (\<lambda>w. P (stores w)) (CircuitBreakerMiddleware E h c)"
    and "preserves (\<lambda>w. P (stores w)) (RateLimit E h c)"
  by (rule breaker_gate.preserves_stores, rule assms) (rule limit_gate.preserves_stores, rule assms)

lemma traced_keeps:
  assumes "\<And>c. preserves (\<lambda>w. P (stores w)) (h c)"
  shows "preserves (\<lambda>w. P (stores w)) (RequestContext E (Logger E h) c)"
proof -
  have gen: "preserves (\<lambda>w. P (stores w)) (generateTraceID E)"
    by (rule stores_frame) (rule unchangedI, simp add: generateTraceID_def running stores_def)
  have "preserves (\<lambda>w. P (stores w)) (Logger E h c)" for c
    unfolding Logger_def Let_def
    by (intro preserves_bind preserves_ret assms stores_frame effects_frame)
  then show ?thesis
    unfolding RequestContext_def
    by (intro preserves_bind preserves_if preserves_ret gen stores_frame[OF effects_frame(7)])
qed

lemma v0_reads_keep:
  "preserves (\<lambda>w. P (stores w)) (GetTransactionV0 E c)" "preserves (\<lambda>w. P (stores w)) (GetUserBalanceV0 E c)"
proof -
  have "unchanged stores (GetTransactionV0 E c)"
    by (rule unchangedI) (simp add: GetTransactionV0_def Let_def queryTransaction_run stores_def split: sum.split)
  then show "preserves (\<lambda>w. P (stores w)) (GetTransactionV0 E c)" by (rule stores_frame)
  have "unchanged stores (GetUserBalanceV0 E c)"
    by (rule unchangedI) (simp add: GetUserBalanceV0_def Let_def queryUserBalance_run now_run stores_def split: sum.split)
  then show "preserves (\<lambda>w. P (stores w)) (GetUserBalanceV0 E c)" by (rule stores_frame)
qed

lemma dispatch_keeps:
  assumes "\<And>c. preserves (\<lambda>w. P (stores w)) (metrics_page c)" and "\<And>c. preserves (\<lambda>w. P (stores w)) (not_found c)"
  shows "preserves (\<lambda>w. P (stores w)) (dispatch E metrics_page not_found c)"
proof (cases "map_of (routes E metrics_page) (req_method c, full_path c)")
  case None
  then show ?thesis using assms(2) by (simp add: dispatch_def)
next
  case (Some h)
  from map_of_SomeD[OF this] have "h \<in> {healthCheck E, metrics_page, CircuitBreakerMiddleware E (CreateTransaction E),
      CircuitBreakerMiddleware E (GetTransaction E), CircuitBreakerMiddleware E (GetUserBalance E),
      CreateTransactionV0 E, GetTransactionV0 E, GetUserBalanceV0 E}"
    by (auto simp: routes_def)
  then have "preserves (\<lambda>w. P (stores w)) (h c)"
    by (auto intro: health_keeps assms gated_keeps create_keeps transaction_keeps balance_keeps
        v0_create_keeps v0_reads_keep)
  then show ?thesis using Some by (simp add: dispatch_def)
qed

lemma serve_keeps:
  assumes "\<And>h c. (\<And>c. preserves (\<lambda>w. P (stores w)) (h c)) \<Longrightarrow> preserves (\<lambda>w. P (stores w)) (recovery h c)"
    and "\<And>c. preserves (\<lambda>w. P (stores w)) (metrics_page c)" and "\<And>c. preserves (\<lambda>w. P (stores w)) (not_found c)"
  shows "preserves (\<lambda>w. P (stores w)) (serve E recovery metrics_page not_found c)"
  unfolding serve_def by (intro traced_keeps gated_keeps(2) assms(1) dispatch_keeps assms(2,3))

end

section \<open>Properties of the tables\<close>

definition everywhere :: "(endpoint \<Rightarrow> tables \<Rightarrow> bool) \<Rightarrow> ('r, 'q, 'b, 'l) world \<Rightarrow> bool" where
  "everywhere keep w \<longleftrightarrow> (\<forall>ep. keep ep (servers w ep))"

lemma everywhere_frame: "unchanged servers m \<Longrightarrow> preserves (everywhere keep) m"
  by (auto simp: preserves_def unchanged_def everywhere_def)

lemma everywhereD: "everywhere keep w \<Longrightarrow> keep ep (servers w ep)"
  unfolding everywhere_def by blast

lemma everywhere_same: "everywhere keep w \<Longrightarrow> servers w' = servers w \<Longrightarrow> everywhere keep w'"
  by (simp add: everywhere_def)

lemma everywhere_stores: "(\<lambda>w. \<forall>ep. keep ep (fst (stores w) ep)) = everywhere keep"
  by (simp add: fun_eq_iff everywhere_def stores_def del: split_paired_All)

lemma everywhere_update:
  "everywhere keep w \<Longrightarrow> keep ep tb \<Longrightarrow> servers w' = (servers w)(ep := tb) \<Longrightarrow> everywhere keep w'"
  by (simp add: everywhere_def del: split_paired_All)

text \<open>The two ways a request writes a database: a pending row, and the baseline's \<open>v0_post\<close>.\<close>

locale request_invariant =
  fixes E :: "('r, 'q, 'b, 'l) env" and keep :: "endpoint \<Rightarrow> tables \<Rightarrow> bool"
  assumes accept_keeps: "keep ep tb \<Longrightarrow>
      sql_insert_transaction (pg E) Pending tid uid ty amt ref desc t tb = Inr tb' \<Longrightarrow> keep ep tb'"
    and v0_post_keeps: "keep ep tb \<Longrightarrow> v0_post (pg E) req tid ref t tb = Inr tb' \<Longrightarrow> keep ep tb'"
begin

lemma statement_preserves:
  assumes "\<And>t tb tb'. keep ep tb \<Longrightarrow> st t tb = Inr tb' \<Longrightarrow> keep ep tb'"
  shows "preserves (everywhere keep) (exec_statement E ep st)"
proof (rule preservesI)
  fix w :: "('r, 'q, 'b, 'l) world"
  assume ok: "everywhere keep w"
  show "everywhere keep (exec (exec_statement E ep st) w)"
  proof (cases "st (clock E (ticks w)) (servers w ep)")
    case (Inl e)
    then show ?thesis by (intro everywhere_same[OF ok]) (simp add: exec_statement_run)
  next
    case (Inr tb)
    have "keep ep tb" by (rule assms[OF everywhereD[OF ok] Inr])
    then have "everywhere keep (w\<lparr>servers := (servers w)(ep := tb)\<rparr>)"
      by (intro everywhere_update[OF ok]) simp_all
    then show ?thesis
      using ok Inr by (auto simp: exec_statement_run everywhere_def simp del: split_paired_All)
  qed
qed

lemma check_preserves: "preserves (everywhere keep) (create_check E tr req)"
  by (intro everywhere_frame create_check_frame)

lemma insert_preserves: "preserves (everywhere keep) (create_insert E req tid ref)"
  unfolding create_insert_def
proof (rule ExecuteWithCB_preserves)
  show "preserves (everywhere keep) (do {
      e \<leftarrow> exec_statement E (Write (DB E)) (sql_insert_transaction (pg E) Pending tid (req_UserID req)
        (req_Type req) (req_Amount req) ref (req_Description req));
      ret (case e of None \<Rightarrow> Inr () | Some err \<Rightarrow> Inl err) })"
    by (rule preserves_bind, rule statement_preserves, erule (1) accept_keeps) (rule preserves_ret)
qed (rule everywhere_frame, rule breaker_frame)+

lemma write_preserves: "preserves (everywhere keep) (create_write E tr req k)"
  unfolding create_write_def Let_def
  by (intro preserving insert_preserves everywhere_frame effects_frame create_finish_frame framing)

lemma create_preserves: "preserves (everywhere keep) (CreateTransaction E c)"
  unfolding CreateTransaction_def Let_def
  by (intro preserving check_preserves write_preserves)

lemma v0_write_preserves: "preserves (everywhere keep) (v0_write E tr req)"
proof (rule preservesI)
  fix w :: "('r, 'q, 'b, 'l) world"
  assume ok: "everywhere keep w"
  have posted: "keep (Write (DB E)) tb" if "v0_post (pg E) req tid ref t (servers w (Write (DB E))) = Inr tb" for tid ref t tb
    by (rule v0_post_keeps[OF everywhereD[OF ok] that])
  from v0_write_cases[of E tr req w] posted show "everywhere keep (exec (v0_write E tr req) w)"
    by (blast intro: everywhere_update[OF ok] everywhere_same[OF ok])
qed

lemma v0_create_preserves: "preserves (everywhere keep) (CreateTransactionV0 E c)"
  unfolding CreateTransactionV0_def Let_def
  by (intro preserving v0_write_preserves everywhere_frame framing unchangedI) (simp add: query_row_run)

lemma balance_preserves: "preserves (everywhere keep) (GetUserBalance E c)"
  by (intro everywhere_frame unchangedI conjunct1[OF balance_read.reads_only])

lemma transaction_preserves: "preserves (everywhere keep) (GetTransaction E c)"
  by (intro everywhere_frame unchangedI conjunct1[OF transaction_read.reads_only])

lemma health_preserves: "preserves (everywhere keep) (healthCheck E c)"
proof -
  have "unchanged servers (healthCheck E c)"
    by (rule unchangedI) (simp add: healthCheck_def ping_server_def ping_cache_def Let_def running)
  then show ?thesis by (rule everywhere_frame)
qed

end

sublocale request_invariant \<subseteq> store_invariant E "\<lambda>st. \<forall>ep. keep ep (fst st ep)"
  by unfold_locales (unfold everywhere_stores, fact create_preserves, fact transaction_preserves,
    fact balance_preserves, fact v0_create_preserves, fact health_preserves)

text \<open>
  The two ways the consumer writes a database: a mark as processing, and \<open>post\<close>.  \<open>known\<close> is what
  the tables of the write server say of the message being processed.
\<close>

locale message_invariant = request_invariant E keep
  for E :: "('r, 'q, 'b, 'l) env" and keep +
  fixes known :: "tables \<Rightarrow> TransactionMessage \<Rightarrow> bool"
  assumes start_keeps: "keep ep tb \<Longrightarrow> known tb msg \<Longrightarrow>
      sql_set_status (pg E) Processing (msg_TransactionID msg) t tb = Inr tb' \<Longrightarrow> keep ep tb' \<and> known tb' msg"
    and post_keeps: "keep ep tb \<Longrightarrow> known tb msg \<Longrightarrow> post (pg E) msg t tb = Inr tb' \<Longrightarrow> keep ep tb'"
begin

lemma mark_keeps:
  assumes ok: "everywhere keep w" and msg: "known (servers w (Write (DB E))) msg"
  shows "everywhere keep (exec (mark_processing E msg) w) \<and>
    known (servers (exec (mark_processing E msg) w) (Write (DB E))) msg"
proof (cases "sql_set_status (pg E) Processing (msg_TransactionID msg) (clock E (ticks w)) (servers w (Write (DB E)))")
  case (Inl e)
  then have "servers (exec (mark_processing E msg) w) = servers w" by (simp add: exec_statement_run)
  then show ?thesis using everywhere_same[OF ok] msg by simp
next
  case (Inr tb)
  have "keep (Write (DB E)) tb \<and> known tb msg" by (rule start_keeps[OF everywhereD[OF ok] msg Inr])
  moreover from Inr have "servers (exec (mark_processing E msg) w) = servers w \<or>
      servers (exec (mark_processing E msg) w) = (servers w)(Write (DB E) := tb)"
    by (simp add: exec_statement_run)
  ultimately show ?thesis
    using everywhere_same[OF ok] everywhere_update[OF ok] msg by (metis fun_upd_same)
qed

lemma complete_keeps:
  assumes ok: "everywhere keep w" and msg: "known (servers w (Write (DB E))) msg"
  shows "everywhere keep (exec (complete_and_move E msg) w)"
proof -
  have posted: "keep (Write (DB E)) tb" if "post (pg E) msg (clock E (ticks w)) (servers w (Write (DB E))) = Inr tb" for tb
    by (rule post_keeps[OF everywhereD[OF ok] msg that])
  show ?thesis
  proof (cases "result (complete_and_move E msg) w")
    case None
    from complete_None[OF None] posted show ?thesis by (blast intro: everywhere_update[OF ok])
  next
    case (Some e)
    from complete_Some[OF Some] posted show ?thesis
      by (blast intro: everywhere_update[OF ok] everywhere_same[OF ok])
  qed
qed

lemma process_keeps:
  assumes "everywhere keep w" and "known (servers w (Write (DB E))) msg"
  shows "everywhere keep (exec (processTransaction E msg) w)"
proof -
  note m = mark_keeps[OF assms]
  show ?thesis
  proof (cases "result (mark_processing E msg) w")
    case None
    show ?thesis
      by (rule everywhere_same[OF complete_keeps[OF conjunct1[OF m] conjunct2[OF m]]])
        (simp add: process_servers None)
  next
    case (Some e)
    show ?thesis by (rule everywhere_same[OF conjunct1[OF m]]) (simp add: process_servers Some)
  qed
qed

lemma consume_keeps:
  assumes "everywhere keep w"
    and "\<And>msg. dec_msg (codec E) (dl_body d) = Inr msg \<Longrightarrow> known (servers w (Write (DB E))) msg"
  shows "everywhere keep (exec (consume_one E (processTransaction E) d) w)"
proof (cases "dec_msg (codec E) (dl_body d)")
  case (Inl e)
  show ?thesis by (rule everywhere_same[OF assms(1)]) (simp add: consume_one_servers Inl)
next
  case (Inr msg)
  show ?thesis
    by (rule everywhere_same[OF process_keeps[OF assms(1) assms(2)[OF Inr]]]) (simp add: consume_one_servers Inr)
qed

end

text \<open>With nothing asked of the messages.\<close>

locale ledger_invariant = message_invariant E keep "\<lambda>_ _. True"
  for E :: "('r, 'q, 'b, 'l) env" and keep

text \<open>What each of the three statements keeps, the two database transactions keep.\<close>

locale statement_invariant =
  fixes E :: "('r, 'q, 'b, 'l) env" and keep :: "endpoint \<Rightarrow> tables \<Rightarrow> bool"
  assumes insert_keeps: "keep ep tb \<Longrightarrow>
      sql_insert_transaction (pg E) st tid uid ty amt ref desc t tb = Inr tb' \<Longrightarrow> keep ep tb'"
    and status_keeps: "keep ep tb \<Longrightarrow> sql_set_status (pg E) st tid t tb = Inr tb' \<Longrightarrow> keep ep tb'"
    and move_keeps: "keep ep tb \<Longrightarrow> sql_move_balance (pg E) dir amt uid t tb = Inr tb' \<Longrightarrow> keep ep tb'"

sublocale statement_invariant \<subseteq> ledger_invariant E keep
proof
  fix ep tb msg t tb'
  assume "keep ep tb" and "post (pg E) msg t tb = Inr tb'"
  then show "keep ep tb'"
    by (auto simp: post_def split: sum.splits option.splits dest: status_keeps move_keeps)
next
  fix ep tb req tid ref t tb'
  assume "keep ep tb" and "v0_post (pg E) req tid ref t tb = Inr tb'"
  then show "keep ep tb'"
    by (auto simp: v0_post_def split: sum.splits option.splits dest: insert_keeps move_keeps)
qed (blast intro: insert_keeps status_keeps)+

end
