(* ===== verification/System.thy ===== *)
theory System
  imports Ledger
begin

text \<open>
  The whole server as one step relation.  Requests, the stretches of creations and processings
  that other work can come between, the consumer, the limiter sweep and the metrics collector
  interleave freely.  What a handler, the consumer and the rest keep of the database (theory
  Ledger) is kept by every run of this system.
\<close>

section \<open>Recovery, metrics page and unknown paths\<close>

text \<open>
  What is asked of the three handlers that are the web framework's: the recovery middleware keeps
  an invariant of the tables that the handlers behind it keep, and the metrics page and the
  answer to an unknown path write no database.
\<close>

definition framework_ok ::
  "(endpoint \<Rightarrow> tables \<Rightarrow> bool) \<Rightarrow> (('r, 'q, 'b, 'l) handler \<Rightarrow> ('r, 'q, 'b, 'l) handler) \<Rightarrow>
     ('r, 'q, 'b, 'l) handler \<Rightarrow> ('r, 'q, 'b, 'l) handler \<Rightarrow> bool" where
  "framework_ok keep recovery metrics_page not_found \<longleftrightarrow>
     (\<forall>h. (\<forall>c. preserves (everywhere keep) (h c)) \<longrightarrow> (\<forall>c. preserves (everywhere keep) (recovery h c))) \<and>
     (\<forall>c. unchanged servers (metrics_page c)) \<and> (\<forall>c. unchanged servers (not_found c))"

text \<open>
  \<open>framework_sound\<close> asks the same for every property of the stores at once: recovery adds no effect
  on them of its own, and the two pages none at all.
\<close>

definition framework_sound ::
  "(('r, 'q, 'b, 'l) handler \<Rightarrow> ('r, 'q, 'b, 'l) handler) \<Rightarrow>
     ('r, 'q, 'b, 'l) handler \<Rightarrow> ('r, 'q, 'b, 'l) handler \<Rightarrow> bool" where
  "framework_sound recovery metrics_page not_found \<longleftrightarrow>
     (\<forall>P h. (\<forall>c. preserves (\<lambda>w. P (stores w)) (h c)) \<longrightarrow> (\<forall>c. preserves (\<lambda>w. P (stores w)) (recovery h c))) \<and>
     (\<forall>c. unchanged stores (metrics_page c)) \<and> (\<forall>c. unchanged stores (not_found c))"

lemma unchanged_stores_servers: "unchanged stores m \<Longrightarrow> unchanged servers m"
  by (simp add: unchanged_def stores_def)

lemma framework_soundD:
  assumes "framework_sound recovery metrics_page not_found" and "\<And>c. preserves (\<lambda>w. P (stores w)) (h c)"
  shows "preserves (\<lambda>w. P (stores w)) (recovery h c)"
  using assms unfolding framework_sound_def by blast

lemma framework_sound_ok:
  assumes "framework_sound recovery metrics_page not_found"
  shows "framework_ok keep recovery metrics_page not_found"
proof -
  have "preserves (everywhere keep) (recovery h c)" if "\<And>c. preserves (everywhere keep) (h c)" for h c
    using framework_soundD[OF assms, where P = "\<lambda>st. \<forall>ep. keep ep (fst st ep)" and h = h and c = c] that unfolding everywhere_stores .
  then show ?thesis using assms by (auto simp: framework_ok_def framework_sound_def intro: unchanged_stores_servers)
qed

text \<open>A concrete framework: nothing panics, and the two pages answer without the database.\<close>

definition page :: "nat \<Rightarrow> ('r, 'q, 'b, 'l) handler" where
  "page n c = ret (json n [])"

lemma sample_framework: "framework_ok keep (\<lambda>h. h) (page 200) (page 404)"
  by (auto simp: framework_ok_def page_def intro: framing)

lemma sample_framework_sound: "framework_sound (\<lambda>h. h) (page 200) (page 404)"
  by (auto simp: framework_sound_def page_def intro: framing)

section \<open>The steps of the server\<close>

text \<open>
  Goroutines interleave.  A step is a whole request through the chain; a stretch of a creation, so
  that other work can come between the stretches: the checks before the insert (one query and one
  lookup), the insert in the breaker, what follows it (the record in Redis and the message), or the
  last two together; a database statement or transaction of a processing; a delivery handled as a
  whole; its settlement; a sweep of the limiter table; or a round of the metrics collector.
\<close>

inductive app_step ::
  "('r, 'q, 'b, 'l) env \<Rightarrow> (('r, 'q, 'b, 'l) handler \<Rightarrow> ('r, 'q, 'b, 'l) handler) \<Rightarrow>
     ('r, 'q, 'b, 'l) handler \<Rightarrow> ('r, 'q, 'b, 'l) handler \<Rightarrow>
     ('r, 'q, 'b, 'l) world \<Rightarrow> ('r, 'q, 'b, 'l) world \<Rightarrow> bool"
  for E :: "('r, 'q, 'b, 'l) env" and recovery metrics_page not_found where
  Request: "app_step E recovery metrics_page not_found w (exec (serve E recovery metrics_page not_found c) w)"
| Check: "app_step E recovery metrics_page not_found w (exec (create_check E tr req) w)"
| Write: "app_step E recovery metrics_page not_found w (exec (create_write E tr req k) w)"
| Insert: "app_step E recovery metrics_page not_found w (exec (create_insert E req tid ref) w)"
| Finish: "app_step E recovery metrics_page not_found w (exec (create_finish E tr req k tid ref) w)"
| Delivery: "app_step E recovery metrics_page not_found w (exec (consume_one E (processTransaction E) d) w)"
| Mark: "app_step E recovery metrics_page not_found w (exec (mark_processing E msg) w)"
| Move: "app_step E recovery metrics_page not_found w (exec (complete_and_move E msg) w)"
| Settle: "app_step E recovery metrics_page not_found w (exec (settle E tag s) w)"
| Sweep: "app_step E recovery metrics_page not_found w (exec (cleanupLimiters E) w)"
| Collect: "app_step E recovery metrics_page not_found w (exec (collectMetrics_tick E wu ru) w)"

text \<open>
  A crash or a shutdown, followed by a start, loses what the process held: the limiter table, the
  metrics, the unsettled deliveries and every stretch of work not yet done.  The breakers are made
  anew.  What the database servers hold stays; Redis and the broker are servers of their own whose
  contents may be anything afterwards.
\<close>

definition restarted :: "('r, 'q, 'b, 'l) env \<Rightarrow> ('r, 'q, 'b, 'l) world \<Rightarrow> ('r, 'q, 'b, 'l) world \<Rightarrow> bool" where
  "restarted E w w' \<longleftrightarrow> (\<exists>v. servers v = servers w \<and> limiters v = (\<lambda>_. None) \<and> mtrace v = [] \<and> logs v = [] \<and>
     w' = exec (InitCircuitBreakers E) v)"

lemma restarted_servers: "restarted E w w' \<Longrightarrow> servers w' = servers w"
  by (auto simp: restarted_def InitCircuitBreakers_def count_run)

text \<open>The server over its whole life: work, interrupted by restarts at any point.\<close>

inductive life_step ::
  "('r, 'q, 'b, 'l) env \<Rightarrow> (('r, 'q, 'b, 'l) handler \<Rightarrow> ('r, 'q, 'b, 'l) handler) \<Rightarrow>
     ('r, 'q, 'b, 'l) handler \<Rightarrow> ('r, 'q, 'b, 'l) handler \<Rightarrow>
     ('r, 'q, 'b, 'l) world \<Rightarrow> ('r, 'q, 'b, 'l) world \<Rightarrow> bool"
  for E :: "('r, 'q, 'b, 'l) env" and recovery metrics_page not_found where
  Work: "app_step E recovery metrics_page not_found w w' \<Longrightarrow> life_step E recovery metrics_page not_found w w'"
| Restart: "restarted E w w' \<Longrightarrow> life_step E recovery metrics_page not_found w w'"

inductive_cases life_stepE: "life_step E recovery metrics_page not_found w w'"

lemma framework_okD:
  assumes "framework_ok keep recovery metrics_page not_found"
  shows "(\<And>c. preserves (everywhere keep) (h c)) \<Longrightarrow> preserves (everywhere keep) (recovery h c)"
    and "preserves (everywhere keep) (metrics_page c)" and "preserves (everywhere keep) (not_found c)"
  using assms by (auto simp: framework_ok_def intro: everywhere_frame)

context request_invariant begin

lemma serve_preserves:
  assumes "framework_ok keep recovery metrics_page not_found"
  shows "preserves (everywhere keep) (serve E recovery metrics_page not_found c)"
  using serve_keeps[of recovery metrics_page not_found c, unfolded everywhere_stores] framework_okD[OF assms] by blast

lemma finish_preserves: "preserves (everywhere keep) (create_finish E tr req k tid ref)"
  by (intro everywhere_frame create_finish_frame)

end

context ledger_invariant begin

lemma step_keeps:
  assumes "app_step E recovery metrics_page not_found w w'"
    and "framework_ok keep recovery metrics_page not_found" and "everywhere keep w"
  shows "everywhere keep w'"
  using assms(1)
proof (cases rule: app_step.cases)
  case (Request c)
  then show ?thesis using preservesD[OF serve_preserves[OF assms(2)] assms(3)] by simp
next
  case (Check tr req)
  then show ?thesis using preservesD[OF check_preserves assms(3)] by simp
next
  case (Write tr req k)
  then show ?thesis using preservesD[OF write_preserves assms(3)] by simp
next
  case (Insert req tid ref)
  then show ?thesis using preservesD[OF insert_preserves assms(3)] by simp
next
  case (Finish tr req k tid ref)
  then show ?thesis using preservesD[OF finish_preserves assms(3)] by simp
next
  case (Delivery d)
  then show ?thesis using consume_keeps[OF assms(3)] by simp
next
  case (Mark msg)
  then show ?thesis using mark_keeps[OF assms(3)] by simp
next
  case (Move msg)
  then show ?thesis using complete_keeps[OF assms(3)] by simp
next
  case (Settle tag s)
  show ?thesis by (rule everywhere_same[OF assms(3)]) (simp add: Settle settle_run)
next
  case Sweep
  show ?thesis by (rule everywhere_same[OF assms(3)]) (simp add: Sweep cleanup_run)
next
  case (Collect wu ru)
  show ?thesis
    by (rule everywhere_same[OF assms(3)]) (simp add: Collect collectMetrics_tick_def running split: sum.split)
qed

lemma life_keeps:
  assumes "life_step E recovery metrics_page not_found w w'"
    and "framework_ok keep recovery metrics_page not_found" and "everywhere keep w"
  shows "everywhere keep w'"
  using assms(1)
  by (elim life_stepE) (blast intro: step_keeps[OF _ assms(2,3)] everywhere_same[OF assms(3) restarted_servers])+

end

section \<open>The two invariants\<close>

interpretation schema: statement_invariant E "\<lambda>_. tables_ok"
  for E :: "('r, 'q, 'b, 'l) env"
  by unfold_locales (fact insert_ok.keeps, fact status_ok.keeps, fact move_ok.keeps)

text \<open>The part of the rows no step rewrites, in order, starts with what it was.\<close>

definition grown_from :: "tables \<Rightarrow> tables \<Rightarrow> bool" where
  "grown_from tb0 tb \<longleftrightarrow> prefix (map row_core (transactions tb0)) (map row_core (transactions tb))"

interpretation append_only: statement_invariant E "\<lambda>ep. grown_from (base ep)"
  for E :: "('r, 'q, 'b, 'l) env" and base
proof
  fix ep tb st tid uid ty amt ref desc t tb'
  assume g: "grown_from (base ep) tb" and "sql_insert_transaction (pg E) st tid uid ty amt ref desc t tb = Inr tb'"
  then show "grown_from (base ep) tb'"
    by (elim insert_Inr) (simp add: grown_from_def prefix_prefix)
next
  fix ep tb st tid t tb'
  assume g: "grown_from (base ep) tb" and "sql_set_status (pg E) st tid t tb = Inr tb'"
  then show "grown_from (base ep) tb'"
    using status_core.keeps[OF refl, of "pg E" st tid t tb tb'] by (simp add: grown_from_def)
next
  fix ep tb dir amt uid t tb'
  assume g: "grown_from (base ep) tb" and "sql_move_balance (pg E) dir amt uid t tb = Inr tb'"
  then show "grown_from (base ep) tb'"
    using move_core.keeps[OF refl, of "pg E" dir amt uid t tb tb'] by (simp add: grown_from_def)
qed

interpretation append_system: step_system "everywhere (\<lambda>ep. grown_from (base ep))" "life_step E recovery metrics_page not_found"
    "\<lambda>w. framework_ok (\<lambda>ep. grown_from (base ep)) recovery metrics_page not_found \<longrightarrow> everywhere (\<lambda>ep. grown_from (base ep)) w"
  for E :: "('r, 'q, 'b, 'l) env" and base recovery metrics_page not_found
  by unfold_locales (blast intro: append_only.life_keeps)+

end
