(* ===== verification/Flow.thy ===== *)
theory Flow
  imports System
begin

text \<open>
  The server with what its messages and creations carry.  System lets the consumer handle any
  delivery and a creation publish without having inserted; here a step takes only what earlier
  steps made: a delivery is of a message the broker holds, and what follows an insert belongs to a
  creation whose insert succeeded.  Every run of this relation is one of \<open>life_step\<close>.  The theory
  shows that the broker never holds a message without its row.
\<close>

section \<open>Steps\<close>

text \<open>A creation past its insert: trace id, request, idempotency key, transaction id, reference.\<close>

type_synonym creation = "string \<times> CreateTransactionRequest \<times> string \<times> string \<times> string"

text \<open>
  The state is the world and the creations between their insert and their answer.  A restart loses
  them, and puts no message on the queue.
\<close>

inductive flow_step ::
  "('r, 'q, 'b, 'l) env \<Rightarrow> (('r, 'q, 'b, 'l) handler \<Rightarrow> ('r, 'q, 'b, 'l) handler) \<Rightarrow>
     ('r, 'q, 'b, 'l) handler \<Rightarrow> ('r, 'q, 'b, 'l) handler \<Rightarrow>
     ('r, 'q, 'b, 'l) world \<times> creation set \<Rightarrow> ('r, 'q, 'b, 'l) world \<times> creation set \<Rightarrow> bool"
  for E :: "('r, 'q, 'b, 'l) env" and recovery metrics_page not_found where
  Request: "flow_step E recovery metrics_page not_found (w, C) (exec (serve E recovery metrics_page not_found c) w, C)"
| Check: "flow_step E recovery metrics_page not_found (w, C) (exec (create_check E tr req) w, C)"
| Inserted: "result (create_insert E req tid ref) w = Inr () \<Longrightarrow>
    flow_step E recovery metrics_page not_found (w, C) (exec (create_insert E req tid ref) w, insert (tr, req, k, tid, ref) C)"
| NotInserted: "result (create_insert E req tid ref) w = Inl err \<Longrightarrow>
    flow_step E recovery metrics_page not_found (w, C) (exec (create_insert E req tid ref) w, C)"
| Finish: "(tr, req, k, tid, ref) \<in> C \<Longrightarrow>
    flow_step E recovery metrics_page not_found (w, C) (exec (create_finish E tr req k tid ref) w, C - {(tr, req, k, tid, ref)})"
| Delivery: "mq_holds (mq E) (broker w) (dl_body d) \<Longrightarrow>
    flow_step E recovery metrics_page not_found (w, C) (exec (consume_one E (processTransaction E) d) w, C)"
| Mark: "mq_holds (mq E) (broker w) s \<Longrightarrow> dec_msg (codec E) s = Inr msg \<Longrightarrow>
    flow_step E recovery metrics_page not_found (w, C) (exec (mark_processing E msg) w, C)"
| Move: "mq_holds (mq E) (broker w) s \<Longrightarrow> dec_msg (codec E) s = Inr msg \<Longrightarrow>
    flow_step E recovery metrics_page not_found (w, C) (exec (complete_and_move E msg) w, C)"
| Settle: "flow_step E recovery metrics_page not_found (w, C) (exec (settle E tag s) w, C)"
| Sweep: "flow_step E recovery metrics_page not_found (w, C) (exec (cleanupLimiters E) w, C)"
| Collect: "flow_step E recovery metrics_page not_found (w, C) (exec (collectMetrics_tick E wu ru) w, C)"
| Restart: "restarted E w w' \<Longrightarrow> (\<And>s. mq_holds (mq E) (broker w') s \<Longrightarrow> mq_holds (mq E) (broker w) s) \<Longrightarrow>
    flow_step E recovery metrics_page not_found (w, C) (w', {})"

inductive_cases flow_stepE: "flow_step E recovery metrics_page not_found (w, C) (w', C')"

lemma flow_is_life:
  "flow_step E recovery metrics_page not_found (w, C) (w', C') \<Longrightarrow> life_step E recovery metrics_page not_found w w'"
  by (erule flow_stepE) (auto intro: life_step.intros app_step.intros)

section \<open>The row behind a message\<close>

definition has_row :: "pg_lib \<Rightarrow> tables \<Rightarrow> TransactionMessage \<Rightarrow> bool" where
  "has_row P tb msg \<longleftrightarrow> (\<exists>r \<in> set (transactions tb).
     uuid_in P (msg_TransactionID msg) = Some (row_id r) \<and> uuid_in P (msg_UserID msg) = Some (row_user r) \<and>
     row_type r = msg_Type msg \<and> type_check (row_type r) \<and>
     row_amount r = round_cents (pq_float P (msg_Amount msg)))"

text \<open>It depends only on what no later step rewrites.\<close>

lemma has_row_core:
  "has_row P tb msg \<longleftrightarrow> (\<exists>(i, u, ty, c, rest) \<in> set (map row_core (transactions tb)).
     uuid_in P (msg_TransactionID msg) = Some i \<and> uuid_in P (msg_UserID msg) = Some u \<and>
     ty = msg_Type msg \<and> type_check ty \<and> c = round_cents (pq_float P (msg_Amount msg)))"
  by (simp add: has_row_def row_core_def)

lemma has_row_grown: "has_row P tb msg \<Longrightarrow> grown_from tb tb' \<Longrightarrow> has_row P tb' msg"
  unfolding has_row_core grown_from_def
  by (erule bexE, rule bexI, assumption, erule (1) subsetD[OF set_mono_prefix])

lemma has_row_same_order: "same_order m m' \<Longrightarrow> has_row P tb m' \<longleftrightarrow> has_row P tb m"
  by (simp add: has_row_def same_order_def)

lemma insert_has_row:
  "sql_insert_transaction P Pending tid (req_UserID req) (req_Type req) (req_Amount req) ref desc t tb = Inr tb' \<Longrightarrow>
     has_row P tb' (message_of req tid tr t')"
  by (elim insert_Inr) (auto simp: has_row_def message_of_def)

definition booked :: "('r, 'q, 'b, 'l) env \<Rightarrow> (endpoint \<Rightarrow> tables) \<times> 'r \<times> 'q \<Rightarrow> bool" where
  "booked E st \<longleftrightarrow> (\<forall>s msg. mq_holds (mq E) (snd (snd st)) s \<longrightarrow> dec_msg (codec E) s = Inr msg \<longrightarrow>
     has_row (pg E) (fst st (Write (DB E))) msg)"

lemma booked_stores:
  "booked E (stores w) \<longleftrightarrow> (\<forall>s msg. mq_holds (mq E) (broker w) s \<longrightarrow> dec_msg (codec E) s = Inr msg \<longrightarrow>
     has_row (pg E) (servers w (Write (DB E))) msg)"
  by (simp add: booked_def stores_def)

lemma booked_grown:
  assumes "booked E (stores w)" and "grown_from (servers w (Write (DB E))) (servers w' (Write (DB E)))"
    and "\<And>s. mq_holds (mq E) (broker w') s \<Longrightarrow> mq_holds (mq E) (broker w) s"
  shows "booked E (stores w')"
  using assms has_row_grown unfolding booked_stores by blast

lemma grown_refl [simp]: "grown_from tb tb"
  by (simp add: grown_from_def)

text \<open>What every statement of the program leaves behind has grown from what was there.\<close>

lemma grown_by:
  assumes "\<And>base. preserves (everywhere (\<lambda>ep. grown_from (base ep))) m"
  shows "grown_from (servers w ep) (servers (exec m w) ep)"
  using everywhereD[OF preservesD[OF assms[of "servers w"], of w]] by (simp add: everywhere_def)

section \<open>Each stretch keeps the messages booked\<close>

definition mail_laws :: "('r, 'q, 'b, 'l) env \<Rightarrow> bool" where
  "mail_laws E \<longleftrightarrow> holds_only_sent (mq E) \<and> reads_back (codec E)"

lemma insert_booked: "booked E (stores w) \<Longrightarrow> booked E (stores (exec (create_insert E req tid ref) w))"
  by (erule booked_grown)
    (simp_all add: grown_by[OF append_only.insert_preserves] unchangedD[OF create_insert_frame(2)])

lemma inserted_has_row:
  assumes "result (create_insert E req tid ref) w = Inr x"
  shows "has_row (pg E) (servers (exec (create_insert E req tid ref) w) (Write (DB E))) (message_of req tid tr t)"
  using create_insert_Inr[OF assms] by (auto intro: insert_has_row)

lemma enqueued_broker:
  "enqueued E req tid tr w w' ok \<Longrightarrow> broker w' = broker w \<or>
     (\<exists>t t' data. enc_msg (codec E) (message_of req tid tr t) = Inr data \<and> broker w' =
        snd (mq_publish (mq E) [] (queue_name (getenv E)) True False (to_publish tid t' data) (broker w)))"
  unfolding enqueued_def by (elim exE) (auto split: sum.splits)

lemma finish_booked:
  assumes laws: "mail_laws E" and before: "booked E (stores w)"
    and row: "has_row (pg E) (servers w (Write (DB E))) (message_of req tid tr t0)"
  shows "booked E (stores (exec (create_finish E tr req k tid ref) w))"
proof -
  let ?w' = "exec (create_finish E tr req k tid ref) w"
  have srv: "servers ?w' = servers w" by (simp add: unchangedD[OF create_finish_frame])
  have "has_row (pg E) (servers w (Write (DB E))) msg"
    if held: "mq_holds (mq E) (broker ?w') s" and dec: "dec_msg (codec E) s = Inr msg" for s msg
  proof (cases "mq_holds (mq E) (broker w) s")
    case True
    then show ?thesis using before dec by (simp add: booked_stores)
  next
    case False
    then obtain t t' data where enc: "enc_msg (codec E) (message_of req tid tr t) = Inr data"
      and sent: "broker ?w' = snd (mq_publish (mq E) [] (queue_name (getenv E)) True False (to_publish tid t' data) (broker w))"
      using enqueued_broker[OF conjunct1[OF create_finish_queue[of E req tid tr w k ref]]] held by auto
    have "s = pub_Body (to_publish tid t' data)"
      using laws held False unfolding sent mail_laws_def holds_only_sent_def by blast
    then have "s = data" by (simp add: to_publish_def)
    then obtain msg' where "dec_msg (codec E) s = Inr msg'" "same_order (message_of req tid tr t) msg'"
      using laws enc unfolding mail_laws_def reads_back_def by blast
    then have "same_order (message_of req tid tr t0) msg"
      using dec by (simp add: same_order_def message_of_def)
    then show ?thesis using row has_row_same_order by blast
  qed
  then show ?thesis by (simp add: booked_stores srv)
qed

lemma write_booked:
  assumes "mail_laws E" and "booked E (stores w)"
  shows "booked E (stores (exec (create_write E tr req k) w))"
proof -
  let ?tid = "uuid_new E (n_uuid w)" and ?w = "w\<lparr>n_uuid := Suc (n_uuid w), ticks := Suc (ticks w)\<rparr>"
  let ?i = "create_insert E req ?tid (reference_id E (clock E (ticks w)) ?tid)"
  have "booked E (stores ?w)" using assms(2) by (simp add: booked_stores)
  then have i: "booked E (stores (exec ?i ?w))" by (rule insert_booked)
  show ?thesis
  proof (cases "result ?i ?w")
    case (Inl e)
    then show ?thesis using i by (simp add: create_write_def running Let_def)
  next
    case (Inr x)
    then show ?thesis
      using finish_booked[OF assms(1) i inserted_has_row[OF Inr]] by (simp add: create_write_def running Let_def)
  qed
qed

lemma inspect_held: "mail_laws E \<Longrightarrow> mq_holds (mq E) (snd (mq_inspect (mq E) q b)) s \<Longrightarrow> mq_holds (mq E) b s"
  unfolding mail_laws_def holds_only_sent_def by blast

lemma settle_held:
  assumes "mail_laws E" and "mq_holds (mq E) (broker (exec (settle E tag st) w)) s"
  shows "mq_holds (mq E) (broker w) s"
proof -
  have ack: "mq_holds (mq E) (mq_ack (mq E) tag b) s \<Longrightarrow> mq_holds (mq E) b s" for b
    using assms(1) unfolding mail_laws_def holds_only_sent_def by blast
  have nack: "mq_holds (mq E) (mq_nack (mq E) tag q b) s \<Longrightarrow> mq_holds (mq E) b s" for q b
    using assms(1) unfolding mail_laws_def holds_only_sent_def by blast
  show ?thesis
    using assms(2) by (cases st) (auto simp: settle_run intro: ack nack)
qed

lemma health_broker:
  "broker (exec (healthCheck E c) w) = snd (mq_inspect (mq E) (queue_name (getenv E)) (broker w))"
  "servers (exec (healthCheck E c) w) = servers w"
  by (simp_all add: healthCheck_def ping_server_def ping_cache_def Let_def running)

interpretation mail: store_invariant E "\<lambda>st. mail_laws E \<longrightarrow> booked E st"
  for E :: "('r, 'q, 'b, 'l) env"
proof
  fix c :: gin_ctx
  show "preserves (\<lambda>w :: ('r, 'q, 'b, 'l) world. mail_laws E \<longrightarrow> booked E (stores w)) (CreateTransaction E c)"
  proof (rule preserves_given, rule preservesI)
    fix w :: "('r, 'q, 'b, 'l) world"
    assume laws: "mail_laws E" and w: "booked E (stores w)"
    have "booked E (stores (exec (create_check E tr req) w))" for tr req
      using w by (simp add: booked_stores unchangedD[OF create_check_frame(1)] unchangedD[OF create_check_frame(2)])
    then show "booked E (stores (exec (CreateTransaction E c) w))"
      using w write_booked[OF laws] by (simp add: create_exec split: sum.split)
  qed
  show "preserves (\<lambda>w :: ('r, 'q, 'b, 'l) world. mail_laws E \<longrightarrow> booked E (stores w)) (GetTransaction E c)"
    by (rule preserves_given, rule preservesI) (simp add: booked_stores transaction_read.reads_only)
  show "preserves (\<lambda>w :: ('r, 'q, 'b, 'l) world. mail_laws E \<longrightarrow> booked E (stores w)) (GetUserBalance E c)"
    by (rule preserves_given, rule preservesI) (simp add: booked_stores balance_read.reads_only)
  show "preserves (\<lambda>w :: ('r, 'q, 'b, 'l) world. mail_laws E \<longrightarrow> booked E (stores w)) (CreateTransactionV0 E c)"
  proof (rule preserves_given, rule preservesI)
    fix w :: "('r, 'q, 'b, 'l) world"
    assume "booked E (stores w)"
    then show "booked E (stores (exec (CreateTransactionV0 E c) w))"
    proof (rule booked_grown)
      show "grown_from (servers w (Write (DB E))) (servers (exec (CreateTransactionV0 E c) w) (Write (DB E)))"
        by (rule grown_by, rule append_only.v0_create_preserves)
      have "broker (exec (CreateTransactionV0 E c) w) = broker w"
        by (simp add: v0_exec unchangedD[OF v0_write_frame(1)] split: sum.split)
      then show "mq_holds (mq E) (broker (exec (CreateTransactionV0 E c) w)) s \<Longrightarrow> mq_holds (mq E) (broker w) s" for s
        by simp
    qed
  qed
  show "preserves (\<lambda>w :: ('r, 'q, 'b, 'l) world. mail_laws E \<longrightarrow> booked E (stores w)) (healthCheck E c)"
  proof (rule preserves_given, rule preservesI)
    fix w :: "('r, 'q, 'b, 'l) world"
    assume laws: "mail_laws E" and w: "booked E (stores w)"
    show "booked E (stores (exec (healthCheck E c) w))"
      by (rule booked_grown[OF w], simp add: health_broker, rule inspect_held[OF laws], simp add: health_broker)
  qed
qed

section \<open>Each step keeps the messages booked\<close>

definition in_flight_booked :: "('r, 'q, 'b, 'l) env \<Rightarrow> ('r, 'q, 'b, 'l) world \<Rightarrow> creation set \<Rightarrow> bool" where
  "in_flight_booked E w C \<longleftrightarrow> (\<forall>(tr, req, k, tid, ref) \<in> C. \<forall>t.
     has_row (pg E) (servers w (Write (DB E))) (message_of req tid tr t))"

lemma in_flight_grown:
  "in_flight_booked E w C \<Longrightarrow> grown_from (servers w (Write (DB E))) (servers w' (Write (DB E))) \<Longrightarrow> C' \<subseteq> C \<Longrightarrow>
     in_flight_booked E w' C'"
  using has_row_grown unfolding in_flight_booked_def by fastforce

lemma flow_grown:
  assumes "flow_step E recovery metrics_page not_found (w, C) (w', C')"
    and "framework_sound recovery metrics_page not_found"
  shows "grown_from (servers w ep) (servers w' ep)"
proof -
  have "everywhere (\<lambda>ep. grown_from (servers w ep)) w" by (simp add: everywhere_def)
  from append_only.life_keeps[OF flow_is_life[OF assms(1)] framework_sound_ok[OF assms(2)] this]
  show ?thesis by (rule everywhereD)
qed

lemma process_broker [simp]:
  "broker (exec (mark_processing E msg) w) = broker w"
  "broker (exec (complete_and_move E msg) w) = broker w"
  "broker (exec (processTransaction E msg) w) = broker w"
  by (simp_all add: processTransaction_def running unchangedD[OF complete_frame(2)] split: option.split)

lemma consume_held:
  assumes "mail_laws E" and "mq_holds (mq E) (broker (exec (consume_one E (processTransaction E) d) w)) s"
  shows "mq_holds (mq E) (broker w) s"
proof -
  obtain st v where "broker (exec (consume_one E (processTransaction E) d) w) = broker (exec (settle E (dl_tag d) st) v)"
    "broker v = broker w"
    by (cases "dec_msg (codec E) (dl_body d)"; cases "result (processTransaction E (projr (dec_msg (codec E) (dl_body d)))) w")
      (auto simp: consume_one_def)
  then show ?thesis using settle_held[OF assms(1)] assms(2) by metis
qed

lemma serve_booked:
  assumes "framework_sound recovery metrics_page not_found"
  shows "preserves (\<lambda>w. mail_laws E \<longrightarrow> booked E (stores w)) (serve E recovery metrics_page not_found c)"
proof (rule mail.serve_keeps)
  show "preserves (\<lambda>w. mail_laws E \<longrightarrow> booked E (stores w)) (metrics_page d)" for d
    by (rule stores_frame[where P = "\<lambda>st. mail_laws E \<longrightarrow> booked E st"])
      (use assms in \<open>simp add: framework_sound_def\<close>)
  show "preserves (\<lambda>w. mail_laws E \<longrightarrow> booked E (stores w)) (not_found d)" for d
    by (rule stores_frame[where P = "\<lambda>st. mail_laws E \<longrightarrow> booked E st"])
      (use assms in \<open>simp add: framework_sound_def\<close>)
qed (rule framework_soundD[OF assms, where P = "\<lambda>st. mail_laws E \<longrightarrow> booked E st"])

lemma flow_booked:
  assumes step: "flow_step E recovery metrics_page not_found (w, C) (w', C')"
    and fw: "framework_sound recovery metrics_page not_found" and laws: "mail_laws E"
    and w: "booked E (stores w)" and C: "in_flight_booked E w C"
  shows "booked E (stores w') \<and> in_flight_booked E w' C'"
proof -
  note grown = flow_grown[OF step fw]
  have less: ?thesis if "\<And>s. mq_holds (mq E) (broker w') s \<Longrightarrow> mq_holds (mq E) (broker w) s" and "C' \<subseteq> C"
    using booked_grown[OF w grown that(1)] in_flight_grown[OF C grown that(2)] by blast
  from step show ?thesis
  proof (cases rule: flow_step.cases)
    case (Request c)
    have "booked E (stores w')"
      using preservesD[OF serve_booked[OF fw], of E w c] w laws Request by simp
    then show ?thesis using in_flight_grown[OF C grown] Request by simp
  next
    case (Check tr req)
    then show ?thesis by (intro less) (simp_all add: unchangedD[OF create_check_frame(2)])
  next
    case (Inserted req tid ref tr k)
    have "in_flight_booked E w' C" by (rule in_flight_grown[OF C grown]) simp
    then have "in_flight_booked E w' C'"
      using inserted_has_row[OF Inserted(3)] by (simp add: in_flight_booked_def Inserted(1,2))
    then show ?thesis using insert_booked[OF w] Inserted(1) by simp
  next
    case (NotInserted req tid ref err)
    then show ?thesis by (intro less) (simp_all add: unchangedD[OF create_insert_frame(2)])
  next
    case (Finish tr req k tid ref)
    have "has_row (pg E) (servers w (Write (DB E))) (message_of req tid tr 0)"
      using C Finish(3) by (auto simp: in_flight_booked_def)
    then have "booked E (stores w')" unfolding Finish(1) by (rule finish_booked[OF laws w])
    moreover have "in_flight_booked E w' C'" by (rule in_flight_grown[OF C grown]) (auto simp: Finish(2))
    ultimately show ?thesis by blast
  next
    case (Delivery d)
    then show ?thesis by (intro less) (auto dest: consume_held[OF laws])
  next
    case (Mark s msg)
    then show ?thesis by (intro less) simp_all
  next
    case (Move s msg)
    then show ?thesis by (intro less) simp_all
  next
    case (Settle tag s)
    then show ?thesis by (intro less) (auto dest: settle_held[OF laws])
  next
    case Sweep
    then show ?thesis by (intro less) (simp_all add: cleanup_run)
  next
    case (Collect wu ru)
    then show ?thesis
      by (intro less) (auto simp: collectMetrics_tick_def running split: sum.splits dest: inspect_held[OF laws])
  next
    case Restart
    then show ?thesis by (intro less) auto
  qed
qed

interpretation flow: step_system "\<lambda>(w, C). C = {} \<and> booked E (stores w)"
    "flow_step E recovery metrics_page not_found"
    "\<lambda>(w, C). framework_sound recovery metrics_page not_found \<and> mail_laws E \<longrightarrow> booked E (stores w) \<and> in_flight_booked E w C"
  for E :: "('r, 'q, 'b, 'l) env" and recovery metrics_page not_found
proof
  fix s :: "('r, 'q, 'b, 'l) world \<times> creation set"
  assume "case s of (w, C) \<Rightarrow> C = {} \<and> booked E (stores w)"
  then show "case s of (w, C) \<Rightarrow> framework_sound recovery metrics_page not_found \<and> mail_laws E \<longrightarrow>
      booked E (stores w) \<and> in_flight_booked E w C"
    by (auto simp: in_flight_booked_def)
qed (auto dest: flow_booked)

lemma flow_run_booked:
  assumes "framework_sound recovery metrics_page not_found" and "mail_laws E" and "booked E (stores w)"
    and "(flow_step E recovery metrics_page not_found)\<^sup>*\<^sup>* (w, {}) (w', C)"
  shows "booked E (stores w')"
  using flow.reachable_inv[OF _ assms(4)] assms(1,2,3) by simp

context message_invariant begin

lemma flow_keeps:
  assumes step: "flow_step E recovery metrics_page not_found (w, C) (w', C')"
    and fw: "framework_ok keep recovery metrics_page not_found" and ok: "everywhere keep w"
    and mail: "\<And>s msg. mq_holds (mq E) (broker w) s \<Longrightarrow> dec_msg (codec E) s = Inr msg \<Longrightarrow>
      known (servers w (Write (DB E))) msg"
  shows "everywhere keep w'"
  using step
proof (cases rule: flow_step.cases)
  case (Request c)
  then show ?thesis using preservesD[OF serve_preserves[OF fw] ok] by simp
next
  case (Check tr req)
  then show ?thesis using preservesD[OF check_preserves ok] by simp
next
  case (Inserted req tid ref tr k)
  then show ?thesis using preservesD[OF insert_preserves ok] by simp
next
  case (NotInserted req tid ref err)
  then show ?thesis using preservesD[OF insert_preserves ok] by simp
next
  case (Finish tr req k tid ref)
  then show ?thesis using preservesD[OF finish_preserves ok] by simp
next
  case (Delivery d)
  then show ?thesis using consume_keeps[OF ok mail] by simp
next
  case (Mark s msg)
  then show ?thesis using mark_keeps[OF ok mail] by simp
next
  case (Move s msg)
  then show ?thesis using complete_keeps[OF ok mail] by simp
next
  case (Settle tag s)
  show ?thesis by (rule everywhere_same[OF ok]) (simp add: Settle settle_run)
next
  case Sweep
  show ?thesis by (rule everywhere_same[OF ok]) (simp add: Sweep cleanup_run)
next
  case (Collect wu ru)
  show ?thesis by (rule everywhere_same[OF ok]) (simp add: Collect collectMetrics_tick_def running split: sum.split)
next
  case Restart
  then show ?thesis by (intro everywhere_same[OF ok] restarted_servers) simp
qed

end

section \<open>Properties\<close>

text \<open>
  C9: The queue never runs ahead of the ledger.  However requests on all routes, the stretches of
  creations and processings, deliveries, settlements, sweeps and collector rounds interleave, and
  whatever crashes and restarts cut them short: if at the start every message the broker holds has
  its row, so at the end has every message it then holds, waiting or unsettled.  The row is on the
  write server and has the message's transaction id, user and type, one of the three types, and the
  message's amount rounded to cents.  Relied on: the broker holds only what it was sent, an encoded
  message reads back with the same order, and the web framework's parts do not touch the stores.
\<close>

theorem every_message_has_its_row:
  assumes "framework_sound recovery metrics_page not_found" and "holds_only_sent (mq E)" and "reads_back (codec E)"
    and "\<And>s msg. mq_holds (mq E) (broker w) s \<Longrightarrow> dec_msg (codec E) s = Inr msg \<Longrightarrow>
      has_row (pg E) (servers w (Write (DB E))) msg"
    and "(flow_step E recovery metrics_page not_found)\<^sup>*\<^sup>* (w, {}) (w', C)"
    and "mq_holds (mq E) (broker w') s" and "dec_msg (codec E) s = Inr msg"
  shows "\<exists>r \<in> set (transactions (servers w' (Write (DB E)))).
    uuid_in (pg E) (msg_TransactionID msg) = Some (row_id r) \<and> uuid_in (pg E) (msg_UserID msg) = Some (row_user r) \<and>
    row_type r = msg_Type msg \<and> row_type r \<in> {''credit'', ''debit'', ''transfer''} \<and>
    row_amount r = round_cents (pq_float (pg E) (msg_Amount msg))"
proof -
  have "booked E (stores w')"
    by (rule flow_run_booked[OF assms(1) _ _ assms(5)])
      (use assms(2-4) in \<open>simp_all add: mail_laws_def booked_stores\<close>)
  then have "has_row (pg E) (servers w' (Write (DB E))) msg"
    using assms(6,7) by (simp add: booked_stores)
  then show ?thesis unfolding has_row_def type_check_def .
qed

text \<open>A creation, insert and finish as two steps, whose message is on the queue afterwards.\<close>

theorem every_message_has_its_row_witness:
  "let w1 = exec (create_insert sample_env sample_request ''2'' ''REF-20260101-2'') sample_world;
       w2 = exec (create_finish sample_env ''t'' sample_request [] ''2'' ''REF-20260101-2'') w1
   in mq_holds (mq sample_env) (broker w2) ''M2'' \<and>
     (\<exists>r \<in> set (transactions (servers w2 (''postgres'', ''5432''))).
        row_id r = 2 \<and> row_user r = 7 \<and> row_type r = ''debit'' \<and> row_amount r = 250)"
proof -
  let ?ref = "''REF-20260101-2''" and ?C = "{(''t'', sample_request, [], ''2'', ''REF-20260101-2'')} :: creation set"
  let ?w1 = "exec (create_insert sample_env sample_request ''2'' ?ref) sample_world"
  let ?w2 = "exec (create_finish sample_env ''t'' sample_request [] ''2'' ?ref) ?w1"
  have ins: "result (create_insert sample_env sample_request ''2'' ?ref) sample_world = Inr ()"
    using sample_cents by (simp add: create_insert_def running ExecuteWithCB_result sample_rows sql_insert_transaction_def sample_texts)
  have "flow_step sample_env (\<lambda>h. h) (page 200) (page 404) (sample_world, {}) (?w1, ?C)"
    by (rule flow_step.Inserted[OF ins])
  moreover have "flow_step sample_env (\<lambda>h. h) (page 200) (page 404) (?w1, ?C) (?w2, {})"
    using flow_step.Finish[of "''t''" sample_request "[]" "''2''" ?ref ?C sample_env] by simp
  ultimately have run: "(flow_step sample_env (\<lambda>h. h) (page 200) (page 404))\<^sup>*\<^sup>* (sample_world, {}) (?w2, {})"
    by (meson rtranclp.rtrancl_into_rtrancl rtranclp.rtrancl_refl)
  have held: "mq_holds (mq sample_env) (broker ?w2) ''M2''"
    by (simp add: create_finish_def running unchangedD[OF create_insert_frame(2)] sample_request_def)
  have empty: "\<not> mq_holds (mq sample_env) (broker sample_world) s" for s by simp
  have "round_cents (5 / 2) = 250" by (rule round_cents_int) simp
  then show ?thesis
    using every_message_has_its_row [OF sample_framework_sound _ _ _ run held, of "sample_msg\<lparr>msg_TransactionID := ''2''\<rparr>"]
      empty held sample_holds_only_sent sample_reads_back
    by (simp add: Let_def sample_msg_def) blast
qed

end
