(* ===== verification/Machine.thy ===== *)
theory Machine
  imports Flow
begin

text \<open>
  What the database as a whole promises: a ledger in which an entry is started, completed with the
  move of its own amount on its own user's balance, or booked together with that move, and no
  balance changes in any other way.  Every write of the program is one step of it, so every run of
  the server, crashes and restarts included, is a run of the abstract ledger.  That the consumer's
  writes are such steps rests on theory Flow: a message has its row.
\<close>

section \<open>The abstract ledger\<close>

record entry =
  entry_id :: uuid
  entry_user :: uuid
  entry_type :: string
  entry_amount :: cents
  entry_status :: txn_status

record ledger =
  balances :: "uuid \<Rightarrow> cents option"
  entries :: "entry list"

definition entry_of :: "txn_row \<Rightarrow> entry" where
  "entry_of r = \<lparr>entry_id = row_id r, entry_user = row_user r, entry_type = row_type r,
     entry_amount = row_amount r, entry_status = row_status r\<rparr>"

definition ledger_of :: "tables \<Rightarrow> ledger" where
  "ledger_of tb = \<lparr>balances = balance_at tb, entries = map entry_of (transactions tb)\<rparr>"

text \<open>A move of an amount: nothing for an unknown user, an error when the column overflows.\<close>

definition moved :: "(uuid \<Rightarrow> cents option) \<Rightarrow> uuid \<Rightarrow> rat \<Rightarrow> (uuid \<Rightarrow> cents option) option" where
  "moved B u x =
     (case B u of
        None \<Rightarrow> Some B
      | Some b \<Rightarrow> let c = round_cents (of_int b / 100 + x) in if fits_18_2 c then Some (B(u \<mapsto> c)) else None)"

definition restatus :: "uuid \<Rightarrow> txn_status \<Rightarrow> entry list \<Rightarrow> entry list" where
  "restatus i st es = map (\<lambda>e. if entry_id e = i then e\<lparr>entry_status := st\<rparr> else e) es"

definition acceptable :: "ledger \<Rightarrow> entry \<Rightarrow> bool" where
  "acceptable L e \<longleftrightarrow> entry_type e \<in> {''credit'', ''debit'', ''transfer''} \<and> 0 < entry_amount e \<and>
     fits_18_2 (entry_amount e) \<and> balances L (entry_user e) \<noteq> None"

definition signed_amount :: "string \<Rightarrow> rat \<Rightarrow> rat" where
  "signed_amount ty x = (if ty = ''credit'' then x else - x)"

text \<open>
  The only changes: a pending entry for a known user; an entry of the ledger started; an entry of
  the ledger completed together with the move of its signed amount on its user, in one step; a
  completed entry recorded together with such a move, in one step.  The amount moved may have more
  decimals than the entry, whose amount it rounds to.  That an entry is completed once is not
  promised (a message can be processed twice).
\<close>

inductive ledger_step :: "ledger \<Rightarrow> ledger \<Rightarrow> bool" where
  Accept: "acceptable L e \<Longrightarrow> entry_status e = Pending \<Longrightarrow> ledger_step L (L\<lparr>entries := entries L @ [e]\<rparr>)"
| Start: "e \<in> set (entries L) \<Longrightarrow> ledger_step L (L\<lparr>entries := restatus (entry_id e) Processing (entries L)\<rparr>)"
| Complete: "e \<in> set (entries L) \<Longrightarrow> entry_amount e = round_cents x \<Longrightarrow>
    moved (balances L) (entry_user e) (signed_amount (entry_type e) x) = Some B \<Longrightarrow>
    ledger_step L \<lparr>balances = B, entries = restatus (entry_id e) Completed (entries L)\<rparr>"
| Book: "acceptable L e \<Longrightarrow> entry_status e = Completed \<Longrightarrow> entry_amount e = round_cents x \<Longrightarrow>
    moved (balances L) (entry_user e) (signed_amount (entry_type e) x) = Some B \<Longrightarrow>
    ledger_step L \<lparr>balances = B, entries = entries L @ [e]\<rparr>"

inductive_cases ledger_stepE: "ledger_step L L'"

section \<open>Every write is a step of the abstract ledger\<close>

lemma entry_of_mark: "entry_of (mark st t r) = (entry_of r)\<lparr>entry_status := st\<rparr>"
  by (simp add: entry_of_def mark_def)

lemma ledger_of_set_status:
  "sql_set_status P st tid t tb = Inr tb' \<Longrightarrow>
     \<exists>i. uuid_in P tid = Some i \<and> ledger_of tb' = (ledger_of tb)\<lparr>entries := restatus i st (entries (ledger_of tb))\<rparr>"
  by (elim set_status_Inr)
    (auto simp: ledger_of_def restatus_def balance_at_def fun_eq_iff comp_def entry_of_mark, auto simp: entry_of_def)

lemma ledger_of_insert:
  assumes "sql_insert_transaction P st tid uid ty amt ref desc t tb = Inr tb'"
  shows "\<exists>e. acceptable (ledger_of tb) e \<and> entry_status e = st \<and> entry_type e = ty \<and>
    entry_amount e = round_cents (pq_float P amt) \<and> uuid_in P uid = Some (entry_user e) \<and>
    ledger_of tb' = (ledger_of tb)\<lparr>entries := entries (ledger_of tb) @ [e]\<rparr>"
  using assms
  by (auto simp: sql_insert_transaction_def ledger_of_def acceptable_def entry_of_def balance_at_def fun_eq_iff
      numeric_18_2_def type_check_def Let_def split: option.splits sum.splits if_splits)

lemma ledger_of_move:
  assumes "sql_move_balance P dir amt uid t tb = Inr tb'"
  shows "\<exists>u B. uuid_in P uid = Some u \<and> moved (balances (ledger_of tb)) u (apply_direction dir (pq_float P amt)) = Some B \<and>
    ledger_of tb' = (ledger_of tb)\<lparr>balances := B\<rparr>"
  using assms
proof (cases rule: move_balance_Inr)
  case (absent u)
  then show ?thesis by (simp add: ledger_of_def moved_def balance_at_def)
next
  case (present u r c)
  then show ?thesis
    by (intro exI[of _ u] exI[of _ "(balance_at tb)(u \<mapsto> c)"]) (auto simp: ledger_of_def moved_def balance_at_def fun_eq_iff)
qed

lemma has_row_entry:
  assumes "has_row P tb msg"
  obtains e where "e \<in> set (entries (ledger_of tb))" and "uuid_in P (msg_TransactionID msg) = Some (entry_id e)"
    and "uuid_in P (msg_UserID msg) = Some (entry_user e)" and "entry_type e = msg_Type msg"
    and "entry_type e \<in> {''credit'', ''debit'', ''transfer''}"
    and "entry_amount e = round_cents (pq_float P (msg_Amount msg))"
proof -
  from assms obtain r where r: "r \<in> set (transactions tb)" "uuid_in P (msg_TransactionID msg) = Some (row_id r)"
    "uuid_in P (msg_UserID msg) = Some (row_user r)" "row_type r = msg_Type msg" "type_check (row_type r)"
    "row_amount r = round_cents (pq_float P (msg_Amount msg))"
    unfolding has_row_def by blast
  have "entry_of r \<in> set (entries (ledger_of tb))" using r(1) by (simp add: ledger_of_def)
  then show thesis
    by (rule that) (use r in \<open>simp_all add: entry_of_def type_check_def\<close>)
qed

lemma ledger_of_start:
  assumes "has_row P tb msg" and "sql_set_status P Processing (msg_TransactionID msg) t tb = Inr tb'"
  shows "ledger_step (ledger_of tb) (ledger_of tb')"
proof -
  from assms(1) obtain e where e: "e \<in> set (entries (ledger_of tb))" "uuid_in P (msg_TransactionID msg) = Some (entry_id e)"
    by (rule has_row_entry)
  from ledger_of_set_status[OF assms(2)] e(2) show ?thesis
    using ledger_step.Start[OF e(1)] by auto
qed

lemma ledger_of_post:
  assumes row: "has_row P tb msg" and post: "post P msg t tb = Inr tb'"
  shows "ledger_step (ledger_of tb) (ledger_of tb')"
proof -
  from row obtain e where e: "e \<in> set (entries (ledger_of tb))" "uuid_in P (msg_TransactionID msg) = Some (entry_id e)"
    "uuid_in P (msg_UserID msg) = Some (entry_user e)" "entry_type e = msg_Type msg"
    "entry_type e \<in> {''credit'', ''debit'', ''transfer''}" "entry_amount e = round_cents (pq_float P (msg_Amount msg))"
    by (rule has_row_entry)
  from post obtain tb1 where tb1: "sql_set_status P Completed (msg_TransactionID msg) t tb = Inr tb1"
    by (auto simp: post_def split: sum.splits)
  from ledger_of_set_status[OF this] e(2) have
    i: "ledger_of tb1 = (ledger_of tb)\<lparr>entries := restatus (entry_id e) Completed (entries (ledger_of tb))\<rparr>" by auto
  from e(4,5) obtain dir where dir: "balance_query (msg_Type msg) = Some dir"
    "apply_direction dir (pq_float P (msg_Amount msg)) = signed_amount (entry_type e) (pq_float P (msg_Amount msg))"
    by (auto simp: balance_query_def signed_amount_def)
  then have "sql_move_balance P dir (msg_Amount msg) (msg_UserID msg) t tb1 = Inr tb'"
    using post tb1 by (simp add: post_def)
  from ledger_of_move[OF this] e(3) dir(2) i obtain B where
    "moved (balances (ledger_of tb)) (entry_user e) (signed_amount (entry_type e) (pq_float P (msg_Amount msg))) = Some B"
    "ledger_of tb' = \<lparr>balances = B, entries = restatus (entry_id e) Completed (entries (ledger_of tb))\<rparr>" by auto
  then show ?thesis using ledger_step.Complete[OF e(1,6)] by simp
qed

lemma ledger_of_v0_post:
  assumes "v0_post P req tid ref t tb = Inr tb'"
  shows "ledger_step (ledger_of tb) (ledger_of tb')"
proof -
  from assms obtain tb1 where tb1: "sql_insert_transaction P Completed tid (req_UserID req) (req_Type req) (req_Amount req)
      ref (req_Description req) t tb = Inr tb1"
    by (auto simp: v0_post_def split: sum.splits)
  from ledger_of_insert[OF this] obtain e where
    e: "acceptable (ledger_of tb) e" "entry_status e = Completed" "entry_type e = req_Type req"
      "entry_amount e = round_cents (pq_float P (req_Amount req))" "uuid_in P (req_UserID req) = Some (entry_user e)"
    and tb1e: "ledger_of tb1 = (ledger_of tb)\<lparr>entries := entries (ledger_of tb) @ [e]\<rparr>" by blast
  from e(1,3) obtain dir where dir: "v0_balance_query (req_Type req) = Some dir"
    "apply_direction dir (pq_float P (req_Amount req)) = signed_amount (entry_type e) (pq_float P (req_Amount req))"
    by (auto simp: acceptable_def v0_balance_query_def signed_amount_def)
  then have "sql_move_balance P dir (req_Amount req) (req_UserID req) t tb1 = Inr tb'"
    using assms tb1 by (simp add: v0_post_def)
  from ledger_of_move[OF this] e(5) dir(2) tb1e obtain B where
    "moved (balances (ledger_of tb)) (entry_user e) (signed_amount (entry_type e) (pq_float P (req_Amount req))) = Some B"
    "ledger_of tb' = \<lparr>balances = B, entries = entries (ledger_of tb) @ [e]\<rparr>" by auto
  then show ?thesis using ledger_step.Book[OF e(1,2,4)] by simp
qed

section \<open>The simulation\<close>

definition follows :: "tables \<Rightarrow> tables \<Rightarrow> bool" where
  "follows tb0 tb \<longleftrightarrow> ledger_step\<^sup>*\<^sup>* (ledger_of tb0) (ledger_of tb)"

lemma follows_step: "follows tb0 tb \<Longrightarrow> ledger_step (ledger_of tb) (ledger_of tb') \<Longrightarrow> follows tb0 tb'"
  unfolding follows_def by (rule rtranclp.rtrancl_into_rtrancl)

lemma has_row_status:
  assumes "has_row P tb msg" and "sql_set_status P st tid t tb = Inr tb'"
  shows "has_row P tb' msg"
  using assms status_core.keeps[OF refl assms(2)] by (simp only: has_row_core)

interpretation machine: message_invariant E "\<lambda>ep. follows (base ep)" "has_row (pg E)"
  for E :: "('r, 'q, 'b, 'l) env" and base
proof
  fix ep tb tid uid ty amt ref desc t tb'
  assume "follows (base ep) tb" and ins: "sql_insert_transaction (pg E) Pending tid uid ty amt ref desc t tb = Inr tb'"
  from ledger_of_insert[OF ins] have "ledger_step (ledger_of tb) (ledger_of tb')"
    by (auto intro: ledger_step.Accept)
  with \<open>follows (base ep) tb\<close> show "follows (base ep) tb'" by (rule follows_step)
next
  fix ep tb req tid ref t tb'
  assume "follows (base ep) tb" and "v0_post (pg E) req tid ref t tb = Inr tb'"
  then show "follows (base ep) tb'" by (blast intro: follows_step ledger_of_v0_post)
next
  fix ep tb msg t tb'
  assume "follows (base ep) tb" and "has_row (pg E) tb msg"
    and "sql_set_status (pg E) Processing (msg_TransactionID msg) t tb = Inr tb'"
  then show "follows (base ep) tb' \<and> has_row (pg E) tb' msg"
    by (blast intro: follows_step ledger_of_start has_row_status)
next
  fix ep tb msg t tb'
  assume "follows (base ep) tb" and "has_row (pg E) tb msg" and "post (pg E) msg t tb = Inr tb'"
  then show "follows (base ep) tb'" by (blast intro: follows_step ledger_of_post)
qed

text \<open>The tables follow the ledger, and what the broker and the creations under way carry has its row.\<close>

definition simulates ::
  "('r, 'q, 'b, 'l) env \<Rightarrow> (endpoint \<Rightarrow> tables) \<Rightarrow> ('r, 'q, 'b, 'l) world \<times> creation set \<Rightarrow> bool" where
  "simulates E base = (\<lambda>(w, C). everywhere (\<lambda>ep. follows (base ep)) w \<and> booked E (stores w) \<and> in_flight_booked E w C)"

interpretation machine_system: step_system "simulates E base" "flow_step E recovery metrics_page not_found"
    "\<lambda>s. framework_sound recovery metrics_page not_found \<and> mail_laws E \<longrightarrow> simulates E base s"
  for E :: "('r, 'q, 'b, 'l) env" and base recovery metrics_page not_found
proof
  fix s t :: "('r, 'q, 'b, 'l) world \<times> creation set"
  assume inv: "framework_sound recovery metrics_page not_found \<and> mail_laws E \<longrightarrow> simulates E base s"
    and step: "flow_step E recovery metrics_page not_found s t"
  obtain w C w' C' where st: "s = (w, C)" "t = (w', C')" by fastforce
  have "simulates E base t" if fw: "framework_sound recovery metrics_page not_found" and laws: "mail_laws E"
  proof -
    have before: "everywhere (\<lambda>ep. follows (base ep)) w" "booked E (stores w)" "in_flight_booked E w C"
      using inv fw laws by (simp_all add: simulates_def st)
    have "everywhere (\<lambda>ep. follows (base ep)) w'"
      by (rule machine.flow_keeps[OF step[unfolded st] framework_sound_ok[OF fw] before(1)])
        (use before(2) in \<open>simp add: booked_stores\<close>)
    then show ?thesis
      using flow_booked[OF step[unfolded st] fw laws before(2,3)] by (simp add: simulates_def st)
  qed
  then show "framework_sound recovery metrics_page not_found \<and> mail_laws E \<longrightarrow> simulates E base t" by blast
qed blast

text \<open>Rows with the status \<open>failed\<close>: no statement of the program writes one.\<close>

definition unfailed_on :: "endpoint \<Rightarrow> endpoint \<Rightarrow> tables \<Rightarrow> bool" where
  "unfailed_on ep ep' tb \<longleftrightarrow> ep' = ep \<longrightarrow> Failed \<notin> row_status ` set (transactions tb)"

lemma unfailed_insert:
  "unfailed_on ep ep' tb \<Longrightarrow> st \<noteq> Failed \<Longrightarrow>
     sql_insert_transaction P st tid uid ty amt ref desc t tb = Inr tb' \<Longrightarrow> unfailed_on ep ep' tb'"
  by (elim insert_Inr) (auto simp: unfailed_on_def)

lemma unfailed_status:
  "unfailed_on ep ep' tb \<Longrightarrow> st \<noteq> Failed \<Longrightarrow> sql_set_status P st tid t tb = Inr tb' \<Longrightarrow> unfailed_on ep ep' tb'"
  by (elim set_status_Inr) (auto simp: unfailed_on_def mark_def)

lemma unfailed_move:
  "unfailed_on ep ep' tb \<Longrightarrow> sql_move_balance P dir amt uid t tb = Inr tb' \<Longrightarrow> unfailed_on ep ep' tb'"
  by (auto simp: unfailed_on_def elim!: move_balance_Inr)

interpretation unfailed: ledger_invariant E "unfailed_on ep"
  for E :: "('r, 'q, 'b, 'l) env" and ep
proof
  fix ep' tb msg t tb'
  assume "unfailed_on ep ep' tb" and "post (pg E) msg t tb = Inr tb'"
  then show "unfailed_on ep ep' tb'"
    by (auto simp: post_def split: sum.splits option.splits dest: unfailed_status unfailed_move)
next
  fix ep' tb req tid ref t tb'
  assume "unfailed_on ep ep' tb" and "v0_post (pg E) req tid ref t tb = Inr tb'"
  then show "unfailed_on ep ep' tb'"
    by (auto simp: v0_post_def split: sum.splits option.splits dest: unfailed_insert unfailed_move)
qed (auto dest: unfailed_insert unfailed_status)

interpretation unfailed_system: step_system "everywhere (unfailed_on ep)" "life_step E recovery metrics_page not_found"
    "\<lambda>w. framework_ok (unfailed_on ep) recovery metrics_page not_found \<longrightarrow> everywhere (unfailed_on ep) w"
  for E :: "('r, 'q, 'b, 'l) env" and ep recovery metrics_page not_found
  by unfold_locales (blast intro: unfailed.life_keeps)+

section \<open>Properties\<close>

text \<open>
  C8: The server implements the abstract ledger.  On each database server, whatever requests,
  stretches of creations and processings, deliveries, sweeps, crashes and restarts make up a run,
  the entries and balances at its end are reached from those at its start by steps of four kinds:
  accept a pending entry with a positive amount for a known user; start an entry of the ledger;
  complete an entry of the ledger and move its own user's balance by its signed amount in one
  step; book a completed entry and do the same in one step.  So no balance changes but by the
  signed amount of an entry on the entry's user, and none leaves its column's range.  Relied on: as
  in theory Flow, and that every message the broker holds at the start has its row.
\<close>

theorem server_refines_ledger:
  assumes "framework_sound recovery metrics_page not_found" and "holds_only_sent (mq E)" and "reads_back (codec E)"
    and "\<And>s msg. mq_holds (mq E) (broker w) s \<Longrightarrow> dec_msg (codec E) s = Inr msg \<Longrightarrow>
      has_row (pg E) (servers w (Write (DB E))) msg"
    and "(flow_step E recovery metrics_page not_found)\<^sup>*\<^sup>* (w, {}) (w', C)"
  shows "ledger_step\<^sup>*\<^sup>* (ledger_of (servers w ep)) (ledger_of (servers w' ep))"
proof -
  have "simulates E (servers w) (w, {})"
    using assms(4) by (simp add: simulates_def everywhere_def follows_def booked_stores in_flight_booked_def)
  from machine_system.reachable_inv[OF this assms(5)] have "everywhere (\<lambda>ep. follows (servers w ep)) w'"
    using assms(1-3) by (simp add: mail_laws_def simulates_def)
  from everywhereD[OF this] show ?thesis unfolding follows_def .
qed

text \<open>The message of the sample row is delivered.\<close>

theorem server_refines_ledger_witness:
  "let w = sample_world\<lparr>broker := [([], \<lparr>pub_ContentType = [], pub_DeliveryMode = 2, pub_MessageId = ''1'', pub_Timestamp = 0, pub_Body = ''M''\<rparr>)]\<rparr>
   in ledger_step\<^sup>*\<^sup>* (ledger_of sample_tables)
     (ledger_of (servers (exec (consume_one sample_env (processTransaction sample_env) \<lparr>dl_tag = 1, dl_body = ''M''\<rparr>) w)
       (''postgres'', ''5432'')))"
proof -
  let ?w = "sample_world\<lparr>broker := [([], \<lparr>pub_ContentType = [], pub_DeliveryMode = 2, pub_MessageId = ''1'', pub_Timestamp = 0, pub_Body = ''M''\<rparr>)]\<rparr>"
  let ?d = "\<lparr>dl_tag = 1, dl_body = ''M''\<rparr>"
  have "(flow_step sample_env (\<lambda>h. h) (page 200) (page 404))\<^sup>*\<^sup>* (?w, {})
      (exec (consume_one sample_env (processTransaction sample_env) ?d) ?w, {})"
    by (intro r_into_rtranclp flow_step.Delivery) simp
  note run = server_refines_ledger [OF sample_framework_sound _ _ _ this, of "(''postgres'', ''5432'')"]
  have "round_cents (5 / 2) = 250" by (rule round_cents_int) simp
  then have "has_row (pg sample_env) sample_tables sample_msg"
    by (simp add: has_row_def sample_rows type_check_def)
  then have held: "has_row (pg sample_env) (servers ?w (Write (DB sample_env))) msg"
    if "mq_holds (mq sample_env) (broker ?w) s" "dec_msg (codec sample_env) s = Inr msg" for s msg
    using that by auto
  show ?thesis
    using run[OF _ _ held] sample_holds_only_sent sample_reads_back by (simp add: Let_def)
qed

text \<open>
  C16: Nothing ever fails.  The schema knows a status \<open>failed\<close>, but from a database without such a
  row no run of the server reaches one with it: a transaction whose processing errs stays pending
  or processing.
\<close>

theorem failed_never_written:
  assumes "framework_ok (unfailed_on ep) recovery metrics_page not_found"
    and "(life_step E recovery metrics_page not_found)\<^sup>*\<^sup>* w w'"
    and "Failed \<notin> row_status ` set (transactions (servers w ep))"
  shows "Failed \<notin> row_status ` set (transactions (servers w' ep))"
proof -
  have "everywhere (unfailed_on ep) w" using assms(3) by (simp add: everywhere_def unfailed_on_def)
  from unfailed_system.reachable_inv[OF this assms(2)] assms(1) have "everywhere (unfailed_on ep) w'" by blast
  from everywhereD[OF this, of ep] show ?thesis by (simp add: unfailed_on_def)
qed

theorem failed_never_written_witness:
  "Failed \<notin> row_status ` set (transactions (servers (exec (serve sample_env (\<lambda>h. h) (page 200) (page 404) sample_ctx) sample_world)
     (''postgres'', ''5432'')))"
proof (rule failed_never_written [OF sample_framework])
  show "(life_step sample_env (\<lambda>h. h) (page 200) (page 404))\<^sup>*\<^sup>* sample_world
      (exec (serve sample_env (\<lambda>h. h) (page 200) (page 404) sample_ctx) sample_world)"
    by (intro r_into_rtranclp life_step.Work app_step.Request)
  show "Failed \<notin> row_status ` set (transactions (servers sample_world (''postgres'', ''5432'')))"
    by (simp add: sample_tables_def sample_row_def)
qed

end
