(* ===== verification/Outage.thy ===== *)
theory Outage
  imports Server
begin

text \<open>
  What repeated requests for an id that does not exist do to the rest of the API.  The read through
  the cache reports \<open>sql.ErrNoRows\<close> to the breaker as a failure (user.go and transaction.go), the
  middleware refuses every API route while the breaker is open (circuitbreaker.go): one such
  request is followed through its route, n of them by induction, and the answer of any API route
  afterwards is read off the gate.  Of the breaker library the documented counting of failures is
  used, as the law \<open>counts_failures\<close>.
\<close>

section \<open>What is documented of the breaker\<close>

text \<open>
  Documented behaviour of gobreaker, for a breaker with settings S and up to a time H at which its
  current interval ends: \<open>live b k\<close> says that it is closed with k consecutive failures, \<open>opened b t\<close>
  that it opened at time t.  A closed breaker admits calls; a failed call adds one failure and
  opens the breaker exactly when \<open>ReadyToTrip\<close> holds of the new counts; an open breaker stays open
  for the timeout.
\<close>

definition counts_failures ::
  "'b breaker_lib \<Rightarrow> Settings \<Rightarrow> time \<Rightarrow> ('b \<Rightarrow> nat \<Rightarrow> bool) \<Rightarrow> ('b \<Rightarrow> time \<Rightarrow> bool) \<Rightarrow> bool" where
  "counts_failures B S H live opened \<longleftrightarrow>
     (\<forall>t b k. t < H \<and> live b k \<longrightarrow>
        fst (cb_state B t b) = StateClosed \<and> live (snd (snd (cb_state B t b))) k) \<and>
     (\<forall>t b k. t < H \<and> live b k \<longrightarrow>
        (\<exists>gen chs b'. cb_allow B t b = (Inr gen, chs, b') \<and>
           (\<forall>t' < H. \<exists>n. ConsecutiveFailures n = of_nat (Suc k) \<and>
              (if set_ReadyToTrip S n then opened (snd (cb_done B t' gen False b')) t'
               else live (snd (cb_done B t' gen False b')) (Suc k))))) \<and>
     (\<forall>t t' b. opened b t \<and> t \<le> t' \<and> t' < t + sint (set_Timeout S) \<longrightarrow> fst (cb_state B t' b) = StateOpen)"

section \<open>Requests for an id that does not exist\<close>

lemma missing_row_run:
  assumes "param_id c \<noteq> []"
    and "rd_get (rds E) (TransactionKey (param_id c)) (clock E (ticks w)) (redis w) = (RedisNil, r)"
    and "cb_allow (cb E) (clock E (Suc (ticks w))) (dbCircuitBreaker w) = (Inr gen, chs, b)"
    and "pg_fate (pg E) (n_pg w) = Answered"
    and "sql_select_transaction (pg E) (param_id c) (servers w (Read (DB E))) = Inl ErrNoRows"
  shows "code (result (GetTransaction E c) w) = 404 \<and>
    dbCircuitBreaker (exec (GetTransaction E c) w) = snd (cb_done (cb E) (clock E (Suc (Suc (ticks w)))) gen False b) \<and>
    servers (exec (GetTransaction E c) w) = servers w \<and> redis (exec (GetTransaction E c) w) = r \<and>
    ticks (exec (GetTransaction E c) w) = ticks w + 3"
proof -
  let ?w = "missed ''transaction'' (misses (Inr None :: cache_error + TransactionResponse option))
    (exec (cache_Get E (dec_txn (codec E)) (TransactionKey (param_id c))) w)"
  have miss: "result (cache_Get E (dec_txn (codec E)) (TransactionKey (param_id c))) w = Inr None"
    using assms(2) by (simp add: running)
  have q: "result (ExecuteWithCB E (queryTransaction E (param_id c))) ?w = Inl (Failure ErrNoRows)"
    using assms(3-5) by (simp add: ExecuteWithCB_result queryTransaction_run running)
  have "code (result (GetTransaction E c) w) = 404"
    and run: "exec (GetTransaction E c) w = exec (ExecuteWithCB E (queryTransaction E (param_id c))) ?w"
    using transaction_read.failed[OF assms(1) miss _ refl q] by simp_all
  then show ?thesis
    using assms(2-5) by (simp add: run ExecuteWithCB_exec queryTransaction_run running)
qed

text \<open>One such request on its route, while the breaker is closed with k failures.\<close>

abbreviation lookup :: "gin_ctx \<Rightarrow> bool" where
  "lookup c \<equiv> req_method c = ''GET'' \<and> full_path c = ''/transactions/:id'' \<and> param_id c \<noteq> []"

definition unknown_id :: "('r, 'q, 'b, 'l) env \<Rightarrow> gin_ctx \<Rightarrow> ('r, 'q, 'b, 'l) world \<Rightarrow> bool" where
  "unknown_id E c w \<longleftrightarrow>
     sql_select_transaction (pg E) (param_id c) (servers w (Read (DB E))) = Inl ErrNoRows \<and>
     (\<forall>t. rd_get (rds E) (TransactionKey (param_id c)) t (redis w) = (RedisNil, redis w))"

lemma unknown_request:
  fixes E :: "('r, 'q, 'b, 'l) env" and w :: "('r, 'q, 'b, 'l) world" and c :: gin_ctx and mp nf
  defines "w' \<equiv> exec (dispatch E mp nf c) w"
  assumes law: "counts_failures (cb E) S H live opened" and env: "getenv E ''ENV'' \<noteq> ''test''"
    and c: "lookup c" "unknown_id E c w" and up: "\<And>n. pg_fate (pg E) n = Answered"
    and k: "live (dbCircuitBreaker w) k"
    and H: "\<And>i. i < 4 \<Longrightarrow> clock E (ticks w + i) < H"
  shows "code (result (dispatch E mp nf c) w) = 404 \<and> unknown_id E c w' \<and> ticks w' = ticks w + 4 \<and>
    (\<exists>n. ConsecutiveFailures n = of_nat (Suc k) \<and>
       (if set_ReadyToTrip S n then opened (dbCircuitBreaker w') (clock E (ticks w + 3)) else live (dbCircuitBreaker w') (Suc k)))"
proof -
  have t: "clock E (ticks w) < H" "clock E (Suc (Suc (ticks w))) < H" "clock E (Suc (Suc (Suc (ticks w)))) < H"
    using H[of 0] H[of 2] H[of 3] by (simp_all add: numeral_eq_Suc)
  let ?v = "exec (breaker_entry E c) w"
  have ask: "fst (cb_state (cb E) (clock E (ticks w)) (dbCircuitBreaker w)) = StateClosed"
    "live (snd (snd (cb_state (cb E) (clock E (ticks w)) (dbCircuitBreaker w)))) k"
    using law k t(1) unfolding counts_failures_def by blast+
  then have pass: "breaker_passes E c w" by (simp add: breaker_passes_def)
  have v: "ticks ?v = Suc (ticks w)" "servers ?v = servers w" "redis ?v = redis w" "live (dbCircuitBreaker ?v) k"
    using env ask(2) by (simp_all add: breaker_entry_def breaker_State_run)
  then obtain gen chs b where allow: "cb_allow (cb E) (clock E (Suc (Suc (ticks w)))) (dbCircuitBreaker ?v) = (Inr gen, chs, b)"
    and after: "\<forall>t' < H. \<exists>n. ConsecutiveFailures n = of_nat (Suc k) \<and>
      (if set_ReadyToTrip S n then opened (snd (cb_done (cb E) t' gen False b)) t'
       else live (snd (cb_done (cb E) t' gen False b)) (Suc k))"
    using law t(2) unfolding counts_failures_def by blast
  have "dispatch E mp nf c = CircuitBreakerMiddleware E (GetTransaction E) c"
    using c(1) by (simp add: dispatch_def routes_def)
  then have run: "result (dispatch E mp nf c) w = result (GetTransaction E c) ?v" "w' = exec (GetTransaction E c) ?v"
    using breaker_gate.let_through[OF pass, of "GetTransaction E"] by (simp_all add: w'_def)
  have "rd_get (rds E) (TransactionKey (param_id c)) (clock E (ticks ?v)) (redis ?v) = (RedisNil, redis w)"
    and "sql_select_transaction (pg E) (param_id c) (servers ?v (Read (DB E))) = Inl ErrNoRows"
    using c(2) v by (simp_all add: unknown_id_def)
  from missing_row_run[OF _ this(1) _ up this(2)] allow c(1) v(1)
  have after_run: "code (result (GetTransaction E c) ?v) = 404"
    "dbCircuitBreaker w' = snd (cb_done (cb E) (clock E (Suc (Suc (Suc (ticks w))))) gen False b)"
    "servers w' = servers w" "redis w' = redis w" "ticks w' = ticks w + 4"
    using run v(2) by simp_all
  have three: "ticks w + 3 = Suc (Suc (Suc (ticks w)))" by simp
  show ?thesis
    unfolding three after_run(2) using run(1) after[rule_format, OF t(3)] c(2) after_run
    by (simp add: unknown_id_def del: of_nat_Suc)
qed

lemma trips_exactly:
  assumes "sint (failure_threshold os) = int n" and "n < 2 ^ 32" and "ConsecutiveFailures cs = of_nat (Suc k)" and "k < n"
  shows "set_ReadyToTrip (breaker_settings os name) cs \<longleftrightarrow> Suc k = n"
proof -
  have "uint (of_nat (Suc k) :: 32 word) = int (Suc k)"
    using assms(2,4) by (simp add: unsigned_of_nat take_bit_nat_eq_self del: of_nat_Suc)
  then show ?thesis
    using assms by (auto simp: breaker_settings_def ready_to_trip_def sint_ucast_counts)
qed

lemma unknown_requests:
  fixes E :: "('r, 'q, 'b, 'l) env" and mp nf :: "('r, 'q, 'b, 'l) handler" and c :: gin_ctx and xs :: "unit list"
  assumes law: "counts_failures (cb E) (breaker_settings (getenv E) ''database'') H live opened"
    and env: "getenv E ''ENV'' \<noteq> ''test''" and up: "\<And>n. pg_fate (pg E) n = Answered" and c: "lookup c"
    and n: "sint (failure_threshold (getenv E)) = int n" "n < 2 ^ 32"
    and k: "k + length xs = n" "live (dbCircuitBreaker w) k" and unk: "unknown_id E c w"
    and H: "\<And>i. i < 4 * length xs \<Longrightarrow> clock E (ticks w + i) < H" and some: "xs \<noteq> []"
  defines "m \<equiv> each (\<lambda>_. dispatch E mp nf c) xs"
  shows "map code (result m w) = replicate (length xs) 404 \<and> ticks (exec m w) = ticks w + 4 * length xs \<and>
    opened (dbCircuitBreaker (exec m w)) (clock E (ticks w + 4 * length xs - 1))"
  using k unk H some unfolding m_def
proof (induction xs arbitrary: w k)
  case (Cons x xs)
  let ?w = "exec (dispatch E mp nf c) w"
  have H4: "clock E (ticks w + i) < H" if "i < 4" for i
    using that by (intro Cons.prems(4)) simp
  from unknown_request[OF law env c Cons.prems(3) up Cons.prems(2) H4]
  have one: "code (result (dispatch E mp nf c) w) = 404" "unknown_id E c ?w" "ticks ?w = ticks w + 4"
    and after: "\<exists>cs. ConsecutiveFailures cs = of_nat (Suc k) \<and>
       (if set_ReadyToTrip (breaker_settings (getenv E) ''database'') cs
        then opened (dbCircuitBreaker ?w) (clock E (ticks w + 3)) else live (dbCircuitBreaker ?w) (Suc k))"
    by blast+
  have "k < n" using Cons.prems(1) by simp
  with after trips_exactly[OF n] have
    step: "if Suc k = n then opened (dbCircuitBreaker ?w) (clock E (ticks w + 3)) else live (dbCircuitBreaker ?w) (Suc k)"
    by auto
  show ?case
  proof (cases xs)
    case Nil
    then show ?thesis using one step Cons.prems(1) by (simp add: add.commute)
  next
    case (Cons y ys)
    then have "live (dbCircuitBreaker ?w) (Suc k)" using step Cons.prems(1) by auto
    moreover have "clock E (ticks ?w + i) < H" if "i < 4 * length xs" for i
      using Cons.prems(4)[of "4 + i"] that one(3) by (simp add: add.assoc)
    ultimately have "map code (result (each (\<lambda>_. dispatch E mp nf c) xs) ?w) = replicate (length xs) 404 \<and>
      ticks (exec (each (\<lambda>_. dispatch E mp nf c) xs) ?w) = ticks ?w + 4 * length xs \<and>
      opened (dbCircuitBreaker (exec (each (\<lambda>_. dispatch E mp nf c) xs) ?w)) (clock E (ticks ?w + 4 * length xs - 1))"
      using Cons.IH[of "Suc k" ?w] Cons.prems(1) one(2) Cons by simp
    then show ?thesis using one by simp
  qed
qed simp

section \<open>The sample breaker counts failures\<close>

definition sample_live :: "sample_breaker \<Rightarrow> nat \<Rightarrow> bool" where
  "sample_live b k \<longleftrightarrow> sb_open_until b = None \<and> sb_failures b = k \<and> sb_settings b = breaker_settings sample_os ''database''"

definition sample_opened :: "sample_breaker \<Rightarrow> time \<Rightarrow> bool" where
  "sample_opened b t \<longleftrightarrow> sb_open_until b = Some (t + sint (set_Timeout (breaker_settings sample_os ''database'')))"

lemma sample_failure:
  assumes "sample_live b k"
  shows "\<exists>n. ConsecutiveFailures n = of_nat (Suc k) \<and>
    (if set_ReadyToTrip (breaker_settings sample_os ''database'') n
     then sample_opened (snd (cb_done (cb sample_env) t g False b)) t
     else sample_live (snd (cb_done (cb sample_env) t g False b)) (Suc k))"
  using assms
  by (intro exI[of _ "sb_counts (Suc k)"])
    (auto simp: sample_live_def sample_opened_def sample_breaker_lib_def sb_counts_def)

lemma sample_counts_failures:
  "counts_failures (cb sample_env) (breaker_settings sample_os ''database'') H sample_live sample_opened"
  unfolding counts_failures_def
proof (intro conjI allI impI)
  fix t b k
  assume "t < H \<and> sample_live b k"
  then have k: "sample_live b k" and none: "sb_open_until b = None" by (simp_all add: sample_live_def)
  show "fst (cb_state (cb sample_env) t b) = StateClosed" "sample_live (snd (snd (cb_state (cb sample_env) t b))) k"
    using k none by simp_all
  show "\<exists>gen chs b'. cb_allow (cb sample_env) t b = (Inr gen, chs, b') \<and>
    (\<forall>t' < H. \<exists>n. ConsecutiveFailures n = of_nat (Suc k) \<and>
      (if set_ReadyToTrip (breaker_settings sample_os ''database'') n
       then sample_opened (snd (cb_done (cb sample_env) t' gen False b')) t'
       else sample_live (snd (cb_done (cb sample_env) t' gen False b')) (Suc k)))"
  proof -
    have "cb_allow (cb sample_env) t b = (Inr 0, [], b)" using none by simp
    then show ?thesis using sample_failure[OF k] by blast
  qed
qed (simp add: sample_opened_def sample_breaker_lib_def)

lemma sample_timeout: "sint (set_Timeout (breaker_settings sample_os ''database'')) = 30000000000"
proof -
  have "sint (atoi_word (middleware_getEnv sample_os ''CB_TIMEOUT_SECONDS'' ''30'')) = 30"
    by (simp add: getEnv_copies getEnv_unset sample_os_def sint_atoi_word Atoi_number)
  then show ?thesis
    unfolding breaker_settings_def by (simp add: sint_product_fits)
qed

section \<open>Properties\<close>

text \<open>
  C15: Asking for unknown ids shuts the API down for everybody.  With the threshold at n, n requests
  for a transaction that does not exist, each correctly answered 404 by a healthy database, open
  the database breaker, because \<open>sql.ErrNoRows\<close> counts as a failure: until the timeout has
  passed, every request on the three API routes, creations included, is answered 503.
\<close>

theorem unknown_ids_deny_service:
  fixes E :: "('r, 'q, 'b, 'l) env" and metrics_page not_found :: "('r, 'q, 'b, 'l) handler" and c :: gin_ctx and n :: nat
  assumes "counts_failures (cb E) (breaker_settings (getenv E) ''database'') H live opened"
    and "getenv E ''ENV'' \<noteq> ''test''" and "\<And>n. pg_fate (pg E) n = Answered"
    and "lookup c" and "unknown_id E c w" and "live (dbCircuitBreaker w) 0"
    and "sint (failure_threshold (getenv E)) = int n" and "0 < n" and "n < 2 ^ 32"
    and "\<And>i. i < 4 * n \<Longrightarrow> clock E (ticks w + i) < H"
    and "clock E (ticks w + 4 * n - 1) \<le> clock E (ticks w + 4 * n)"
    and "clock E (ticks w + 4 * n) < clock E (ticks w + 4 * n - 1) + sint (set_Timeout (breaker_settings (getenv E) ''database''))"
    and "(req_method d, full_path d) \<in> {(''POST'', ''/transactions''), (''GET'', ''/transactions/:id''), (''GET'', ''/users/:id/balance'')}"
  defines "m \<equiv> each (\<lambda>_. dispatch E metrics_page not_found c) (replicate n ())"
  shows "map code (result m w) = replicate n 404 \<and>
    code (result (dispatch E metrics_page not_found d) (exec m w)) = 503"
proof -
  let ?v = "exec m w"
  from unknown_requests[OF assms(1-4,7,9) _ assms(6,5), of "replicate n ()" metrics_page not_found] assms(8,10)
  have run: "map code (result m w) = replicate n 404" "ticks ?v = ticks w + 4 * n"
    "opened (dbCircuitBreaker ?v) (clock E (ticks w + 4 * n - 1))"
    by (simp_all add: m_def)
  have "fst (cb_state (cb E) (clock E (ticks ?v)) (dbCircuitBreaker ?v)) = StateOpen"
    using assms(1,11,12) run(2,3) unfolding counts_failures_def by simp
  then have "\<not> breaker_passes E d ?v" using assms(2) by (simp add: breaker_passes_def)
  then have "code (result (CircuitBreakerMiddleware E h d) ?v) = 503" for h
    using breaker_gate.blocked[of E d ?v h] by (simp add: breaker_refuse_def breaker_refusal_response_def)
  then show ?thesis using run(1) assms(13) by (auto simp: dispatch_def routes_def)
qed

theorem unknown_ids_deny_service_witness:
  "let c = sample_ctx\<lparr>req_method := ''GET'', full_path := ''/transactions/:id'', param_id := ''2''\<rparr>;
       m = each (\<lambda>_. dispatch sample_env (\<lambda>_. ret (json 200 [])) (\<lambda>_. ret (json 404 [])) c) (replicate 5 ())
   in code (result (dispatch sample_env (\<lambda>_. ret (json 200 [])) (\<lambda>_. ret (json 404 [])) sample_ctx) (exec m sample_world)) = 503"
proof -
  let ?c = "sample_ctx\<lparr>req_method := ''GET'', full_path := ''/transactions/:id'', param_id := ''2''\<rparr>"
  have law: "counts_failures (cb sample_env) (breaker_settings (getenv sample_env) ''database'') 100000000000 sample_live sample_opened"
    using sample_counts_failures by simp
  have n: "sint (failure_threshold (getenv sample_env)) = int 5"
    by (simp add: sint_failure_threshold getEnv_unset sample_os_def Atoi_number)
  have unk: "unknown_id sample_env ?c sample_world"
    by (simp add: unknown_id_def sql_select_transaction_def sample_tables_def sample_row_def)
  have live: "sample_live (dbCircuitBreaker sample_world) 0"
    by (simp add: sample_live_def sample_breaker_closed_def sample_breaker_lib_def)
  have env: "getenv sample_env ''ENV'' \<noteq> ''test''" by (simp add: sample_os_def)
  have d: "(req_method sample_ctx, full_path sample_ctx) \<in> {(''POST'', ''/transactions''), (''GET'', ''/transactions/:id''), (''GET'', ''/users/:id/balance'')}"
    by (simp add: sample_ctx_def)
  show ?thesis
    unfolding Let_def
    by (rule conjunct2 [OF unknown_ids_deny_service [OF law env _ _ unk live n _ _ _ _ _ d]])
      (simp_all add: sample_timeout)
qed

end
