(* ===== verification/Progress.thy ===== *)
theory Progress
  imports Consumer
begin

text \<open>
  What becomes of a message in the long run.  The consumer of api/main.go requeues a message
  whose processing reports an error, and the broker delivers it again; the lemmas follow one
  message through its deliveries: it is acknowledged after finitely many when the database
  recovers, and it circulates forever when no attempt can succeed.
\<close>

text \<open>What no processing, whatever its outcome, can do without: a database round trip.\<close>

lemma complete_n_pg: "n_pg w \<le> n_pg (exec (complete_and_move E msg) w)"
  by (auto simp: complete_and_move_def running split: round_trip.splits sum.splits option.splits)

lemma process_n_pg: "n_pg w < n_pg (exec (processTransaction E msg) w)"
proof -
  have "n_pg (exec (mark_processing E msg) w) = Suc (n_pg w)"
    by (simp add: exec_statement_run)
  then have "n_pg w < n_pg (exec (complete_and_move E msg) (exec (mark_processing E msg) w))"
    using complete_n_pg[of "exec (mark_processing E msg) w" E msg] by linarith
  then show ?thesis
    by (simp add: processTransaction_def running exec_statement_run split: option.split)
qed

lemma consume_one_n_pg:
  "dec_msg (codec E) (dl_body d) = Inr msg \<Longrightarrow>
     n_pg (exec (consume_one E (processTransaction E) d) w) = n_pg (exec (processTransaction E msg) w)"
  by (simp add: consume_one_def settle_run split: option.split)

text \<open>The consumer on deliveries of one message, one after another.\<close>

lemma consumer_Cons:
  "result (consumer E (d # ds)) w =
     result (consume_one E (processTransaction E) d) w #
     result (consumer E ds) (exec (consume_one E (processTransaction E) d) w)"
  "exec (consumer E (d # ds)) w = exec (consumer E ds) (exec (consume_one E (processTransaction E) d) w)"
  by (simp_all add: consumer_def consume_loop_def)

lemma consumer_Nil: "result (consumer E []) w = []" "exec (consumer E []) w = w"
  by (simp_all add: consumer_def consume_loop_def)

section \<open>Messages that are acknowledged in the end\<close>

lemma redelivered_until_acknowledged:
  assumes body: "dec_msg (codec E) (dl_body d) = Inr msg"
    and up: "\<And>n. N \<le> n \<Longrightarrow> pg_fate (pg E) n = Answered" and clean: "\<And>n m. pg_fate (pg E) n \<noteq> ReplyLost m"
    and ids: "uuid_in (pg E) (msg_TransactionID msg) = Some i" "uuid_in (pg E) (msg_UserID msg) = Some u"
    and ty: "msg_Type msg \<in> {''credit'', ''debit'', ''transfer''}"
    and user: "users (servers w (Write (DB E))) u = Some r"
    and amt: "whole_cents (pg E) (msg_Amount msg)"
    and room: "fits_18_2 (balance r + delta (pg E) (msg_Type msg) (msg_Amount msg))"
  shows "\<exists>k \<le> N - n_pg w. result (consumer E (replicate (Suc k) d)) w = replicate k (Nack True) @ [Ack] \<and>
    balance_at (servers (exec (consumer E (replicate (Suc k) d)) w) (Write (DB E))) u
      = Some (balance r + delta (pg E) (msg_Type msg) (msg_Amount msg))"
  using user
proof (induction "N - n_pg w" arbitrary: w rule: less_induct)
  case less
  let ?w = "exec (consume_one E (processTransaction E) d) w"
  have srv: "servers ?w = servers (exec (processTransaction E msg) w)"
    by (simp add: consume_one_servers body)
  show ?case
  proof (cases "result (processTransaction E msg) w")
    case None
    then show ?thesis
      using process_None_balance[OF None amt, of "Write (DB E)" u] less.prems ids srv
      by (intro exI[of _ 0]) (simp add: consumer_Cons consumer_Nil consume_one_result body balance_at_def)
  next
    case (Some e)
    have "n_pg w < N"
    proof (rule ccontr)
      assume "\<not> n_pg w < N"
      then have "pg_fate (pg E) (n_pg w + j) = Answered" if "j < 5" for j
        by (intro up) simp
      from process_answered[OF this ids ty less.prems amt room] Some show False by simp
    qed
    moreover have n: "n_pg w < n_pg ?w"
      using process_n_pg[of w E msg] by (simp add: consume_one_n_pg[OF body])
    ultimately have fewer: "N - n_pg ?w < N - n_pg w" by linarith
    have "users (servers ?w (Write (DB E))) u = Some r"
      using process_Some_balance[OF Some clean, of "Write (DB E)"] less.prems srv by simp
    from less.hyps[OF fewer this] obtain k where
      k: "k \<le> N - n_pg ?w" "result (consumer E (replicate (Suc k) d)) ?w = replicate k (Nack True) @ [Ack]"
        "balance_at (servers (exec (consumer E (replicate (Suc k) d)) ?w) (Write (DB E))) u
          = Some (balance r + delta (pg E) (msg_Type msg) (msg_Amount msg))"
      by blast
    have "result (consume_one E (processTransaction E) d) w = Nack True"
      using Some by (simp add: consume_one_result body)
    then have "result (consumer E (replicate (Suc (Suc k)) d)) w = replicate (Suc k) (Nack True) @ [Ack]"
      and "exec (consumer E (replicate (Suc (Suc k)) d)) w = exec (consumer E (replicate (Suc k) d)) ?w"
      using k(2) by (simp_all only: replicate_Suc[of "Suc k"] consumer_Cons) simp
    then show ?thesis
      using k(1,3) fewer by (intro exI[of _ "Suc k"]) simp
  qed
qed

section \<open>Messages that never are\<close>

text \<open>A message no attempt can post while the user's balance is what it is.\<close>

definition unpostable :: "pg_lib \<Rightarrow> TransactionMessage \<Rightarrow> tables \<Rightarrow> bool" where
  "unpostable P msg tb \<longleftrightarrow>
     uuid_in P (msg_TransactionID msg) = None \<or>
     msg_Type msg \<in> {''credit'', ''debit'', ''transfer''} \<and>
       (case uuid_in P (msg_UserID msg) of
          None \<Rightarrow> True
        | Some u \<Rightarrow> \<exists>r. users tb u = Some r \<and> \<not> fits_18_2 (round_cents (of_int (balance r) / 100 +
            (if msg_Type msg = ''credit'' then pq_float P (msg_Amount msg) else - pq_float P (msg_Amount msg)))))"

lemma unpostable_post:
  assumes "unpostable P msg tb" and "users tb' = users tb"
  shows "\<exists>e. post P msg t tb' = Inl e"
  using assms
  by (auto simp: unpostable_def post_def sql_set_status_def sql_move_balance_def numeric_18_2_def Let_def balance_query_def
      split: option.splits sum.split if_splits)

text \<open>A row that is still itself, with the status it had or started.\<close>

definition only_started :: "txn_row \<Rightarrow> txn_row \<Rightarrow> bool" where
  "only_started r r' \<longleftrightarrow> row_core r' = row_core r \<and> row_status r' \<in> {row_status r, Processing}"

lemma only_started_refl: "list_all2 only_started rs rs"
  by (rule list_all2_refl) (simp add: only_started_def)

lemma only_started_trans:
  "list_all2 only_started rs rs' \<Longrightarrow> list_all2 only_started rs' rs'' \<Longrightarrow> list_all2 only_started rs rs''"
  by (rule list_all2_trans[of only_started only_started]) (auto simp: only_started_def)

lemma mark_processing_started:
  "list_all2 only_started (transactions (servers w ep)) (transactions (servers (exec (mark_processing E msg) w) ep))"
proof -
  have "list_all2 only_started rs (map (\<lambda>r. if row_id r = i then mark Processing t r else r) rs)" for rs i t
    by (simp add: list_all2_map2 only_started_def) (simp add: mark_def list_all2_same)
  then show ?thesis
    by (auto simp: exec_statement_run only_started_refl sql_set_status_def split: sum.split option.split)
qed

lemma unpostable_process:
  assumes "unpostable (pg E) msg (servers w (Write (DB E)))"
  shows "(\<exists>e. result (processTransaction E msg) w = Some e) \<and>
    users (servers (exec (processTransaction E msg) w) ep) = users (servers w ep) \<and>
    list_all2 only_started (transactions (servers w ep)) (transactions (servers (exec (processTransaction E msg) w) ep))"
proof (cases "result (mark_processing E msg) w")
  case (Some e)
  then show ?thesis by (simp add: process_result process_servers mark_processing_users mark_processing_started)
next
  case None
  let ?w = "exec (mark_processing E msg) w"
  have stuck: "\<exists>e. post (pg E) msg t (servers ?w (Write (DB E))) = Inl e" for t
    by (rule unpostable_post[OF assms mark_processing_users])
  then have "result (complete_and_move E msg) ?w \<noteq> None"
    using complete_None[of E msg ?w] by (metis Inl_Inr_False)
  then obtain e where e: "result (complete_and_move E msg) ?w = Some e" by blast
  from complete_Some[OF e] stuck have "servers (exec (complete_and_move E msg) ?w) = servers ?w"
    by (metis Inl_Inr_False)
  with e None show ?thesis by (simp add: process_result process_servers mark_processing_users mark_processing_started)
qed

lemma unpostable_users: "unpostable P msg tb \<Longrightarrow> users tb' = users tb \<Longrightarrow> unpostable P msg tb'"
  by (simp only: unpostable_def)

section \<open>Properties\<close>

text \<open>
  C6: Every message is completed in the end, and once.  If the database answers from some round
  trip on (number N) and no answer was lost after it took effect, a message for an existing user
  with room for its amount is requeued at most as often as round trips failed before N, then
  acknowledged; its amount has then moved exactly once, however many deliveries it took.
\<close>

theorem message_eventually_acknowledged:
  assumes "dec_msg (codec E) (dl_body d) = Inr msg"
    and "\<And>n. N \<le> n \<Longrightarrow> pg_fate (pg E) n = Answered" and "\<And>n m. pg_fate (pg E) n \<noteq> ReplyLost m"
    and "uuid_in (pg E) (msg_TransactionID msg) = Some i" "uuid_in (pg E) (msg_UserID msg) = Some u"
    and "msg_Type msg \<in> {''credit'', ''debit'', ''transfer''}"
    and "users (servers w (Write (DB E))) u = Some r"
    and "whole_cents (pg E) (msg_Amount msg)"
    and "fits_18_2 (balance r + delta (pg E) (msg_Type msg) (msg_Amount msg))"
  shows "\<exists>k \<le> N - n_pg w. result (consumer E (replicate (Suc k) d)) w = replicate k (Nack True) @ [Ack] \<and>
    balance_at (servers (exec (consumer E (replicate (Suc k) d)) w) (Write (DB E))) u
      = Some (balance r + delta (pg E) (msg_Type msg) (msg_Amount msg))"
  using assms by (rule redelivered_until_acknowledged)

lemma sample_outage: "(if b then RequestLost x else Answered) \<noteq> ReplyLost m"
  by simp

theorem message_eventually_acknowledged_witness:
  "\<exists>k \<le> 3. result (consumer (sample_env_with (\<lambda>n. if n < 3 then RequestLost ''x'' else Answered))
      (replicate (Suc k) \<lparr>dl_tag = 1, dl_body = ''M''\<rparr>)) sample_world = replicate k (Nack True) @ [Ack]"
proof -
  have "round_cents (5 / 2) = 250" by (rule round_cents_int) simp
  then show ?thesis
    using message_eventually_acknowledged [of "sample_env_with (\<lambda>n. if n < 3 then RequestLost ''x'' else Answered)"
        "\<lparr>dl_tag = 1, dl_body = ''M''\<rparr>" sample_msg 3 1 7 sample_world sample_user]
    by (auto simp: sample_rows sample_outage whole_cents_def delta_def balance_query_def fits_18_2_def)
qed

text \<open>
  C20: A message that cannot be posted is never given up.  If its ids do not parse, or the
  balance it would give does not fit the column, every one of its deliveries is requeued,
  whatever happens to the round trips, and none is discarded.  No balance moves, and every row of
  every server keeps its place, its identity and its status, except that it may have become
  processing: nothing marks the transaction as completed or failed.
\<close>

theorem poison_message_requeued_forever:
  assumes body: "dec_msg (codec E) (dl_body d) = Inr msg"
    and stuck: "unpostable (pg E) msg (servers w (Write (DB E)))"
  shows "result (consumer E (replicate n d)) w = replicate n (Nack True) \<and>
    users (servers (exec (consumer E (replicate n d)) w) ep) = users (servers w ep) \<and>
    list_all2 only_started (transactions (servers w ep)) (transactions (servers (exec (consumer E (replicate n d)) w) ep))"
  using stuck
proof (induction n arbitrary: w)
  case 0
  show ?case by (simp add: consumer_Nil only_started_refl)
next
  case (Suc n)
  let ?w = "exec (consume_one E (processTransaction E) d) w"
  note once = unpostable_process[OF Suc.prems]
  have same: "users (servers ?w ep') = users (servers w ep')" for ep'
    using once[of ep'] by (simp add: consume_one_servers body)
  have "unpostable (pg E) msg (servers ?w (Write (DB E)))"
    by (rule unpostable_users[OF Suc.prems same])
  moreover obtain e where "result (processTransaction E msg) w = Some e"
    using once by blast
  moreover have "list_all2 only_started (transactions (servers w ep)) (transactions (servers ?w ep))"
    using once[of ep] by (simp add: consume_one_servers body)
  ultimately show ?case
    using Suc.IH[of ?w] same only_started_trans
    by (simp add: consumer_Cons consume_one_result body)
qed

theorem poison_message_requeued_forever_witness:
  "result (consumer sample_env (replicate 1000 \<lparr>dl_tag = 1, dl_body = ''M''\<rparr>))
     (sample_world\<lparr>servers := (\<lambda>_. sample_tables\<lparr>users := [7 \<mapsto> sample_user\<lparr>balance := 1 - 10 ^ 18\<rparr>]\<rparr>)\<rparr>)
   = replicate 1000 (Nack True)"
proof -
  have "round_cents ((1 - 10 ^ 18) / 100 - 5 / 2) = - (10 ^ 18) - 249"
    by (rule round_cents_int) simp
  then show ?thesis
    using poison_message_requeued_forever [of sample_env "\<lparr>dl_tag = 1, dl_body = ''M''\<rparr>" sample_msg
        "sample_world\<lparr>servers := (\<lambda>_. sample_tables\<lparr>users := [7 \<mapsto> sample_user\<lparr>balance := 1 - 10 ^ 18\<rparr>]\<rparr>)\<rparr>" 1000]
    by (simp add: unpostable_def sample_rows balance_query_def fits_18_2_def)
qed



end
