(* ===== verification/Sweeper.thy ===== *)
theory Sweeper
  imports RateLimit
begin

text \<open>
  The background goroutine of api/middleware/ratelimit.go: a loop that sleeps five minutes and
  sweeps the limiter table, interleaved with the requests.
\<close>

section \<open>The loop started by \<open>init\<close>\<close>

definition sweep_interval :: goint where
  "sweep_interval = 5 * minute"

text \<open>
  The loop sleeps and sweeps, forever, beside the requests.  A state is the world and the time at
  which the current \<open>Sleep\<close> is over.  \<open>Wake\<close> is a sweep, after which the next \<open>Sleep\<close> begins;
  requests and other work run as long as the timer is not overdue by more than a slack, which
  bounds both the lateness of the scheduler and the duration of a sweep.
\<close>

inductive sweeper_step ::
  "('r, 'q, 'b, 'l) env \<Rightarrow> int \<Rightarrow> ('r, 'q, 'b, 'l) world \<times> time \<Rightarrow> ('r, 'q, 'b, 'l) world \<times> time \<Rightarrow> bool"
  for E :: "('r, 'q, 'b, 'l) env" and slack :: int where
  Wake: "due \<le> clock E (ticks w) \<Longrightarrow> clock E (Suc (ticks w)) \<le> clock E (ticks w) + slack \<Longrightarrow>
    sweeper_step E slack (w, due) (exec (cleanupLimiters E) w, clock E (Suc (ticks w)) + sint sweep_interval)"
| Serve: "clock E (ticks (exec (take_token E ip) w)) \<le> due + slack \<Longrightarrow>
    sweeper_step E slack (w, due) (exec (take_token E ip) w, due)"
| Elsewhere: "limiters w' = limiters w \<Longrightarrow> ticks w \<le> ticks w' \<Longrightarrow> clock E (ticks w') \<le> due + slack \<Longrightarrow>
    sweeper_step E slack (w, due) (w', due)"

inductive_cases sweeper_stepE: "sweeper_step E slack (w, due) (w', due')"

lemma sint_sweep_interval: "sint sweep_interval = 300000000000"
  by (simp add: sweep_interval_def minute_def second_def)

lemma stale_iff: "stale t e \<longleftrightarrow> 600000000000 < t - lastSeen e"
  by (simp add: stale_def minute_def second_def)

definition swept :: "('r, 'q, 'b, 'l) env \<Rightarrow> int \<Rightarrow> ('r, 'q, 'b, 'l) world \<times> time \<Rightarrow> bool" where
  "swept E slack s \<longleftrightarrow>
     snd s - sint sweep_interval \<le> clock E (ticks (fst s)) \<and> clock E (ticks (fst s)) \<le> snd s + slack \<and>
     (\<forall>ip e. limiters (fst s) ip = Some e \<longrightarrow> snd s - 900000000000 - slack \<le> lastSeen e)"

lemma swept_step:
  assumes mono: "\<And>m n. m \<le> n \<Longrightarrow> clock E m \<le> clock E n" and nn: "0 \<le> slack"
    and inv: "swept E slack (w, due)" and step: "sweeper_step E slack (w, due) (w', due')"
  shows "swept E slack (w', due')"
  using step
proof (cases rule: sweeper_stepE[consumes 1, case_names Wake Serve Elsewhere])
  case Wake
  have "clock E (Suc (ticks w)) + sint sweep_interval - 900000000000 - slack \<le> lastSeen e"
    if "limiters w' ip = Some e" for ip e
    using that Wake by (auto simp: cleanup_run stale_iff sint_sweep_interval split: option.splits if_splits)
  then show ?thesis
    using Wake nn by (simp add: swept_def cleanup_run sint_sweep_interval)
next
  case (Serve ip)
  have "clock E (ticks w) \<le> clock E (ticks w')" using Serve by (intro mono) (simp add: take_token_run)
  then show ?thesis
    using Serve inv nn by (auto simp: swept_def take_token_run sint_sweep_interval)
next
  case Elsewhere
  have "clock E (ticks w) \<le> clock E (ticks w')" using Elsewhere by (intro mono) simp
  then show ?thesis using Elsewhere inv by (auto simp: swept_def)
qed

interpretation sweeper_system: step_system
    "\<lambda>s. (\<forall>ip. limiters (fst s) ip = None) \<and> snd s = clock E (ticks (fst s)) + sint sweep_interval"
    "sweeper_step E slack"
    "\<lambda>s. (\<forall>m n. m \<le> n \<longrightarrow> clock E m \<le> clock E n) \<and> 0 \<le> slack \<longrightarrow> swept E slack s"
  for E :: "('r, 'q, 'b, 'l) env" and slack
proof
  fix s s' :: "('r, 'q, 'b, 'l) world \<times> time"
  assume "(\<forall>m n. m \<le> n \<longrightarrow> clock E m \<le> clock E n) \<and> 0 \<le> slack \<longrightarrow> swept E slack s" and "sweeper_step E slack s s'"
  then show "(\<forall>m n. m \<le> n \<longrightarrow> clock E m \<le> clock E n) \<and> 0 \<le> slack \<longrightarrow> swept E slack s'"
    using swept_step[of E slack "fst s" "snd s" "fst s'" "snd s'"] by simp
qed (simp add: swept_def sint_sweep_interval)

section \<open>Properties\<close>

text \<open>
  C23: The limiter table does not grow without bound: at every moment it holds only addresses that
  made a request within the last fifteen minutes and twice the slack, because the sweep runs
  every five minutes and drops what has been silent for ten.  It needs a clock that does not run
  backwards.
\<close>

theorem limiter_table_stays_recent:
  assumes "\<And>m n. m \<le> n \<Longrightarrow> clock E m \<le> clock E n" and "0 \<le> slack" and "\<And>ip. limiters w0 ip = None"
    and "(sweeper_step E slack)\<^sup>*\<^sup>* (w0, clock E (ticks w0) + sint sweep_interval) (w, due)"
    and "limiters w ip = Some e"
  shows "clock E (ticks w) - lastSeen e \<le> 900000000000 + 2 * slack"
proof -
  have "swept E slack (w, due)"
    using sweeper_system.reachable_inv[OF _ assms(4)] assms(1-3) by simp
  then have "due - 900000000000 - slack \<le> lastSeen e" and "clock E (ticks w) \<le> due + slack"
    using assms(5) by (auto simp: swept_def)
  then show ?thesis by linarith
qed

theorem limiter_table_stays_recent_witness:
  "let w = exec (take_token sample_env ''10.0.0.1'') sample_world
   in (\<exists>e. limiters w ''10.0.0.1'' = Some e \<and> clock sample_env (ticks w) - lastSeen e \<le> 902000000000)"
proof -
  let ?w = "exec (take_token sample_env ''10.0.0.1'') sample_world"
  have "(sweeper_step sample_env 1000000000)\<^sup>*\<^sup>* (sample_world, clock sample_env (ticks sample_world) + sint sweep_interval)
      (?w, clock sample_env (ticks sample_world) + sint sweep_interval)"
    by (intro r_into_rtranclp sweeper_step.Serve) (simp add: take_token_run sint_sweep_interval)
  from limiter_table_stays_recent [OF _ _ _ this] show ?thesis
    by (simp add: Let_def take_token_run)
qed

end
