(* ===== verification/TimeoutMiddleware.thy ===== *)
theory TimeoutMiddleware
  imports Requests
begin

text \<open>
  The second middleware of api/middleware/timeout.go: it answers 504 when the handlers behind it
  take longer than a given duration.  No route of the program uses it.
\<close>

text \<open>
  The handlers behind the middleware run in a goroutine of their own while the middleware waits
  for the first of two events: the goroutine is done, or the context is.  The schedule decides which
  one it sees and, when it sees the context, how far the goroutine has come: it has not entered
  \<open>c.Next()\<close>, it is between entering it and its answer, or it has just answered.
\<close>

datatype progress = Unstarted | InFlight | JustAnswered

datatype selected = HandlerDone | CtxDone progress

definition timeout_response :: "string \<Rightarrow> response" where
  "timeout_response tid = json 504
     [(''error'', JStr ''request timeout''),
      (''message'', JStr ''Request took too long to process''),
      (''trace_id'', JStr tid)]"

text \<open>
  The result is the list of the answers written while the middleware runs; \<open>net/http\<close> sends the
  status of the first.  \<open>c.Abort()\<close> keeps handlers from starting: a goroutine that enters
  \<open>c.Next()\<close> after it runs nothing.  Nothing stops one that has entered: the world returned is the
  one in which it has come to its end, and what it answers after the middleware has returned does
  not reach the client.
\<close>

definition Timeout ::
  "('r, 'q, 'b, 'l) env \<Rightarrow> goint \<Rightarrow> ('r, 'q, 'b, 'l) handler \<Rightarrow> gin_ctx \<Rightarrow> selected \<Rightarrow>
     ('r, 'q, 'b, 'l, response list) act" where
  "Timeout E d next c sel = do {
     t \<leftarrow> now E;
     let c' = c\<lparr>deadline := earlier (deadline c) (t + sint d)\<rparr>;
     (case sel of
        HandlerDone \<Rightarrow> do { r \<leftarrow> next c'; ret [r] }
      | CtxDone Unstarted \<Rightarrow> ret [timeout_response (trace_id c)]
      | CtxDone InFlight \<Rightarrow> do { next c'; ret [timeout_response (trace_id c)] }
      | CtxDone JustAnswered \<Rightarrow> do { r \<leftarrow> next c'; ret [r, timeout_response (trace_id c)] })
   }"

text \<open>
  The client sees 504 exactly when the context wins before the handler has answered, and the
  handler's effects happen unless it had not started.
\<close>

lemma Timeout_status:
  "map code (result (Timeout E d h c sel) w) =
     (let r = result (h (c\<lparr>deadline := earlier (deadline c) (clock E (ticks w) + sint d)\<rparr>)) (w\<lparr>ticks := Suc (ticks w)\<rparr>)
      in case sel of HandlerDone \<Rightarrow> [code r] | CtxDone JustAnswered \<Rightarrow> [code r, 504] | CtxDone _ \<Rightarrow> [504])"
  by (simp add: Timeout_def Let_def running timeout_response_def split: selected.split progress.split)

lemma Timeout_effects:
  "exec (Timeout E d h c sel) w =
     (let v = w\<lparr>ticks := Suc (ticks w)\<rparr>
      in if sel = CtxDone Unstarted then v
         else exec (h (c\<lparr>deadline := earlier (deadline c) (clock E (ticks w) + sint d)\<rparr>)) v)"
  by (simp add: Timeout_def Let_def running split: selected.split progress.split)

end
