(* ===== verification/Startup.thy ===== *)
theory Startup
  imports Server
begin

text \<open>
  The life of the process, \<open>main\<close> of api/main.go: start-up in order, each step ending the process
  when it fails, the wait for a signal, the graceful shutdown and the deferred \<open>Close\<close> functions
  of the packages db, cache and queue.  What the server does while it runs is theory System.
\<close>

section \<open>The process\<close>

text \<open>The \<open>http.Server\<close> that \<open>main\<close> configures; its handler is \<open>serve\<close> of theory Server.\<close>

record http_server =
  srv_Addr :: string
  srv_ReadTimeout :: goint
  srv_WriteTimeout :: goint
  srv_IdleTimeout :: goint

definition http_server_of :: "osenv \<Rightarrow> http_server" where
  "http_server_of os =
     \<lparr>srv_Addr = listen_address os, srv_ReadTimeout = 10 * second, srv_WriteTimeout = 10 * second,
      srv_IdleTimeout = 30 * second\<rparr>"

text \<open>
  Everything \<open>main\<close> does to the outside, in order: connections made and closed, the goroutines
  started, the phases it logs.
\<close>

datatype action =
    DbOpened endpoint
  | CacheOpened redis_options
  | QueueStep queue_event
  | BreakersReady
  | ConsumerStarted
  | ReleaseMode
  | ListeningOn http_server
  | CollectorStarted
  | ShuttingDown goint \<comment> \<open>the time left to requests in flight\<close>
  | ForcedShutdown string
  | ServerStopped
  | ChannelClosed
  | QueueClosed
  | CacheClosed
  | DbClosed endpoint

text \<open>The package variables \<open>db.DB\<close>, \<open>cache.Client\<close>, \<open>queue.conn\<close> and \<open>queue.channel\<close>.\<close>

record ('c, 'ch) process =
  DB_var :: "Database option"
  Client_var :: "redis_options option"
  conn_var :: "'c option"
  channel_var :: "'ch option"
  actions :: "action list"

definition fresh_process :: "('c, 'ch) process" where
  "fresh_process = \<lparr>DB_var = None, Client_var = None, conn_var = None, channel_var = None, actions = []\<rparr>"

definition act :: "action \<Rightarrow> (('c, 'ch) process, unit) state" where
  "act a = modify (\<lambda>p. p\<lparr>actions := actions p @ [a]\<rparr>)"

text \<open>
  The outcomes of the calls start-up makes on code outside the repository, and what ends the wait
  of \<open>main\<close>: the goroutine of the server fails, or a signal arrives and \<open>Shutdown\<close> returns.
\<close>

datatype server_end = ListenFailed string | Signalled "string option"

record ('c, 'ch) outside =
  sql_open :: "string \<Rightarrow> string option"
  sql_ping :: "pool \<Rightarrow> string option"
  redis_ping :: "redis_options \<Rightarrow> string option"
  amqp_dial :: "nat \<Rightarrow> string + 'c"
  open_channel :: "'c \<Rightarrow> string + 'ch"
  declare_queue :: "'ch \<Rightarrow> queue_declaration \<Rightarrow> string option"
  start_consume :: "'ch \<Rightarrow> string \<Rightarrow> string option"
  server_ends :: server_end

section \<open>Closing\<close>

definition db_Close :: "(('c, 'ch) process, unit) state" where
  "db_Close = do {
     d \<leftarrow> reads DB_var;
     (case d of
        None \<Rightarrow> ret ()
      | Some db \<Rightarrow> do { act (DbClosed (Write db)); act (DbClosed (Read db)) })
   }"

definition cache_Close :: "(('c, 'ch) process, unit) state" where
  "cache_Close = do {
     k \<leftarrow> reads Client_var;
     (case k of None \<Rightarrow> ret () | Some _ \<Rightarrow> act CacheClosed)
   }"

definition queue_Close :: "(('c, 'ch) process, unit) state" where
  "queue_Close = do {
     ch \<leftarrow> reads channel_var;
     (case ch of None \<Rightarrow> ret () | Some _ \<Rightarrow> act ChannelClosed);
     c \<leftarrow> reads conn_var;
     (case c of None \<Rightarrow> ret () | Some _ \<Rightarrow> act QueueClosed)
   }"

section \<open>main\<close>

text \<open>
  The router \<open>main\<close> builds between the start of the consumer and the start of the server touches
  nothing outside; it is \<open>serve\<close> and \<open>routes\<close> of theory Server.
  \<open>log.Fatalf\<close> ends the process at once, without the deferred calls: a computation that fails
  returns the reason and what follows it does not run.
\<close>

definition or_fatal ::
  "fatal + 'a \<Rightarrow> ('a \<Rightarrow> (('c, 'ch) process, fatal option) state) \<Rightarrow> (('c, 'ch) process, fatal option) state" where
  "or_fatal r k = (case r of Inl f \<Rightarrow> ret (Some f) | Inr x \<Rightarrow> k x)"

text \<open>The wait for a signal and the graceful shutdown, then the deferred calls, last one first.\<close>

definition serve_until_signal :: "('c, 'ch) outside \<Rightarrow> (('c, 'ch) process, fatal option) state" where
  "serve_until_signal X =
     (case server_ends X of
        ListenFailed e \<Rightarrow> ret (Some (ServerFailed e))
      | Signalled forced \<Rightarrow> do {
          act (ShuttingDown (15 * second));
          (case forced of None \<Rightarrow> ret () | Some e \<Rightarrow> act (ForcedShutdown e));
          act ServerStopped;
          queue_Close;
          cache_Close;
          db_Close;
          ret None
        })"

text \<open>The two \<open>Init\<close> functions with more than one effect: what they did is recorded even when they fail.\<close>

definition db_Init_act ::
  "osenv \<Rightarrow> ('c, 'ch) outside \<Rightarrow> (Database \<Rightarrow> (('c, 'ch) process, fatal option) state) \<Rightarrow>
     (('c, 'ch) process, fatal option) state" where
  "db_Init_act os X k =
     (case db_Init os (sql_open X) (sql_ping X) of (pools, r) \<Rightarrow> do {
        each (\<lambda>ep. act (DbOpened ep)) pools;
        or_fatal r k
      })"

definition queue_Init_act ::
  "osenv \<Rightarrow> ('c, 'ch) outside \<Rightarrow> ('c \<times> 'ch \<Rightarrow> (('c, 'ch) process, fatal option) state) \<Rightarrow>
     (('c, 'ch) process, fatal option) state" where
  "queue_Init_act os X k =
     (case queue_Init os (amqp_dial X) (open_channel X) (declare_queue X) of (es, r) \<Rightarrow> do {
        each (\<lambda>e. act (QueueStep e)) es;
        or_fatal r k
      })"

definition main :: "osenv \<Rightarrow> ('c, 'ch) outside \<Rightarrow> (('c, 'ch) process, fatal option) state" where
  "main os X =
     db_Init_act os X (\<lambda>database. do {
       modify (\<lambda>p. p\<lparr>DB_var := Some database\<rparr>);
       or_fatal (cache_Init os (redis_ping X)) (\<lambda>client. do {
         modify (\<lambda>p. p\<lparr>Client_var := Some client\<rparr>);
         act (CacheOpened client);
         queue_Init_act os X (\<lambda>(c, ch). do {
           modify (\<lambda>p. p\<lparr>conn_var := Some c, channel_var := Some ch\<rparr>);
           act BreakersReady;
           or_fatal (case start_consume X ch (queue_name os) of Some e \<Rightarrow> Inl (ConsumeFailed e) | None \<Rightarrow> Inr ()) (\<lambda>_. do {
             act ConsumerStarted;
             (if os ''ENV'' = ''production'' then act ReleaseMode else ret ());
             act (ListeningOn (http_server_of os));
             act CollectorStarted;
             serve_until_signal X
           })
         })
       })
     })"

section \<open>What start-up requires\<close>

text \<open>
  The specification of start-up: the checks in the order they are made, each with the reason it
  ends the process for; \<open>blocker\<close> is the first one that fails.
\<close>

definition dialled :: "('c, 'ch) outside \<Rightarrow> string + 'c" where
  "dialled X = snd (dial_loop (amqp_dial X) 0 (Inl []))"

definition checks :: "osenv \<Rightarrow> ('c, 'ch) outside \<Rightarrow> fatal option list" where
  "checks os X =
     (let server = (\<lambda>ep. case connect os (sql_open X) (sql_ping X) (fst ep) (snd ep) of Inl f \<Rightarrow> Some f | Inr _ \<Rightarrow> None)
      in [server (write_endpoint os), server (read_endpoint os),
          map_option CacheUnreachable (redis_ping X (redis_Options os)),
          (case dialled X of Inl e \<Rightarrow> Some (QueueUnreachable e) | Inr _ \<Rightarrow> None),
          (case dialled X of Inl _ \<Rightarrow> None | Inr c \<Rightarrow>
            (case open_channel X c of Inl e \<Rightarrow> Some (QueueChannelFailed e) | Inr ch \<Rightarrow>
              (case declare_queue X ch (transactions_queue os) of Some e \<Rightarrow> Some (QueueDeclareFailed e) | None \<Rightarrow>
                map_option ConsumeFailed (start_consume X ch (queue_name os)))))])"

primrec first_some :: "'a option list \<Rightarrow> 'a option" where
  "first_some [] = None"
| "first_some (x # xs) = (case x of Some y \<Rightarrow> Some y | None \<Rightarrow> first_some xs)"

definition blocker :: "osenv \<Rightarrow> ('c, 'ch) outside \<Rightarrow> fatal option" where
  "blocker os X = first_some (checks os X)"

definition closing :: "action \<Rightarrow> bool" where
  "closing a \<longleftrightarrow> a \<in> {ChannelClosed, QueueClosed, CacheClosed} \<or> (\<exists>ep. a = DbClosed ep)"

definition listening :: "action \<Rightarrow> bool" where
  "listening a \<longleftrightarrow> (\<exists>srv. a = ListeningOn srv)"

lemma act_run: "result (act a) p = ()" "exec (act a) p = p\<lparr>actions := actions p @ [a]\<rparr>"
  by (simp_all add: act_def)

lemma each_act: "exec (each (\<lambda>x. act (f x)) xs) p = p\<lparr>actions := actions p @ map f xs\<rparr>"
  by (induction xs arbitrary: p) (simp_all add: running act_run)

lemmas main_simps = main_def db_Init_act_def queue_Init_act_def or_fatal_def serve_until_signal_def db_Close_def
  cache_Close_def queue_Close_def act_run each_act fresh_process_def closing_def listening_def

lemma main_blocked:
  assumes "blocker os X = Some f"
  shows "result (main os X) fresh_process = Some f \<and>
    (\<forall>a \<in> set (actions (exec (main os X) fresh_process)). \<not> closing a \<and> \<not> listening a \<and> a \<noteq> ConsumerStarted)"
  using assms
  by (auto simp: main_simps blocker_def checks_def dialled_def db_Init_def cache_Init_def queue_Init_def Let_def
      split: sum.splits option.splits prod.splits)

text \<open>The connections, in the terms of what \<open>main\<close> does: a dial that fails opens none.\<close>

definition opens :: "action \<Rightarrow> bool" where
  "opens a \<longleftrightarrow> a \<in> {QueueStep Connected, QueueStep ChannelOpened} \<or> (\<exists>ep o'. a \<in> {DbOpened ep, CacheOpened o'})"

definition all_closed :: "osenv \<Rightarrow> action list" where
  "all_closed os =
     [ChannelClosed, QueueClosed, CacheClosed, DbClosed (write_endpoint os), DbClosed (read_endpoint os)]"

lemma dial_loop_events:
  "dial_loop dial i prev = (es, Inr c) \<Longrightarrow> (\<And>c. prev \<noteq> Inr c) \<Longrightarrow> \<exists>ns. es = map DialFailed ns @ [Connected]"
proof (induction dial i prev arbitrary: es rule: dial_loop.induct)
  case (1 dial i prev)
  show ?case
  proof (cases "i < 5")
    case True
    then show ?thesis
    proof (cases "dial i")
      case (Inr d)
      then show ?thesis using 1(2) True by (subst (asm) dial_loop.simps) (auto intro: exI[of _ "[]"])
    next
      case (Inl e)
      obtain es' r where l: "dial_loop dial (Suc i) (Inl e) = (es', r)" by fastforce
      have es: "es = DialFailed (Suc i) # es'" "r = Inr c"
        using 1(2) True Inl l by (subst (asm) dial_loop.simps, simp)+
      obtain ns where "es' = map DialFailed ns @ [Connected]"
        using 1(1)[OF True Inl, of es'] l es(2) by auto
      then show ?thesis by (intro exI[of _ "Suc i # ns"]) (simp add: es(1))
    qed
  next
    case False
    then show ?thesis using 1(2,3) by (subst (asm) dial_loop.simps) simp
  qed
qed

lemma main_unblocked:
  assumes "blocker os X = None"
  shows "\<exists>ns prefetch pre. result (main os X) fresh_process =
      (case server_ends X of ListenFailed e \<Rightarrow> Some (ServerFailed e) | Signalled _ \<Rightarrow> None) \<and>
    actions (exec (main os X) fresh_process) = pre @
      (case server_ends X of ListenFailed _ \<Rightarrow> []
       | Signalled forced \<Rightarrow> [ShuttingDown (15 * second)] @ (case forced of None \<Rightarrow> [] | Some e \<Rightarrow> [ForcedShutdown e]) @ [ServerStopped] @ all_closed os) \<and>
    pre = [DbOpened (write_endpoint os), DbOpened (read_endpoint os), CacheOpened (redis_Options os)] @
      map (\<lambda>n. QueueStep (DialFailed n)) ns @
      [QueueStep Connected, QueueStep ChannelOpened, QueueStep (QueueDeclared (transactions_queue os)),
       QueueStep (PrefetchSet prefetch), BreakersReady, ConsumerStarted] @
      (if os ''ENV'' = ''production'' then [ReleaseMode] else []) @
      [ListeningOn (http_server_of os), CollectorStarted]"
proof -
  obtain c where c: "dialled X = Inr c"
    using assms by (auto simp: blocker_def checks_def Let_def split: option.splits sum.splits)
  obtain es where es: "dial_loop (amqp_dial X) 0 (Inl []) = (es, Inr c)"
    using c by (cases "dial_loop (amqp_dial X) 0 (Inl [])") (simp add: dialled_def)
  obtain ns where "es = map DialFailed ns @ [Connected]"
    using dial_loop_events[OF es] by blast
  then show ?thesis
    using assms es
    by (intro exI[of _ ns]) (auto simp: main_simps blocker_def checks_def dialled_def db_Init_def cache_Init_def
        queue_Init_def Let_def all_closed_def split: sum.splits option.splits prod.splits server_end.splits)
qed

section \<open>Properties\<close>

text \<open>
  C21: The server listens only when everything it needs is there.  If a check of start-up fails
  (the two databases, Redis, the broker after its attempts, the channel, the queue, the
  registration of the consumer), \<open>main\<close> ends with the reason of the first one that does, without
  having started the consumer or the server; if none fails it listens, once, on the configured
  address with the consumer already started, and ends without an error exactly when a signal ends it.
\<close>

theorem listens_only_when_ready:
  "case blocker os X of
     Some f \<Rightarrow> result (main os X) fresh_process = Some f \<and>
       filter listening (actions (exec (main os X) fresh_process)) = [] \<and>
       ConsumerStarted \<notin> set (actions (exec (main os X) fresh_process))
   | None \<Rightarrow> (\<exists>before after. actions (exec (main os X) fresh_process) = before @ ListeningOn (http_server_of os) # after \<and>
       ConsumerStarted \<in> set before \<and> filter listening (before @ after) = []) \<and>
       result (main os X) fresh_process =
         (case server_ends X of ListenFailed e \<Rightarrow> Some (ServerFailed e) | Signalled _ \<Rightarrow> None)"
proof (cases "blocker os X")
  case (Some f)
  then show ?thesis using main_blocked[OF Some] by (auto simp: filter_empty_conv)
next
  case None
  define after where "after = CollectorStarted #
      (case server_ends X of ListenFailed _ \<Rightarrow> []
       | Signalled forced \<Rightarrow> [ShuttingDown (15 * second)] @ (case forced of None \<Rightarrow> [] | Some e \<Rightarrow> [ForcedShutdown e]) @ [ServerStopped] @ all_closed os)"
  from main_unblocked[OF None] obtain before where
    r: "result (main os X) fresh_process =
      (case server_ends X of ListenFailed e \<Rightarrow> Some (ServerFailed e) | Signalled _ \<Rightarrow> None)"
    and a: "actions (exec (main os X) fresh_process) = before @ ListeningOn (http_server_of os) # after"
    and b: "ConsumerStarted \<in> set before" "filter listening before = []"
    unfolding after_def by (force simp: listening_def)
  have "filter listening after = []"
    by (simp add: after_def listening_def all_closed_def split: server_end.split option.split)
  then show ?thesis using None r a b by auto
qed

text \<open>
  C22: A graceful end closes every connection and an abrupt one none.  A run that reaches the wait
  for a signal has opened the write pool, the read pool, the Redis client, the broker connection
  and its channel, in this order and each once, however often it had to dial.  When \<open>main\<close> returns,
  all five are closed, each once, after the server stopped: the channel, the connection, the Redis
  client, and the two pools, which are closed in the order they were opened, write pool first.
  When it ends through \<open>log.Fatalf\<close>, at start-up or because the listener failed, the deferred calls
  do not run and no connection is closed.
\<close>

theorem shutdown_closes_every_connection:
  "\<exists>pre. actions (exec (main os X) fresh_process) =
      pre @ (if result (main os X) fresh_process = None
        then [ServerStopped, ChannelClosed, QueueClosed, CacheClosed, DbClosed (write_endpoint os), DbClosed (read_endpoint os)]
        else []) \<and>
    filter closing pre = [] \<and>
    (if blocker os X = None
     then filter opens pre = [DbOpened (write_endpoint os), DbOpened (read_endpoint os), CacheOpened (redis_Options os),
       QueueStep Connected, QueueStep ChannelOpened] else True)"
proof (cases "blocker os X")
  case (Some f)
  then show ?thesis using main_blocked[OF Some] by (auto simp: filter_empty_conv)
next
  case None
  have "filter closing (map (\<lambda>n. QueueStep (DialFailed n)) ns) = []"
    "filter opens (map (\<lambda>n. QueueStep (DialFailed n)) ns) = []" for ns
    by (auto simp: filter_empty_conv closing_def opens_def)
  with main_unblocked[OF None] None show ?thesis
    by (cases "server_ends X") (auto simp: closing_def opens_def all_closed_def split: option.split)
qed

end
