(* ===== verification/Answers.thy ===== *)
theory Answers
  imports Server
begin

text \<open>
  The shape of every answer of the API: which status codes, which kind of body, and the trace id
  in both body and header.  A small logic for what a computation can return carries the proofs.
\<close>

text \<open>An error answer names the error and carries the trace id of the request.\<close>

definition error_answer :: "string \<Rightarrow> response \<Rightarrow> bool" where
  "error_answer tid r \<longleftrightarrow> code r \<in> {400, 404, 422, 429, 500, 503} \<and>
     (case field ''error'' r of Some (JStr e) \<Rightarrow> e \<noteq> [] | _ \<Rightarrow> False) \<and>
     field ''trace_id'' r = Some (JStr tid)"

definition created_answer :: "string \<Rightarrow> response \<Rightarrow> bool" where
  "created_answer tid r \<longleftrightarrow> code r \<in> {200, 202} \<and>
     (case field ''id'' r of Some (JStr _) \<Rightarrow> True | _ \<Rightarrow> False) \<and>
     (case field ''status'' r of Some (JStr s) \<Rightarrow> s \<in> {''pending'', ''completed'', ''already_processed''} | _ \<Rightarrow> False) \<and>
     field ''trace_id'' r = Some (JStr tid)"

definition found_answer :: "(body \<Rightarrow> bool) \<Rightarrow> response \<Rightarrow> bool" where
  "found_answer ok r \<longleftrightarrow> code r = 200 \<and> ok (body r) \<and>
     map_of (headers r) ''X-Cache'' \<in> {Some ''HIT'', Some ''MISS'', Some ''DISABLED''}"

definition is_txn :: "body \<Rightarrow> bool" where
  "is_txn b = (case b of TxnBody _ \<Rightarrow> True | _ \<Rightarrow> False)"

definition is_balance :: "body \<Rightarrow> bool" where
  "is_balance b = (case b of BalanceBody _ \<Rightarrow> True | _ \<Rightarrow> False)"

text \<open>The type of the successful answer of each route of the API.\<close>

definition success_type :: "string \<Rightarrow> ((string \<times> string) \<times> (response \<Rightarrow> bool)) list" where
  "success_type tid =
     [((''POST'', ''/transactions''), created_answer tid),
      ((''GET'', ''/transactions/:id''), found_answer is_txn),
      ((''GET'', ''/users/:id/balance''), found_answer is_balance),
      ((''POST'', ''/v0/transactions''), created_answer tid),
      ((''GET'', ''/v0/transactions/:id''), found_answer is_txn),
      ((''GET'', ''/v0/users/:id/balance''), found_answer is_balance)]"

definition typed_answer :: "gin_ctx \<Rightarrow> response \<Rightarrow> bool" where
  "typed_answer c r \<longleftrightarrow>
     (case map_of (success_type (trace_id c)) (req_method c, full_path c) of
        None \<Rightarrow> True
      | Some ok \<Rightarrow> error_answer (trace_id c) r \<or> ok r)"

section \<open>The answers of each handler\<close>

text \<open>What a computation can return, whatever world it starts in: the last action decides.\<close>

named_theorems answering \<open>rules for what a computation can return\<close>

definition answers :: "('a \<Rightarrow> bool) \<Rightarrow> ('s, 'a) state \<Rightarrow> bool" where
  "answers P m \<longleftrightarrow> (\<forall>w. P (result m w))"

lemma answersD: "answers P m \<Longrightarrow> P (result m w)"
  by (simp add: answers_def)

lemma answers_ret [answering]: "P x \<Longrightarrow> answers P (ret x)"
  by (simp add: answers_def)

lemma answers_last [answering]: "(\<And>x. answers P (f x)) \<Longrightarrow> answers P (State_Monad.bind m f)"
  by (simp add: answers_def)

lemma answers_bind: "answers Q m \<Longrightarrow> (\<And>x. Q x \<Longrightarrow> answers P (f x)) \<Longrightarrow> answers P (State_Monad.bind m f)"
  by (simp add: answers_def)

lemma answers_if [answering]: "answers P m \<Longrightarrow> answers P n \<Longrightarrow> answers P (if b then m else n)"
  by simp

lemma answers_option [answering]:
  "answers P m \<Longrightarrow> (\<And>y. answers P (f y)) \<Longrightarrow> answers P (case x of None \<Rightarrow> m | Some y \<Rightarrow> f y)"
  by (simp split: option.split)

lemma answers_sum [answering]:
  "(\<And>e. answers P (f e)) \<Longrightarrow> (\<And>y. answers P (g y)) \<Longrightarrow> answers P (case x of Inl e \<Rightarrow> f e | Inr y \<Rightarrow> g y)"
  by (simp split: sum.split)

lemma error_json [answering]:
  "n \<in> {400, 404, 422, 429, 500, 503} \<Longrightarrow> map_of kvs ''error'' = Some (JStr e) \<Longrightarrow> e \<noteq> [] \<Longrightarrow>
     map_of kvs ''trace_id'' = Some (JStr tid) \<Longrightarrow> error_answer tid (json n kvs)"
  by (simp add: error_answer_def)

lemma created_json [answering]:
  "n \<in> {200, 202} \<Longrightarrow> map_of kvs ''id'' = Some (JStr i) \<Longrightarrow> map_of kvs ''status'' = Some (JStr s) \<Longrightarrow>
     s \<in> {''pending'', ''completed'', ''already_processed''} \<Longrightarrow> map_of kvs ''trace_id'' = Some (JStr tid) \<Longrightarrow>
     created_answer tid (json n kvs)"
  by (simp add: created_answer_def)

abbreviation creates :: "string \<Rightarrow> response \<Rightarrow> bool" where
  "creates tid r \<equiv> error_answer tid r \<or> created_answer tid r"

abbreviation finds :: "(body \<Rightarrow> bool) \<Rightarrow> string \<Rightarrow> response \<Rightarrow> bool" where
  "finds ok tid r \<equiv> error_answer tid r \<or> found_answer ok r"

lemma create_check_answer:
  "answers (\<lambda>x. case x of Inl r \<Rightarrow> creates tid r | Inr _ \<Rightarrow> True) (create_check E tid req)"
  unfolding create_check_def Let_def
  by (intro answering) (simp_all add: error_answer_def created_answer_def)

lemma create_write_answer: "answers (creates tid) (create_write E tid req k)"
  unfolding create_write_def create_finish_def Let_def
  by (intro answering) (simp_all add: error_answer_def created_answer_def)

lemma CreateTransaction_answer: "answers (creates (trace_id c)) (CreateTransaction E c)"
proof -
  have rest: "answers (creates (trace_id c)) (case x of Inl early \<Rightarrow> ret early | Inr k \<Rightarrow> create_write E (trace_id c) req k)"
    if "case x of Inl r \<Rightarrow> creates (trace_id c) r | Inr _ \<Rightarrow> True" for x req
    using that create_write_answer by (auto intro: answers_ret split: sum.split)
  show ?thesis
    unfolding CreateTransaction_def Let_def
    by (rule answers_sum, simp add: answers_def error_answer_def) (rule answers_bind[OF create_check_answer rest])
qed

lemma GetTransaction_answer: "answers (finds is_txn (trace_id c)) (GetTransaction E c)"
  unfolding GetTransaction_def Let_def
  by (intro answering) (simp_all add: error_answer_def found_answer_def is_txn_def)

lemma GetUserBalance_answer: "answers (finds is_balance (trace_id c)) (GetUserBalance E c)"
  unfolding GetUserBalance_def Let_def
  by (intro answering) (simp_all add: error_answer_def found_answer_def is_balance_def)

lemma CreateTransactionV0_answer: "answers (creates (trace_id c)) (CreateTransactionV0 E c)"
  unfolding CreateTransactionV0_def v0_write_def v0_error_def Let_def
  by (intro answering) (simp_all add: error_answer_def created_answer_def)

lemma GetTransactionV0_answer: "answers (finds is_txn (trace_id c)) (GetTransactionV0 E c)"
  unfolding GetTransactionV0_def v0_error_def v0_headers_def Let_def
  by (intro answering) (simp_all add: error_answer_def found_answer_def is_txn_def)

lemma GetUserBalanceV0_answer: "answers (finds is_balance (trace_id c)) (GetUserBalanceV0 E c)"
  unfolding GetUserBalanceV0_def v0_error_def v0_headers_def Let_def
  by (intro answering) (simp_all add: error_answer_def found_answer_def is_balance_def)

section \<open>The answers of the chain\<close>

lemma guarded_answer:
  assumes "answers (\<lambda>r. error_answer (trace_id c) r \<or> ok r) (h c)"
  shows "answers (\<lambda>r. error_answer (trace_id c) r \<or> ok r) (CircuitBreakerMiddleware E h c)"
  unfolding CircuitBreakerMiddleware_def breaker_refusal_response_def
  by (intro answering assms) (simp add: error_answer_def)

lemma dispatch_answer: "answers (typed_answer c) (dispatch E metrics_page not_found c)"
proof (cases "map_of (success_type (trace_id c)) (req_method c, full_path c)")
  case None
  then show ?thesis by (simp add: answers_def typed_answer_def)
next
  case (Some ok)
  have "answers (\<lambda>r. error_answer (trace_id c) r \<or> ok r) (dispatch E metrics_page not_found c)"
    using map_of_SomeD[OF Some]
    by (auto simp: success_type_def dispatch_def routes_def
        intro!: guarded_answer CreateTransaction_answer GetTransaction_answer GetUserBalance_answer
          CreateTransactionV0_answer GetTransactionV0_answer GetUserBalanceV0_answer)
  then show ?thesis using Some by (simp add: answers_def typed_answer_def)
qed

lemma limited_answer:
  assumes "answers (typed_answer c) (h c)"
  shows "answers (typed_answer c) (RateLimit E h c)"
  unfolding RateLimit_def
  by (intro answering assms)
    (simp add: typed_answer_def rate_limit_response_def error_answer_def split: option.split)

section \<open>Properties\<close>

text \<open>
  C17: Every answer of the API has the type of its route.  Through the whole chain, a request for
  one of the six API routes is answered either with an error, whose code is one of 400, 404, 422,
  429, 500 and 503 and whose body names the error, or with the route's own kind of success: 200
  or 202 with an id and a status for a creation, a transaction for a transaction read, a balance
  for a balance read, the reads with their \<open>X-Cache\<close> header.  Error and creation bodies carry the
  same trace id as the response's \<open>X-Trace-ID\<close> header.  Recovery is taken to add nothing when no
  handler panics.
\<close>

theorem answers_are_typed:
  assumes "\<And>h c v. result (recovery h c) v = result (h c) v"
    and "(req_method c, full_path c) \<in> fst ` set (success_type [])"
  shows "\<exists>tid r. result (serve E recovery metrics_page not_found c) w = with_header ''X-Trace-ID'' tid r \<and>
    (error_answer tid r \<or> (\<exists>ok. map_of (success_type tid) (req_method c, full_path c) = Some ok \<and> ok r))"
proof -
  obtain c' w' where run: "result (serve E recovery metrics_page not_found c) w =
      with_header ''X-Trace-ID'' (trace_id c') (result (RateLimit E (recovery (dispatch E metrics_page not_found)) c') w')"
    and route: "req_method c' = req_method c" "full_path c' = full_path c"
    using serve_as_gate by blast
  have "answers (typed_answer c') (recovery (dispatch E metrics_page not_found) c')"
    using dispatch_answer by (simp add: answers_def assms(1))
  from answersD[OF limited_answer[where h = "recovery (dispatch E metrics_page not_found)", OF this]]
  have "typed_answer c' (result (RateLimit E (recovery (dispatch E metrics_page not_found)) c') w')" .
  moreover obtain ok where "map_of (success_type (trace_id c')) (req_method c, full_path c) = Some ok"
    using assms(2) by (auto simp: success_type_def)
  ultimately show ?thesis
    using run route by (auto simp: typed_answer_def)
qed

theorem answers_are_typed_witness:
  "\<exists>tid r. result (serve sample_env (\<lambda>h. h) (\<lambda>_. ret (json 200 [])) (\<lambda>_. ret (json 404 [])) sample_ctx) sample_world
      = with_header ''X-Trace-ID'' tid r \<and> (error_answer tid r \<or> created_answer tid r)"
proof -
  have c: "req_method sample_ctx = ''POST''" "full_path sample_ctx = ''/transactions''"
    by (simp_all add: sample_ctx_def)
  then have "(req_method sample_ctx, full_path sample_ctx) \<in> fst ` set (success_type [])"
    by (simp add: success_type_def)
  from answers_are_typed [where recovery = "\<lambda>h. h" and E = sample_env and w = sample_world and
      metrics_page = "\<lambda>_. ret (json 200 [])" and not_found = "\<lambda>_. ret (json 404 [])", OF refl this]
  obtain tid r where tid: "result (serve sample_env (\<lambda>h. h) (\<lambda>_. ret (json 200 [])) (\<lambda>_. ret (json 404 [])) sample_ctx) sample_world
      = with_header ''X-Trace-ID'' tid r"
    and r: "error_answer tid r \<or> (\<exists>ok. map_of (success_type tid) (req_method sample_ctx, full_path sample_ctx) = Some ok \<and> ok r)"
    by (elim exE conjE) (rule that)
  have "map_of (success_type tid) (req_method sample_ctx, full_path sample_ctx) = Some (created_answer tid)"
    by (simp add: success_type_def c)
  with r have "error_answer tid r \<or> created_answer tid r" by simp
  with tid show ?thesis by blast
qed

end
