(* ===== verification/Spec2Isabelle.thy ===== *)
theory Spec2Isabelle
  imports Machine Outage Progress Sweeper TimeoutMiddleware Startup Answers
begin

text \<open>
  A model of the transaction service of peak-load-management (src/api, Go), with the properties
  that make it correct.

  The program.  \<open>main.go\<close> starts a web server on gin.  Every request passes \<open>RequestContext\<close> (trace
  id and deadline), \<open>Logger\<close>, \<open>RateLimit\<close> and gin's recovery; the routes \<open>POST /transactions\<close>,
  \<open>GET /transactions/:id\<close> and \<open>GET /users/:id/balance\<close> pass the circuit breaker middleware as
  well.  A creation inserts a pending row on the write database, remembers the idempotency key in
  Redis and publishes a message to RabbitMQ; a consumer goroutine completes the transaction,
  moves the balance and deletes the cache entries.  Reads go through Redis and fall back to the
  read database behind the breaker.  The \<open>/v0\<close> routes do the same synchronously, without cache,
  queue and breaker.

  Theories, in the order of imports, and the code they model.
    Prelude        reading state-monad programs; invariants, frames, triples; transition systems
    GoStd          strconv.Atoi, strings.TrimSpace, %d and %x, zero times
    Structs        the structs of handler, queue and middleware, responses, metrics/prometheus.go,
                   the rows of migrations/init.sql
    World          the record of everything a request can touch, the record of what it runs
                   against, and the primitive effects
    Config         the getEnv copies, db.Init and connect, cache.Init, DefaultTTL, breaker settings
    Sample         a concrete environment, on which every theorem with hypotheses is applied
    Database       the SQL statements and the database/sql calls
    Cache          cache/redis.go               Queue          queue/rabbitmq.go
    Gates          contract of refusing middlewares
    Breaker        middleware/circuitbreaker.go RateLimit      middleware/ratelimit.go
    Requests       middleware/timeout.go (RequestContext) and middleware/logger.go
    TimeoutMiddleware   the Timeout middleware of middleware/timeout.go
    Sweeper        the sweep loop that middleware/ratelimit.go starts
    CachedRead     contract of the two cached read endpoints
    Users          handler/user.go              Transactions   handler/transaction.go
    Consumer       processTransaction of main.go
    Progress       what becomes of one message in the long run
    Baseline       handler/v0_transaction.go
    Server         routes, chain, health check and collector of main.go
    Answers        the type of every answer of the API
    Outage         what requests for unknown ids do to the breaker and through it to the API
    Startup        the life of the process: main of main.go and the Close functions
    Ledger, System invariants of the database under every interleaving and across restarts
    Flow           the same runs with what the messages and creations under way carry; the row
                   behind every message
    Machine        the abstract ledger that the whole server implements
    Spec2Isabelle  this header and the properties that span components

  State and effects.  A handler is a function from the parts of \<open>gin.Context\<close> it reads to a
  computation in the state monad over \<open>world\<close>: database tables per server, Redis, broker, the two
  breakers, the limiter table, the calls on metrics, the log lines, and counters that select the
  next clock reading, UUID, random number and fate of a database round trip from \<open>env\<close>.  Errors
  are values of sum and option types; every early return of the source is a branch.  Machine
  integers are 64-bit words where they can wrap (durations, settings, breaker counts).

  Code outside the repository (go-redis, amqp091, gobreaker, x/time/rate, encoding/json, lib/pq,
  the OS environment, the clock) is the record \<open>env\<close>: abstract operations on abstract states.
  Nothing is assumed of them in the definitions; a theorem that relies on documented behaviour
  names it as a hypothesis (\<open>redis_remembers\<close>, \<open>redis_forgets\<close>, \<open>redis_deletes_locally\<close>,
  \<open>reports_changes\<close>, \<open>counts_failures\<close>, \<open>closed_admits\<close>, \<open>token_bucket\<close>, \<open>queues_published\<close>,
  \<open>holds_only_sent\<close>, \<open>reads_back\<close>, \<open>framework_ok\<close>, \<open>framework_sound\<close>) and has a witness on the
  sample environment.  \<open>ExecuteWithCB\<close> is one call of gobreaker's \<open>Execute\<close>, which the model splits
  where the library runs the request: admission, the request, its outcome; panics are not modelled.
  That \<open>Publish\<close> reports no error says that the message was sent, not that it is on the queue: the
  channel has no confirms and nothing listens for returned messages.
  A database round trip is answered, lost before it took effect, or lost after it; that covers
  timeouts, cancelled contexts and serialization failures, which all surface as errors.  A
  serializable transaction is a snapshot published at commit.  A query by id returns the first row
  stored with that id; PostgreSQL leaves the order open, which matters only if two rows share an id.

  Concurrency.  Requests, the consumer, the sweep and the collector are goroutines.  A step of
  \<open>app_step\<close> is a whole request, a delivery handled as a whole, or a shorter stretch of them: the
  checks of a creation, its insert in the breaker, the record in Redis with the message to the
  queue, the last two together, one statement or database transaction of a processing, a
  settlement; or a sweep or a collector round.  Other work comes between steps, not within one.
  \<open>life_step\<close> adds crashes and restarts.  \<open>flow_step\<close> of theory Flow is the part of \<open>life_step\<close> in
  which a delivery is of a message the broker holds and a creation publishes only after its insert.
  The limiter, the breaker and the sweep have finer step relations of their own (\<open>limiter_step\<close>,
  \<open>breaker_step\<close>, \<open>sweeper_step\<close>); in \<open>breaker_step\<close> the question a middleware asks the breaker and
  the gauge it sets when refusing are two steps.  The \<open>Timeout\<close> middleware races with the handler
  behind it; the outcome of its \<open>select\<close> and how far the handler has come then are an argument.

  Bounds.  The only loop with a bound is the dial loop of queue.Init (five attempts; \<open>dial_loop\<close>
  recurses on the attempt's number, with the attempts left as its measure); the consumer loop runs over the finite list of deliveries
  received until its channel closes; the decimal printers recurse on the quotient.  The system
  relation \<open>app_step\<close> has no bound.

  Groups of lemmas.  \<open>_run\<close> lemmas give the result and final world of an operation; \<open>_frame\<close>
  lemmas say which part of the world it leaves alone; the locales state the interfaces (key
  spaces, statements, gates, cached reads, store, request, message and ledger invariants, step
  systems) and are interpreted on the model's own operations; two ledger invariants are given
  statement by statement (\<open>statement_invariant\<close>, a \<open>sublocale\<close> of the general one), the others
  (no failed row, tables that follow the abstract ledger) database transaction by database
  transaction.  Properties are numbered C1 onwards in the text before them.

  Not modelled.  The HTTP layer of gin and net/http (parsing, routing table, panics), the texts of
  the lines logged with log.Printf and log.Println (none is read by the program; start-up and
  shutdown lines are values of \<open>action\<close>), Prometheus exposition and the pools' statistics
  beyond the value handed to a gauge, JSON syntax (abstract encoders and decoders), TLS and
  networking.  Files outside src/api (nginx, load tests, dashboards, compose files) are
  configuration and test data.
\<close>

section \<open>Properties of the whole server\<close>

text \<open>
  C10: The ledger is append-only, on every server, under every interleaving and across restarts: the rows that were
  there keep their place, and their id, user, type, amount, reference, description and creation
  time; everything new comes after them.
\<close>

theorem ledger_append_only:
  assumes "framework_ok (\<lambda>ep. grown_from (servers w ep)) recovery metrics_page not_found"
    and "(life_step E recovery metrics_page not_found)\<^sup>*\<^sup>* w w'"
  shows "\<exists>new. map row_core (transactions (servers w' ep)) = map row_core (transactions (servers w ep)) @ new"
proof -
  have "everywhere (\<lambda>ep. grown_from (servers w ep)) w" by (simp add: everywhere_def grown_from_def)
  from append_system.reachable_inv[OF this assms(2)] assms(1)
  have "everywhere (\<lambda>ep. grown_from (servers w ep)) w'" by blast
  then have "grown_from (servers w ep) (servers w' ep)" by (rule everywhereD)
  then show ?thesis by (auto simp: grown_from_def prefix_def)
qed

theorem ledger_append_only_witness:
  "\<exists>new. map row_core (transactions (servers (exec (serve sample_env (\<lambda>h. h) (page 200) (page 404) sample_ctx) sample_world)
      (''postgres'', ''5432''))) = row_core sample_row # new"
proof -
  have "(life_step sample_env (\<lambda>h. h) (page 200) (page 404))\<^sup>*\<^sup>* sample_world
      (exec (serve sample_env (\<lambda>h. h) (page 200) (page 404) sample_ctx) sample_world)"
    by (intro r_into_rtranclp life_step.Work app_step.Request)
  from ledger_append_only [OF sample_framework this, of "(''postgres'', ''5432'')"] show ?thesis
    by (simp add: sample_tables_def)
qed

section \<open>Freshness of cached reads\<close>

text \<open>
  Documented behaviour of DEL, beyond \<open>redis_forgets\<close>: it creates no entry, and it leaves the
  entries of other keys alone.
\<close>

definition redis_deletes_locally :: "'r redis_lib \<Rightarrow> bool" where
  "redis_deletes_locally R \<longleftrightarrow>
     (\<forall>k k' t t' r. k \<noteq> k' \<longrightarrow> fst (rd_get R k' t' (snd (rd_del R k t r))) = fst (rd_get R k' t' r))"

lemma process_None_redis:
  assumes "result (processTransaction E msg) w = None"
  shows "\<exists>t t'. redis (exec (processTransaction E msg) w) =
    snd (rd_del (rds E) (TransactionKey (msg_TransactionID msg)) t'
      (snd (rd_del (rds E) (UserBalanceKey (msg_UserID msg)) t (redis w))))"
proof -
  let ?v = "exec (complete_and_move E msg) (exec (mark_processing E msg) w)"
  have m: "result (mark_processing E msg) w = None" and c: "result (complete_and_move E msg) (exec (mark_processing E msg) w) = None"
    using assms by (auto simp: process_result split: option.splits)
  have r: "redis ?v = redis w"
    by (simp add: unchangedD[OF complete_frame(1)] exec_statement_run)
  show ?thesis
    using m c r by (auto simp: processTransaction_def cache_Delete_run count_run)
qed

text \<open>
  C19: Processing a message makes the user's balance readable.  After a successful processing, as
  long as nothing was cached since, a balance request for the id as the message spells it misses
  the cache and, when admitted and answered, returns the row the read server then has, so never
  the balance from before.
\<close>

theorem balance_fresh_after_processing:
  assumes "result (processTransaction E msg) w = None"
    and forgets: "redis_forgets (rds E)" "redis_deletes_locally (rds E)"
      "\<And>k t r. fst (rd_del (rds E) k t r) = None"
    and later: "redis v = redis (exec (processTransaction E msg) w)"
    and read: "param_id c = msg_UserID msg" "msg_UserID msg \<noteq> []"
      "fst (cb_allow (cb E) (clock E (Suc (ticks v))) (dbCircuitBreaker v)) = Inr gen"
      "pg_fate (pg E) (n_pg v) = Answered"
    and user: "uuid_in (pg E) (msg_UserID msg) = Some u" "users (servers v (Read (DB E))) u = Some row"
  shows "\<exists>t. result (GetUserBalance E c) v = answer ''MISS'' (BalanceBody
    \<lparr>ub_UserID = uuid_out (pg E) u, ub_Username = username row, ub_Balance = scan_float (pg E) (balance row),
     ub_Status = user_status row, ub_FetchedAt = t\<rparr>)"
proof -
  let ?k = "UserBalanceKey (msg_UserID msg)" and ?k' = "TransactionKey (msg_TransactionID msg)"
  from process_None_redis[OF assms(1)] obtain t t' where
    r: "redis v = snd (rd_del (rds E) ?k' t' (snd (rd_del (rds E) ?k t (redis w))))"
    using later by auto
  have "?k' \<noteq> ?k" by (rule txn_balance.disjoint) simp_all
  then have "fst (rd_get (rds E) ?k (clock E (ticks v)) (redis v)) = RedisNil"
    using forgets unfolding r redis_forgets_def redis_deletes_locally_def by metis
  then show ?thesis
    using balance_miss_value[of c E v gen] read user by (simp add: sql_select_user_def)
qed

theorem balance_fresh_after_processing_witness:
  "\<exists>t. result (GetUserBalance sample_env (sample_ctx\<lparr>param_id := ''7''\<rparr>))
     (exec (processTransaction sample_env sample_msg) (sample_world\<lparr>redis := [''user:balance:7'' \<mapsto> (''B'', None)]\<rparr>))
   = answer ''MISS'' (BalanceBody \<lparr>ub_UserID = ''7'', ub_Username = ''ana'', ub_Balance = 15 / 2,
      ub_Status = ''active'', ub_FetchedAt = t\<rparr>)"
proof -
  let ?w = "sample_world\<lparr>redis := [''user:balance:7'' \<mapsto> (''B'', None)]\<rparr>"
  let ?v = "exec (processTransaction sample_env sample_msg) ?w"
  have c: "round_cents (5 / 2) = 250" by (rule round_cents_int) simp
  have p: "result (processTransaction sample_env sample_msg) ?w = None \<and>
      balance_at (servers ?v (''postgres'', ''5432'')) 7 = Some 750"
    using process_answered [of sample_env ?w sample_msg 1 7 sample_user] c
    by (simp add: sample_rows whole_cents_def delta_def balance_query_def fits_18_2_def)
  have n: "numeric_18_2 (10 + - (5 / 2)) = Inr 750"
    using round_cents_int[of "15 / 2" 750] by (simp add: numeric_18_2_def fits_18_2_def)
  have u: "\<exists>t. users (servers ?v (''postgres'', ''5432'')) 7 = Some (sample_user\<lparr>balance := 750, user_updated := t\<rparr>)"
    "dbCircuitBreaker ?v = sample_breaker_closed"
    using n by (simp_all add: processTransaction_def complete_and_move_def running sample_rows balance_query_def
        sql_set_status_def sql_move_balance_def)
  have l: "redis_forgets (rds sample_env)" "redis_deletes_locally (rds sample_env)"
    by (simp_all add: redis_forgets_def redis_deletes_locally_def)
  have seven: "dec_nat 7 = ''7''" by code_simp
  obtain t where "users (servers ?v (''postgres'', ''5432'')) 7 = Some (sample_user\<lparr>balance := 750, user_updated := t\<rparr>)"
    using u(1) by blast
  then show ?thesis
    using balance_fresh_after_processing [of sample_env sample_msg ?w ?v "sample_ctx\<lparr>param_id := ''7''\<rparr>" 0 7] p l u(2)
    by (simp add: sample_msg_def sample_user_def seven)
qed

text \<open>
  C26: A balance cached under another spelling of the same user id stays stale for its lifetime.
  Entries are keyed by the text of the path, while the database compares UUIDs, and a processing
  deletes only the entry of its own spelling: as long as the entry of the other spelling has not
  expired, a later request for that spelling still gets the old body, marked \<open>HIT\<close>, after the
  balance has moved.
\<close>

theorem other_spelling_stays_stale:
  assumes "result (processTransaction E msg) w = None"
    and "redis_deletes_locally (rds E)"
    and "param_id c \<noteq> []" and "param_id c \<noteq> msg_UserID msg"
    and same_user: "uuid_in (pg E) (param_id c) = Some u" "uuid_in (pg E) (msg_UserID msg) = Some u"
    and moved: "whole_cents (pg E) (msg_Amount msg)" "delta (pg E) (msg_Type msg) (msg_Amount msg) \<noteq> 0"
      "balance_at (servers w (Write (DB E))) u = Some b"
    and later: "redis v = redis (exec (processTransaction E msg) w)"
    and cached: "fst (rd_get (rds E) (UserBalanceKey (param_id c)) (clock E (ticks v)) (redis w)) = RedisBytes s"
      "dec_balance (codec E) s = Inr old"
  shows "result (GetUserBalance E c) v = answer ''HIT'' (BalanceBody old) \<and>
    balance_at (servers (exec (processTransaction E msg) w) (Write (DB E))) u \<noteq> Some b"
proof
  let ?k = "UserBalanceKey (param_id c)"
  from process_None_redis[OF assms(1)] obtain t t' where
    r: "redis v = snd (rd_del (rds E) (TransactionKey (msg_TransactionID msg)) t'
      (snd (rd_del (rds E) (UserBalanceKey (msg_UserID msg)) t (redis w))))"
    using later by auto
  have "TransactionKey (msg_TransactionID msg) \<noteq> ?k" by (rule txn_balance.disjoint) simp_all
  moreover have "UserBalanceKey (msg_UserID msg) \<noteq> ?k"
    by (rule balance_keys.key_neq) (use assms(4) in simp_all)
  ultimately have "fst (rd_get (rds E) ?k (clock E (ticks v)) (redis v)) = RedisBytes s"
    using assms(2) cached(1) unfolding r redis_deletes_locally_def by metis
  then have "result (cache_Get E (dec_balance (codec E)) ?k) v = Inr (Some old)"
    using cached(2) by (simp add: cache_Get_run)
  from balance_read.hit_is_cheap[OF assms(3) this]
  show "result (GetUserBalance E c) v = answer ''HIT'' (BalanceBody old)" by blast
  show "balance_at (servers (exec (processTransaction E msg) w) (Write (DB E))) u \<noteq> Some b"
    using process_None_balance[OF assms(1) moved(1), of "Write (DB E)" u] same_user(2) moved(2,3) by simp
qed

text \<open>An entry that expires at second 30, read at second 20.\<close>

theorem other_spelling_stays_stale_witness:
  "result (GetUserBalance sample_env (sample_ctx\<lparr>param_id := ''07''\<rparr>))
     ((exec (processTransaction sample_env sample_msg)
        (sample_world\<lparr>redis := [''user:balance:07'' \<mapsto> (''B'', Some 30000000000)]\<rparr>))\<lparr>ticks := 20\<rparr>)
   = answer ''HIT'' (BalanceBody sample_balance)"
proof -
  let ?w = "sample_world\<lparr>redis := [''user:balance:07'' \<mapsto> (''B'', Some 30000000000)]\<rparr>"
  have c: "round_cents (5 / 2) = 250" by (rule round_cents_int) simp
  have p: "result (processTransaction sample_env sample_msg) ?w = None"
    using process_answered [of sample_env ?w sample_msg 1 7 sample_user] c
    by (simp add: sample_rows whole_cents_def delta_def balance_query_def fits_18_2_def)
  have l: "redis_deletes_locally (rds sample_env)"
    by (simp add: redis_deletes_locally_def)
  show ?thesis
    using other_spelling_stays_stale [of sample_env sample_msg ?w "sample_ctx\<lparr>param_id := ''07''\<rparr>" 7 1000
        "(exec (processTransaction sample_env sample_msg) ?w)\<lparr>ticks := 20\<rparr>" "''B''" sample_balance] p l c
    by (simp add: sample_rows UserBalanceKey_def whole_cents_def delta_def balance_query_def balance_at_def)
qed

section \<open>A crash between commit and acknowledgement\<close>

text \<open>
  C14: A crash at the wrong moment moves money twice.  If the process stops after the database
  transaction of a message has committed and before the delivery is acknowledged (at any
  shutdown too, because \<open>main\<close> does not wait for the consumer), the broker delivers the message
  to the next process, which applies it again and acknowledges: with every round trip answered,
  one message has moved the balance by twice its amount.
\<close>

theorem crash_before_ack_moves_twice:
  assumes up: "\<And>n. pg_fate (pg E) n = Answered"
    and body: "dec_msg (codec E) (dl_body d) = Inr msg"
    and ids: "uuid_in (pg E) (msg_TransactionID msg) = Some i" "uuid_in (pg E) (msg_UserID msg) = Some u"
    and ty: "msg_Type msg \<in> {''credit'', ''debit'', ''transfer''}"
    and user: "users (servers w (Write (DB E))) u = Some r"
    and amt: "whole_cents (pg E) (msg_Amount msg)"
    and room: "fits_18_2 (balance r + delta (pg E) (msg_Type msg) (msg_Amount msg))"
      "fits_18_2 (balance r + 2 * delta (pg E) (msg_Type msg) (msg_Amount msg))"
    and crash: "restarted E (exec (processTransaction E msg) w) v"
  shows "result (processTransaction E msg) w = None \<and>
    result (consume_one E (processTransaction E) d) v = Ack \<and>
    balance_at (servers (exec (consume_one E (processTransaction E) d) v) (Write (DB E))) u
      = Some (balance r + 2 * delta (pg E) (msg_Type msg) (msg_Amount msg))"
proof -
  let ?c = "delta (pg E) (msg_Type msg) (msg_Amount msg)"
  have first: "result (processTransaction E msg) w = None"
    "balance_at (servers v (Write (DB E))) u = Some (balance r + ?c)"
    using process_answered[OF _ ids ty user amt room(1)] up restarted_servers[OF crash] by simp_all
  then obtain r' where r': "users (servers v (Write (DB E))) u = Some r'" "balance r' = balance r + ?c"
    by (auto simp: balance_at_def)
  have "fits_18_2 (balance r' + ?c)" using room(2) r'(2) by (simp add: algebra_simps)
  from process_answered[OF _ ids ty r'(1) amt this] up r'(2) first(1) show ?thesis
    by (simp add: consume_one_result consume_one_servers body algebra_simps)
qed

theorem crash_before_ack_moves_twice_witness:
  "let v = exec (InitCircuitBreakers sample_env) ((exec (processTransaction sample_env sample_msg) sample_world)
        \<lparr>limiters := (\<lambda>_. None), mtrace := [], logs := []\<rparr>)
   in balance_at (servers (exec (consume_one sample_env (processTransaction sample_env) \<lparr>dl_tag = 1, dl_body = ''M''\<rparr>) v)
        (''postgres'', ''5432'')) 7 = Some 500"
proof -
  let ?w = "exec (processTransaction sample_env sample_msg) sample_world"
  have "round_cents (5 / 2) = 250" by (rule round_cents_int) simp
  moreover have "restarted sample_env ?w
      (exec (InitCircuitBreakers sample_env) (?w\<lparr>limiters := (\<lambda>_. None), mtrace := [], logs := []\<rparr>))"
    unfolding restarted_def by (rule exI, intro conjI, rule_tac [5] refl) simp_all
  ultimately show ?thesis
    using crash_before_ack_moves_twice [of sample_env "\<lparr>dl_tag = 1, dl_body = ''M''\<rparr>" sample_msg 1 7 sample_world sample_user]
    by (simp add: Let_def sample_rows whole_cents_def delta_def balance_query_def fits_18_2_def)
qed

end
